(* ===== verification/Prelude.thy ===== *)
theory Prelude
  imports Main "HOL-Library.Word" "HOL-Library.Sublist"
begin

text \<open>
  Shared vocabulary of the development: the machine integers and byte strings the Rust code
  uses, the three result shapes its functions have (a \<open>Result\<close>, a computation that may panic,
  a poll), the checked arithmetic and slicing of the language, and the list facts that the
  components share.
  The target is a 64-bit one, so \<open>usize\<close> is a 64-bit word.
\<close>

section \<open>Machine integers\<close>

type_synonym u8 = "8 word"
type_synonym u32 = "32 word"
type_synonym i32 = "32 word"
type_synonym i64 = "64 word"
type_synonym usize = "64 word"
type_synonym u128 = "128 word"
type_synonym bytes = "8 word list"

text \<open>The largest allocation Rust grants: \<open>isize::MAX\<close>.\<close>

definition isize_max :: nat where
  "isize_max = 2 ^ 63 - 1"

section \<open>Results, panics and polls\<close>

text \<open>
  \<open>result\<close> is \<open>Result<T, E>\<close>. \<open>run\<close> is the outcome of a call that may panic: a panic unwinds
  the task that runs it, so it carries no value and no state. \<open>poll\<close> is \<open>std::task::Poll\<close>.
\<close>

datatype ('a, 'e) result = Ok 'a | Err 'e

datatype 'a run = Ret 'a | Panic

datatype 'a poll = Pending | Ready 'a

named_theorems run_simps \<open>unfolding of panicking computations\<close>

fun bind_run :: "'a run \<Rightarrow> ('a \<Rightarrow> 'b run) \<Rightarrow> 'b run" where
  "bind_run (Ret x) f = f x"
| "bind_run Panic f = Panic"

fun map_err :: "('e \<Rightarrow> 'f) \<Rightarrow> ('a, 'e) result \<Rightarrow> ('a, 'f) result" where
  "map_err f (Ok x) = Ok x"
| "map_err f (Err e) = Err (f e)"

fun is_ok :: "('a, 'e) result \<Rightarrow> bool" where
  "is_ok (Ok x) = True"
| "is_ok (Err e) = False"

text \<open>\<open>Result::ok\<close>, and \<open>expect\<close>/\<open>unwrap\<close> on a result and on an option.\<close>

fun ok :: "('a, 'e) result \<Rightarrow> 'a option" where
  "ok (Ok x) = Some x"
| "ok (Err e) = None"

fun unwrap_result :: "('a, 'e) result \<Rightarrow> 'a run" where
  "unwrap_result (Ok x) = Ret x"
| "unwrap_result (Err e) = Panic"

fun unwrap_option :: "'a option \<Rightarrow> 'a run" where
  "unwrap_option (Some x) = Ret x"
| "unwrap_option None = Panic"

lemma bind_run_Ret_iff [run_simps]: "bind_run m f = Ret y \<longleftrightarrow> (\<exists>x. m = Ret x \<and> f x = Ret y)"
  by (cases m) auto

lemma bind_run_Panic_iff: "bind_run m f = Panic \<longleftrightarrow> m = Panic \<or> (\<exists>x. m = Ret x \<and> f x = Panic)"
  by (cases m) auto

lemma unwrap_result_Ret_iff [run_simps]: "unwrap_result r = Ret x \<longleftrightarrow> r = Ok x"
  by (cases r) auto

lemma unwrap_option_Ret_iff [run_simps]: "unwrap_option r = Ret x \<longleftrightarrow> r = Some x"
  by (cases r) auto

lemma is_ok_iff: "is_ok r \<longleftrightarrow> (\<exists>x. r = Ok x)"
  by (cases r) auto

lemma map_err_Ok_iff [simp]: "map_err f r = Ok x \<longleftrightarrow> r = Ok x"
  by (cases r) auto

lemma map_err_Err_iff: "map_err f r = Err e \<longleftrightarrow> (\<exists>e'. r = Err e' \<and> e = f e')"
  by (cases r) auto

section \<open>Checked arithmetic and slices\<close>

text \<open>
  Subtraction of \<open>usize\<close> values with the overflow check of the development profile.
  In a release build the difference wraps instead; at each place of the program that uses this
  definition the wrapped value then exceeds every buffer and the next call panics, so both
  profiles give \<open>Panic\<close>.
\<close>

definition usize_sub :: "usize \<Rightarrow> usize \<Rightarrow> usize run" where
  "usize_sub a b = (if b \<le> a then Ret (a - b) else Panic)"

text \<open>The slices \<open>xs[..k]\<close> and \<open>xs[k..]\<close>, which panic out of range.\<close>

definition slice_to :: "'a list \<Rightarrow> nat \<Rightarrow> 'a list run" where
  "slice_to xs k = (if k \<le> length xs then Ret (take k xs) else Panic)"

definition slice_from :: "'a list \<Rightarrow> nat \<Rightarrow> 'a list run" where
  "slice_from xs k = (if k \<le> length xs then Ret (drop k xs) else Panic)"

lemma usize_sub_Ret_iff [run_simps]: "usize_sub a b = Ret c \<longleftrightarrow> b \<le> a \<and> c = a - b"
  by (auto simp: usize_sub_def)

lemma slice_to_Ret_iff [run_simps]: "slice_to xs k = Ret ys \<longleftrightarrow> k \<le> length xs \<and> ys = take k xs"
  by (auto simp: slice_to_def)

lemma slice_from_Ret_iff [run_simps]: "slice_from xs k = Ret ys \<longleftrightarrow> k \<le> length xs \<and> ys = drop k xs"
  by (auto simp: slice_from_def)

lemma unat_usize_sub: "b \<le> a \<Longrightarrow> unat (a - b) = unat a - unat (b :: usize)"
  by (rule unat_sub)

section \<open>Casts\<close>

text \<open>\<open>as usize\<close> on an \<open>i32\<close> extends the sign; \<open>as i32\<close> truncates.\<close>

definition i32_as_usize :: "i32 \<Rightarrow> usize" where
  "i32_as_usize n = scast n"

definition usize_as_i32 :: "usize \<Rightarrow> i32" where
  "usize_as_i32 n = ucast n"

lemma i32_as_usize_nonneg:
  assumes "n < 2 ^ 31"
  shows "i32_as_usize (of_nat n) = of_nat n"
proof -
  have "sint (of_nat n :: i32) = int n"
    using assms by (simp add: sint_uint signed_take_bit_int_eq_self uint_nat unat_of_nat)
  then show ?thesis
    by (simp add: i32_as_usize_def scast_eq)
qed

section \<open>Lists of rows as maps\<close>

text \<open>A list of rows read as the map from their keys, and its update in place.\<close>

definition rows_by :: "('r \<Rightarrow> 'k) \<Rightarrow> 'r list \<Rightarrow> 'k \<Rightarrow> 'r option" where
  "rows_by key rs = map_of (map (\<lambda>r. (key r, r)) rs)"

definition replace_row :: "('r \<Rightarrow> 'k) \<Rightarrow> 'r \<Rightarrow> 'r list \<Rightarrow> 'r list" where
  "replace_row key r rs = map (\<lambda>x. if key x = key r then r else x) rs"

lemma rows_by_Nil [simp]: "rows_by key [] = Map.empty"
  by (simp add: rows_by_def)

lemma rows_by_Cons [simp]: "rows_by key (r # rs) = (rows_by key rs)(key r \<mapsto> r)"
  by (simp add: rows_by_def)

lemma rows_by_None_iff: "rows_by key rs k = None \<longleftrightarrow> k \<notin> key ` set rs"
  by (simp add: rows_by_def map_of_eq_None_iff image_image)

lemma rows_by_SomeD: "rows_by key rs k = Some r \<Longrightarrow> key r = k \<and> r \<in> set rs"
  unfolding rows_by_def by (auto dest: map_of_SomeD)

lemma rows_by_Some_iff: "distinct (map key rs) \<Longrightarrow> rows_by key rs k = Some r \<longleftrightarrow> key r = k \<and> r \<in> set rs"
  unfolding rows_by_def by (subst map_of_eq_Some_iff) (auto simp: comp_def)

lemma rows_by_replace:
  "key r \<in> key ` set rs \<Longrightarrow> rows_by key (replace_row key r rs) = (rows_by key rs)(key r \<mapsto> r)"
proof (induction rs)
  case (Cons a rs)
  show ?case
  proof (cases "key r \<in> key ` set rs")
    case True
    with Cons.IH show ?thesis by (auto simp: replace_row_def fun_eq_iff)
  next
    case False
    then have "replace_row key r rs = rs"
      unfolding replace_row_def by (intro map_idI) (metis image_eqI)
    with Cons.prems False show ?thesis by (auto simp: replace_row_def fun_eq_iff)
  qed
qed simp

lemma map_replace_row:
  "(\<And>x. x \<in> set rs \<Longrightarrow> key x = key r \<Longrightarrow> f x = f r) \<Longrightarrow> map f (replace_row key r rs) = map f rs"
  by (simp add: replace_row_def)

lemma set_replace_row: "set (replace_row key r rs) \<subseteq> insert r (set rs)"
  by (auto simp: replace_row_def)

end
