(* ===== verification/Framing.thy ===== *)
theory Framing
  imports Prelude
begin

text \<open>
  The contract between a frame decoder and the transport that drives it
  (\<open>tokio_util::codec::{Decoder, Encoder}\<close>, the traits \<open>MCCodec\<close> implements in
  \<open>proxy/src/client_actor/net.rs\<close>).
  A decoder is called with its state and the bytes buffered so far; \<open>Ok None\<close> asks for more bytes,
  \<open>Ok (Some p)\<close> delivers a packet and leaves the rest of the buffer.
  The relation \<open>frames\<close> is that way of driving a decoder over input that arrives in chunks; the
  locale \<open>framing\<close> states what a codec promises, and proves once that the packets do not depend on
  how the network cuts the byte stream.
\<close>

type_synonym ('s, 'p, 'e) decoder = "'s \<Rightarrow> bytes \<Rightarrow> (('p option, 'e) result \<times> 's \<times> bytes) run"

inductive frames :: "('s, 'p, 'e) decoder \<Rightarrow> 's \<Rightarrow> bytes \<Rightarrow> bytes list \<Rightarrow> 'p list \<Rightarrow> 's \<Rightarrow> bytes \<Rightarrow> bool"
  for dec where
  idle: "dec s b = Ret (Ok None, s', b') \<Longrightarrow> frames dec s b [] [] s' b'"
| chunk: "dec s b = Ret (Ok None, s', b') \<Longrightarrow> frames dec s' (b' @ c) cs ps s'' b'' \<Longrightarrow>
    frames dec s b (c # cs) ps s'' b''"
| packet: "dec s b = Ret (Ok (Some p), s', b') \<Longrightarrow> frames dec s' b' cs ps s'' b'' \<Longrightarrow>
    frames dec s b cs (p # ps) s'' b''"

text \<open>The decoder is a function, so the input determines the packets and the final state.\<close>

lemma frames_functional:
  "frames dec s b cs ps s' b' \<Longrightarrow> frames dec s b cs qs t' d' \<Longrightarrow> ps = qs \<and> s' = t' \<and> b' = d'"
proof (induction arbitrary: qs t' d' rule: frames.induct)
  case (idle s b s' b')
  from idle.prems idle.hyps show ?case by (cases rule: frames.cases) auto
next
  case (chunk s b s' b' c cs ps s'' b'')
  from chunk.prems chunk.hyps show ?case
    by (cases rule: frames.cases) (auto dest: chunk.IH)
next
  case (packet s b p s' b' cs ps s'' b'')
  from packet.prems packet.hyps show ?case
    by (cases rule: frames.cases) (auto dest: packet.IH)
qed

text \<open>
  The codec laws. \<open>env\<close> collects the library functions the codec is built on, \<open>ok\<close> what is known
  of them; \<open>wf\<close> says which frames are within the codec's limits, \<open>limit\<close> bounds the buffer.
\<close>

locale framing =
  fixes dec :: "'env \<Rightarrow> ('s, 'p, 'e) decoder"
    and enc :: "'env \<Rightarrow> 'f \<Rightarrow> bytes"
    and pkt :: "'env \<Rightarrow> 'f \<Rightarrow> 'p"
    and wf :: "'env \<Rightarrow> 'f \<Rightarrow> bool"
    and ok_env :: "'env \<Rightarrow> bool"
    and s0 :: 's
    and limit :: nat
  assumes dec_enc: "ok_env L \<Longrightarrow> wf L f \<Longrightarrow> length (enc L f @ rest) \<le> limit \<Longrightarrow>
      dec L s0 (enc L f @ rest) = Ret (Ok (Some (pkt L f)), s0, rest)"
    and dec_short: "ok_env L \<Longrightarrow> wf L f \<Longrightarrow> length (enc L f) \<le> limit \<Longrightarrow> strict_prefix p (enc L f) \<Longrightarrow>
      \<exists>s b. dec L s0 p = Ret (Ok None, s, b)"
    and dec_resume: "ok_env L \<Longrightarrow> dec L s b = Ret (Ok None, s', b') \<Longrightarrow> length (b @ more) \<le> limit \<Longrightarrow>
      dec L s' (b' @ more) = dec L s (b @ more)"
    and dec_nil: "dec L s0 [] = Ret (Ok None, s0, [])"
begin

text \<open>A decoder state and buffer that behave as the start state does on the unread bytes \<open>p\<close>.\<close>

definition stands_for :: "'env \<Rightarrow> 's \<Rightarrow> bytes \<Rightarrow> bytes \<Rightarrow> bool" where
  "stands_for L s b p \<longleftrightarrow>
     (\<forall>more. length (p @ more) \<le> limit \<longrightarrow> dec L s (b @ more) = dec L s0 (p @ more))"

lemma stands_for_refl [simp]: "stands_for L s0 p p"
  by (simp add: stands_for_def)

lemma stands_for_now: "stands_for L s b p \<Longrightarrow> length p \<le> limit \<Longrightarrow> dec L s b = dec L s0 p"
  unfolding stands_for_def by (metis append_Nil2)

lemma stands_for_append: "stands_for L s b p \<Longrightarrow> stands_for L s (b @ c) (p @ c)"
  by (simp add: stands_for_def)

lemma stands_for_wait:
  "ok_env L \<Longrightarrow> dec L s0 p = Ret (Ok None, s', b') \<Longrightarrow> stands_for L s' b' p"
  by (simp add: stands_for_def dec_resume)

text \<open>What may be left at the end of the input: nothing, or an incomplete frame.\<close>

definition unfinished :: "'env \<Rightarrow> bytes \<Rightarrow> bool" where
  "unfinished L q \<longleftrightarrow> q = [] \<or> (\<exists>f. wf L f \<and> length (enc L f) \<le> limit \<and> strict_prefix q (enc L f))"

lemma unfinished_prefix: "unfinished L (p @ r) \<Longrightarrow> unfinished L p"
  unfolding unfinished_def by (auto dest: append_prefixD prefix_order.le_less_trans [OF prefixI [OF refl]])

lemma dec_unfinished:
  assumes "ok_env L" and "unfinished L p"
  shows "\<exists>s b. dec L s0 p = Ret (Ok None, s, b) \<and> (p = [] \<longrightarrow> s = s0 \<and> b = [])"
  using assms dec_nil dec_short unfolding unfinished_def by (cases "p = []") auto

lemma frames_unfinished:
  assumes "ok_env L" and "unfinished L (p @ concat cs)" and "length (p @ concat cs) \<le> limit"
    and "stands_for L s b p"
  shows "\<exists>s' b'. frames (dec L) s b cs [] s' b' \<and> (p @ concat cs = [] \<longrightarrow> s' = s0 \<and> b' = [])"
  using assms(2-)
proof (induction cs arbitrary: s b p)
  case Nil
  then obtain s1 b1 where "dec L s0 p = Ret (Ok None, s1, b1)" and e: "p = [] \<longrightarrow> s1 = s0 \<and> b1 = []"
    using dec_unfinished [OF assms(1), of p] by auto
  with Nil have "frames (dec L) s b [] [] s1 b1" using stands_for_now [of L s b p] by (auto intro: frames.idle)
  with e show ?case by auto
next
  case (Cons c cs)
  then have "unfinished L p" by (auto dest: unfinished_prefix)
  with Cons.prems obtain s1 b1 where wait: "dec L s0 p = Ret (Ok None, s1, b1)"
    using dec_unfinished [OF assms(1)] by blast
  with Cons.prems have now: "dec L s b = Ret (Ok None, s1, b1)" using stands_for_now [of L s b p] by simp
  from assms(1) wait have "stands_for L s1 (b1 @ c) (p @ c)" by (intro stands_for_append stands_for_wait)
  have "\<exists>s' b'. frames (dec L) s1 (b1 @ c) cs [] s' b' \<and> ((p @ c) @ concat cs = [] \<longrightarrow> s' = s0 \<and> b' = [])"
    by (rule Cons.IH) (use Cons.prems \<open>stands_for L s1 (b1 @ c) (p @ c)\<close> in simp_all)
  then obtain s' b'
    where run: "frames (dec L) s1 (b1 @ c) cs [] s' b'" and e: "(p @ c) @ concat cs = [] \<longrightarrow> s' = s0 \<and> b' = []"
    by blast
  from now run have "frames (dec L) s b (c # cs) [] s' b'" by (rule frames.chunk)
  with e show ?case by (intro exI [of _ s'] exI [of _ b']) simp
qed

text \<open>Driving the decoder over whole frames and what is left delivers the frames.\<close>

lemma frames_from:
  assumes "ok_env L" and "\<forall>f \<in> set fs. wf L f"
    and "p @ concat cs = concat (map (enc L) fs) @ q" and "unfinished L q"
    and "length (concat (map (enc L) fs) @ q) \<le> limit"
    and "stands_for L s b p"
  shows "\<exists>s' b'. frames (dec L) s b cs (map (pkt L) fs) s' b' \<and> (q = [] \<longrightarrow> s' = s0 \<and> b' = [])"
  using assms(2,3,5-)
proof (induction "length fs + length cs" arbitrary: fs cs s b p rule: less_induct)
  case less
  have p_le: "length p \<le> limit"
    using less.prems(2,3) by (metis le_add1 le_trans length_append)
  have now: "dec L s b = dec L s0 p"
    using less.prems(4) p_le by (rule stands_for_now)
  show ?case
  proof (cases fs)
    case Nil
    with less.prems assms(4) frames_unfinished [OF assms(1), of p cs s b] show ?thesis by auto
  next
    case (Cons f fs')
    from less.prems(1) Cons have wf: "wf L f" by simp
    from less.prems(2) Cons have eq: "p @ concat cs = enc L f @ concat (map (enc L) fs') @ q" by simp
    have enc_le: "length (enc L f) \<le> limit" using less.prems(3) Cons by simp
    show ?thesis
    proof (cases "prefix (enc L f) p")
      case True
      then obtain r where r: "p = enc L f @ r" by (auto simp: prefix_def)
      have "dec L s b = Ret (Ok (Some (pkt L f)), s0, r)"
        using assms(1) wf p_le by (simp add: now r dec_enc)
      moreover have "\<exists>s' b'. frames (dec L) s0 r cs (map (pkt L) fs') s' b' \<and> (q = [] \<longrightarrow> s' = s0 \<and> b' = [])"
        using less.prems(1,3) eq Cons r by (intro less.hyps [where p = r]) auto
      ultimately show ?thesis using Cons by (auto intro: frames.packet)
    next
      case False
      have "prefix p (p @ concat cs)" and "prefix (enc L f) (p @ concat cs)"
        by (simp, simp only: eq prefixI)
      then have "prefix p (enc L f)" using False prefix_same_cases by blast
      with False have strict: "strict_prefix p (enc L f)"
        by (auto simp: strict_prefix_def)
      with assms(1) wf enc_le obtain s' b' where wait: "dec L s0 p = Ret (Ok None, s', b')"
        using dec_short by blast
      have "cs \<noteq> []"
      proof
        assume "cs = []"
        with eq have "prefix (enc L f) p" by simp
        with False show False by contradiction
      qed
      then obtain c cs' where cs: "cs = c # cs'" by (cases cs) auto
      have "stands_for L s' (b' @ c) (p @ c)"
        using assms(1) wait by (intro stands_for_append stands_for_wait)
      then have "\<exists>s'' b''. frames (dec L) s' (b' @ c) cs' (map (pkt L) fs) s'' b'' \<and> (q = [] \<longrightarrow> s'' = s0 \<and> b'' = [])"
        using less.prems cs by (intro less.hyps [where p = "p @ c"]) auto
      with now wait cs show ?thesis by (auto intro: frames.chunk)
    qed
  qed
qed

theorem chunks_irrelevant:
  assumes "ok_env L" and "\<forall>f \<in> set fs. wf L f"
    and "concat cs = concat (map (enc L) fs)"
    and "length (concat cs) \<le> limit"
  shows "frames (dec L) s0 [] cs ps s b \<longleftrightarrow> ps = map (pkt L) fs \<and> s = s0 \<and> b = []"
proof -
  have "frames (dec L) s0 [] cs (map (pkt L) fs) s0 []"
    using frames_from [OF assms(1,2), of "[]" cs "[]" s0 "[]"] assms(3,4) by (auto simp: unfinished_def)
  then show ?thesis by (auto dest: frames_functional)
qed

text \<open>A first part of a stream of frames is some whole frames and the beginning of the next.\<close>

lemma complete_frames:
  assumes "\<forall>f \<in> set fs. wf L f" and "prefix bs (concat (map (enc L) fs))"
    and "length (concat (map (enc L) fs)) \<le> limit"
  shows "\<exists>whole rest q. fs = whole @ rest \<and> bs = concat (map (enc L) whole) @ q \<and> unfinished L q \<and>
    (\<forall>k \<le> length fs. length (concat (map (enc L) (take k fs))) \<le> length bs \<longrightarrow> k \<le> length whole)"
  using assms
proof (induction fs arbitrary: bs)
  case Nil
  then show ?case by (simp add: unfinished_def)
next
  case (Cons f fs)
  show ?case
  proof (cases "prefix (enc L f) bs")
    case True
    then obtain bs' where bs: "bs = enc L f @ bs'" by (auto simp: prefix_def)
    have "\<exists>whole rest q. fs = whole @ rest \<and> bs' = concat (map (enc L) whole) @ q \<and> unfinished L q \<and>
        (\<forall>k \<le> length fs. length (concat (map (enc L) (take k fs))) \<le> length bs' \<longrightarrow> k \<le> length whole)"
      using Cons.prems bs by (intro Cons.IH) simp_all
    then obtain whole rest q where "fs = whole @ rest"
      and "bs' = concat (map (enc L) whole) @ q" "unfinished L q"
      and all: "\<forall>k \<le> length fs. length (concat (map (enc L) (take k fs))) \<le> length bs' \<longrightarrow> k \<le> length whole"
      by blast
    moreover have "k \<le> length (f # whole)"
      if "k \<le> length (f # fs)" "length (concat (map (enc L) (take k (f # fs)))) \<le> length bs" for k
    proof (cases k)
      case (Suc j)
      with that bs have "j \<le> length fs" and "length (concat (map (enc L) (take j fs))) \<le> length bs'" by simp_all
      with all Suc show ?thesis by simp
    qed simp
    ultimately show ?thesis
      using bs by (intro exI [of _ "f # whole"] exI [of _ rest] exI [of _ q]) simp
  next
    case False
    with Cons.prems(2) have strict: "strict_prefix bs (enc L f)"
      by (auto simp: strict_prefix_def prefix_append)
    then have "length bs < length (enc L f)" by (rule prefix_length_less)
    then have "k \<le> 0" if "length (concat (map (enc L) (take k (f # fs)))) \<le> length bs" for k
      using that by (cases k) auto
    with strict Cons.prems show ?thesis
      by (intro exI [of _ "[]"] exI [of _ "f # fs"] exI [of _ bs]) (auto simp: unfinished_def)
  qed
qed

text \<open>
  A first part of a stream of frames gives a first part of the packets: all whose frames are complete,
  and no other.
\<close>

theorem partial_stream:
  assumes "ok_env L" and "\<forall>f \<in> set fs. wf L f" and "prefix (concat cs) (concat (map (enc L) fs))"
    and "length (concat (map (enc L) fs)) \<le> limit"
  shows "\<exists>whole s b. prefix whole fs \<and> frames (dec L) s0 [] cs (map (pkt L) whole) s b \<and>
    (\<forall>k \<le> length fs. length (concat (map (enc L) (take k fs))) \<le> length (concat cs) \<longrightarrow> k \<le> length whole)"
proof -
  obtain whole rest q where fs: "fs = whole @ rest" and q: "concat cs = concat (map (enc L) whole) @ q"
    and u: "unfinished L q"
    and all: "\<forall>k \<le> length fs. length (concat (map (enc L) (take k fs))) \<le> length (concat cs) \<longrightarrow> k \<le> length whole"
    using complete_frames [OF assms(2-4)] by blast
  have "length (concat cs) \<le> limit"
    using prefix_length_le [OF assms(3)] assms(4) by (rule le_trans)
  then have "\<exists>s b. frames (dec L) s0 [] cs (map (pkt L) whole) s b \<and> (q = [] \<longrightarrow> s = s0 \<and> b = [])"
    using assms(1,2) fs u
    by (intro frames_from [where p = "[]" and q = q]) (simp_all only: stands_for_refl q [symmetric] append_Nil, simp)
  then obtain s b where "frames (dec L) s0 [] cs (map (pkt L) whole) s b" by blast
  moreover have "prefix whole fs" using fs by simp
  ultimately show ?thesis using all by (intro exI conjI)
qed

end

end
