(* ===== verification/Net.thy ===== *)
theory Net
  imports Framing
begin

text \<open>
  The wire codec, \<open>proxy/src/client_actor/net.rs\<close>: the state and the decoder of \<open>MCCodec\<close>, its
  encoder, and the serialisation of packets.
  The \<open>VarInt\<close> of the crate \<open>ferrumc_net_codec\<close> and the buffer growth of the crate \<open>bytes\<close> are
  parameters, collected in the record \<open>net_lib\<close>; \<open>net_ok\<close> states what their documentation
  promises. A \<open>BytesMut\<close> is the list of the bytes it holds.
\<close>

section \<open>Library functions the codec is built on\<close>

text \<open>
  \<open>NetTypesError\<close>: the source tells \<open>Io\<close>, an early end of the buffer, from every other variant.
\<close>

datatype NetTypesError = Io string | NotIo string

record VarInt =
  vi_val :: i32
  vi_len :: usize

text \<open>
  \<open>vi_read\<close> is \<open>VarInt::read\<close> on a reader: its result and what the reader has left.
  \<open>vi_from\<close> is \<open>VarInt::from\<close>; \<open>vi_write\<close> is \<open>VarInt::write\<close>, the bytes it puts out and its result.
  \<open>can_reserve l n\<close> says that a buffer that holds \<open>l\<close> bytes can reserve \<open>n\<close> more without a panic.
\<close>

record net_lib =
  vi_read :: "bytes \<Rightarrow> (VarInt, NetTypesError) result \<times> bytes"
  vi_from :: "usize \<Rightarrow> VarInt"
  vi_write :: "VarInt \<Rightarrow> bytes \<times> (unit, NetTypesError) result"
  can_reserve :: "nat \<Rightarrow> nat \<Rightarrow> bool"

section \<open>The packets and the codec state\<close>

record RawPacket =
  rp_id :: i32
  rp_payload :: bytes

datatype DecodeState = Len | Data usize

record MCCodec =
  mc_state :: DecodeState

definition MCCodec_new :: MCCodec where
  "MCCodec_new = \<lparr>mc_state = Len\<rparr>"

text \<open>\<open>set_compression\<close> is a \<open>todo!\<close>: it panics for every threshold.\<close>

definition set_compression :: "MCCodec \<Rightarrow> u8 \<Rightarrow> MCCodec run" where
  "set_compression codec compression = Panic"

section \<open>The decoder\<close>

text \<open>
  \<open>decode_head\<close> reads the length prefix through a cursor, so a short read leaves the buffer as it
  was; \<open>advance\<close> and \<open>reserve\<close> panic when the buffer cannot serve them.
\<close>

definition decode_head :: "net_lib \<Rightarrow> bytes \<Rightarrow> ((usize option, NetTypesError) result \<times> bytes) run" where
  "decode_head L src =
     (if src = [] then Ret (Ok None, src)
      else case fst (vi_read L src) of
          Err (Io _) \<Rightarrow> Ret (Ok None, src)
        | Err e \<Rightarrow> Ret (Err e, src)
        | Ok n \<Rightarrow>
            bind_run (slice_from src (unat (vi_len n))) (\<lambda>src1.
              let len = i32_as_usize (vi_val n) in
              if can_reserve L (length src1) (unat len) then Ret (Ok (Some len), src1)
              else Panic))"

text \<open>
  \<open>decode_body\<close> waits for the announced \<open>n\<close> bytes, then reads the packet id from the buffer itself
  (the reader consumes it) and splits off the other \<open>n - id.len\<close> bytes. A failed read leaves what
  the reader left.
\<close>

definition decode_body ::
  "net_lib \<Rightarrow> usize \<Rightarrow> bytes \<Rightarrow> ((RawPacket option, NetTypesError) result \<times> bytes) run" where
  "decode_body L n src =
     (if length src < unat n then Ret (Ok None, src)
      else case vi_read L src of
          (Err e, src1) \<Rightarrow> Ret (Err e, src1)
        | (Ok pid, src1) \<Rightarrow>
            bind_run (usize_sub n (vi_len pid)) (\<lambda>k.
            bind_run (slice_to src1 (unat k)) (\<lambda>payload.
              Ret (Ok (Some \<lparr>rp_id = vi_val pid, rp_payload = payload\<rparr>), drop (unat k) src1))))"

definition decode_data ::
  "net_lib \<Rightarrow> usize \<Rightarrow> bytes \<Rightarrow> ((RawPacket option, NetTypesError) result \<times> MCCodec \<times> bytes) run" where
  "decode_data L n src =
     bind_run (decode_body L n src) (\<lambda>r. case r of
         (Ok None, src1) \<Rightarrow> Ret (Ok None, \<lparr>mc_state = Data n\<rparr>, src1)
       | (Ok (Some data), src1) \<Rightarrow>
           (if can_reserve L (length src1) 1 then Ret (Ok (Some data), \<lparr>mc_state = Len\<rparr>, src1)
            else Panic)
       | (Err e, src1) \<Rightarrow> Ret (Err e, \<lparr>mc_state = Data n\<rparr>, src1))"

definition decode :: "net_lib \<Rightarrow> (MCCodec, RawPacket, NetTypesError) decoder" where
  "decode L codec src =
     (case mc_state codec of
        Len \<Rightarrow> bind_run (decode_head L src) (\<lambda>r. case r of
            (Ok (Some n), src1) \<Rightarrow> decode_data L n src1
          | (Ok None, src1) \<Rightarrow> Ret (Ok None, codec, src1)
          | (Err e, src1) \<Rightarrow> Ret (Err e, codec, src1))
      | Data n \<Rightarrow> decode_data L n src)"

section \<open>The encoder and packet serialisation\<close>

definition encode ::
  "net_lib \<Rightarrow> bytes \<Rightarrow> bytes \<Rightarrow> ((unit, NetTypesError) result \<times> bytes) run" where
  "encode L data dst =
     (let n = length data; var_length = vi_from L (of_nat n) in
      if can_reserve L (length dst) (unat (vi_len var_length) + n) then
        (case vi_write L var_length of
           (w, Err e) \<Rightarrow> Ret (Err e, dst @ w)
         | (w, Ok _) \<Rightarrow> Ret (Ok (), dst @ w @ data))
      else Panic)"

text \<open>
  \<open>BytesSerializable::serialize_bytes\<close>: \<open>write\<close> is the packet's own \<open>ClientPacket::write\<close>, the bytes
  it writes into an empty buffer and its result.
\<close>

definition serialize_bytes :: "('p \<Rightarrow> bytes \<times> (unit, 'w) result) \<Rightarrow> 'p \<Rightarrow> (bytes, 'w) result" where
  "serialize_bytes write p = (case write p of (bs, Ok _) \<Rightarrow> Ok bs | (bs, Err e) \<Rightarrow> Err e)"

section \<open>What the libraries promise\<close>

text \<open>
  A \<open>VarInt\<close> made from a number has its low 32 bits as its value and is written in 1 to 5 bytes,
  as many as its \<open>len\<close> says; reading it back gives it and leaves what follows; a proper part of
  it is an early end of the buffer.
\<close>

definition varint_writes :: "net_lib \<Rightarrow> bool" where
  "varint_writes L \<longleftrightarrow> (\<forall>n.
     vi_val (vi_from L n) = usize_as_i32 n \<and>
     snd (vi_write L (vi_from L n)) = Ok () \<and>
     length (fst (vi_write L (vi_from L n))) = unat (vi_len (vi_from L n)) \<and>
     (\<forall>rest. vi_read L (fst (vi_write L (vi_from L n)) @ rest) = (Ok (vi_from L n), rest)) \<and>
     (\<forall>k < length (fst (vi_write L (vi_from L n))).
        \<exists>m r. vi_read L (take k (fst (vi_write L (vi_from L n)))) = (Err (Io m), r)))"

text \<open>A successful read takes \<open>len\<close> bytes, 1 to 5 of them, and looks at no other byte.\<close>

definition varint_reads :: "net_lib \<Rightarrow> bool" where
  "varint_reads L \<longleftrightarrow> (\<forall>bs v r zs. vi_read L bs = (Ok v, r) \<longrightarrow>
     1 \<le> unat (vi_len v) \<and> unat (vi_len v) \<le> 5 \<and> unat (vi_len v) \<le> length bs \<and>
     r = drop (unat (vi_len v)) bs \<and> vi_read L (bs @ zs) = (Ok v, r @ zs))"

text \<open>\<open>reserve\<close> panics when the buffer would outgrow \<open>isize::MAX\<close> bytes, and only then.\<close>

definition reserve_checks :: "net_lib \<Rightarrow> bool" where
  "reserve_checks L \<longleftrightarrow> (\<forall>l n. (l + n \<le> isize_max \<longrightarrow> can_reserve L l n) \<and>
     (isize_max < n \<longrightarrow> \<not> can_reserve L l n))"

definition net_ok :: "net_lib \<Rightarrow> bool" where
  "net_ok L \<longleftrightarrow> varint_writes L \<and> varint_reads L \<and> reserve_checks L"

text \<open>
  Buffers stay below this bound: \<open>isize::MAX\<close> less the largest length a frame can announce.
\<close>

definition decode_limit :: nat where
  "decode_limit = isize_max - 2 ^ 31"


section \<open>Facts about the libraries\<close>

text \<open>The bytes of a number, and of a frame: its length, its packet id and its payload.\<close>

definition varint_bytes :: "net_lib \<Rightarrow> usize \<Rightarrow> bytes" where
  "varint_bytes L n = fst (vi_write L (vi_from L n))"

definition packet_data :: "net_lib \<Rightarrow> RawPacket \<Rightarrow> bytes" where
  "packet_data L p = varint_bytes L (i32_as_usize (rp_id p)) @ rp_payload p"

definition frame_bytes :: "net_lib \<Rightarrow> RawPacket \<Rightarrow> bytes" where
  "frame_bytes L p = varint_bytes L (of_nat (length (packet_data L p))) @ packet_data L p"

text \<open>A packet fits a frame when its id and payload together stay below the sign bit of an \<open>i32\<close>.\<close>

definition fits_frame :: "net_lib \<Rightarrow> RawPacket \<Rightarrow> bool" where
  "fits_frame L p \<longleftrightarrow> length (packet_data L p) < 2 ^ 31"

lemma net_okD:
  assumes "net_ok L"
  shows "varint_writes L" and "varint_reads L" and "reserve_checks L"
  using assms by (simp_all add: net_ok_def)

lemma vi_write_from:
  "varint_writes L \<Longrightarrow> vi_write L (vi_from L n) = (varint_bytes L n, Ok ())"
  by (simp add: varint_writes_def varint_bytes_def prod_eq_iff)

lemma vi_val_from: "varint_writes L \<Longrightarrow> vi_val (vi_from L n) = usize_as_i32 n"
  by (simp add: varint_writes_def)

lemma unat_vi_len_from:
  "varint_writes L \<Longrightarrow> unat (vi_len (vi_from L n)) = length (varint_bytes L n)"
  by (simp add: varint_writes_def varint_bytes_def)

lemma vi_read_bytes:
  "varint_writes L \<Longrightarrow> vi_read L (varint_bytes L n @ rest) = (Ok (vi_from L n), rest)"
  by (simp add: varint_writes_def varint_bytes_def)

lemma vi_read_part:
  "varint_writes L \<Longrightarrow> strict_prefix p (varint_bytes L n) \<Longrightarrow> \<exists>m r. vi_read L p = (Err (Io m), r)"
proof -
  assume wr: "varint_writes L" and p: "strict_prefix p (varint_bytes L n)"
  have "length p < length (varint_bytes L n)" and "p = take (length p) (varint_bytes L n)"
    using p by (auto simp: strict_prefix_def prefix_def)
  with wr show ?thesis unfolding varint_writes_def varint_bytes_def by metis
qed

lemma varint_readsD:
  assumes "varint_reads L" and "vi_read L bs = (Ok v, r)"
  shows "1 \<le> unat (vi_len v)" and "unat (vi_len v) \<le> 5" and "unat (vi_len v) \<le> length bs"
    and "r = drop (unat (vi_len v)) bs" and "vi_read L (bs @ zs) = (Ok v, r @ zs)"
  using assms unfolding varint_reads_def by blast+

lemma varint_bytes_len:
  assumes "net_ok L"
  shows "1 \<le> length (varint_bytes L n)" and "length (varint_bytes L n) \<le> 5"
proof -
  have "vi_read L (varint_bytes L n @ []) = (Ok (vi_from L n), [])"
    by (rule vi_read_bytes [OF net_okD(1) [OF assms]])
  from varint_readsD(1,2) [OF net_okD(2) [OF assms] this]
  show "1 \<le> length (varint_bytes L n)" and "length (varint_bytes L n) \<le> 5"
    by (simp_all add: unat_vi_len_from [OF net_okD(1) [OF assms]])
qed

lemma can_reserveI: "reserve_checks L \<Longrightarrow> l + n \<le> isize_max \<Longrightarrow> can_reserve L l n"
  by (simp add: reserve_checks_def)

lemma not_can_reserveI: "reserve_checks L \<Longrightarrow> isize_max < n \<Longrightarrow> \<not> can_reserve L l n"
  by (simp add: reserve_checks_def)

text \<open>A length that could be reserved came from a non-negative \<open>i32\<close>.\<close>

lemma unat_i32_as_usize:
  "unat (i32_as_usize v) = (if 0 \<le> sint v then nat (sint v) else nat (2 ^ 64 + sint v))"
proof -
  have lo: "- (2 ^ 31) \<le> sint v" using sint_ge [of v] by simp
  have hi: "sint v < 2 ^ 31" using sint_lt [of v] by simp
  have "uint (i32_as_usize v) = sint v mod 2 ^ 64"
  proof -
    have "uint (scast v :: usize) = sint v mod 2 ^ LENGTH(64)"
      by (subst scast_eq) (rule uint_word_of_int)
    then show ?thesis by (simp add: i32_as_usize_def)
  qed
  moreover have "0 \<le> sint v \<Longrightarrow> sint v mod 2 ^ 64 = sint v"
    using hi by (simp add: mod_pos_pos_trivial)
  moreover have "sint v < 0 \<Longrightarrow> sint v mod 2 ^ 64 = 2 ^ 64 + sint v"
  proof -
    assume "sint v < 0"
    then have "(2 ^ 64 + sint v) mod 2 ^ 64 = 2 ^ 64 + sint v"
      using lo by (intro mod_pos_pos_trivial) auto
    then show ?thesis by simp
  qed
  ultimately show ?thesis by (simp add: unat_eq_nat_uint)
qed

lemma i32_as_usize_small: "unat (i32_as_usize v) \<le> isize_max \<Longrightarrow> unat (i32_as_usize v) < 2 ^ 31"
  using sint_ge [of v] sint_lt [of v]
  by (auto simp: unat_i32_as_usize isize_max_def split: if_splits)

lemma i32_as_usize_negative: "sint v < 0 \<Longrightarrow> isize_max < unat (i32_as_usize v)"
  using sint_ge [of v] by (simp add: unat_i32_as_usize isize_max_def)

lemma usize_as_i32_as_usize [simp]: "usize_as_i32 (i32_as_usize v) = v"
  unfolding usize_as_i32_def i32_as_usize_def
  by (rule bit_word_eqI) (auto simp: bit_unsigned_iff bit_signed_iff)


section \<open>The decoder on frames\<close>

lemma usize_as_i32_of_nat: "usize_as_i32 (of_nat n) = of_nat n"
  unfolding usize_as_i32_def by (rule bit_word_eqI) (simp add: bit_unsigned_iff bit_of_nat_iff)

lemma length_roundtrip: "n < 2 ^ 31 \<Longrightarrow> i32_as_usize (usize_as_i32 (of_nat n)) = of_nat n"
  by (simp add: usize_as_i32_of_nat i32_as_usize_nonneg)

lemma unat_usize_of_nat: "n < 2 ^ 31 \<Longrightarrow> unat (of_nat n :: usize) = n"
  by (simp add: unat_of_nat)

lemma mc_state_new [simp]: "mc_state MCCodec_new = Len"
  by (simp add: MCCodec_new_def)

lemma decode_head_Nil [simp]: "decode_head L [] = Ret (Ok None, [])"
  by (simp add: decode_head_def)

lemma decode_head_part:
  assumes "net_ok L" and "strict_prefix p (varint_bytes L n)"
  shows "decode_head L p = Ret (Ok None, p)"
proof -
  obtain m r where "vi_read L p = (Err (Io m), r)"
    using vi_read_part [OF net_okD(1) [OF assms(1)] assms(2)] by blast
  then show ?thesis by (simp add: decode_head_def)
qed

lemma decode_head_bytes:
  assumes "net_ok L"
  shows "decode_head L (varint_bytes L n @ rest) =
    (if can_reserve L (length rest) (unat (i32_as_usize (usize_as_i32 n)))
     then Ret (Ok (Some (i32_as_usize (usize_as_i32 n))), rest) else Panic)"
proof -
  note wr = net_okD(1) [OF assms]
  have "varint_bytes L n \<noteq> []"
    using varint_bytes_len(1) [OF assms, of n] by auto
  then show ?thesis
    by (simp add: decode_head_def vi_read_bytes [OF wr] slice_from_def unat_vi_len_from [OF wr]
        vi_val_from [OF wr] Let_def)
qed

lemma decode_head_frame:
  assumes "net_ok L" and "n < 2 ^ 31" and "length rest \<le> decode_limit"
  shows "decode_head L (varint_bytes L (of_nat n) @ rest) = Ret (Ok (Some (of_nat n)), rest)"
proof -
  have "can_reserve L (length rest) n"
    using assms by (intro can_reserveI net_okD) (auto simp: decode_limit_def isize_max_def)
  with assms(1,2) show ?thesis
    by (simp add: decode_head_bytes length_roundtrip unat_usize_of_nat)
qed

lemma decode_body_frame:
  assumes "net_ok L" and "fits_frame L p"
  shows "decode_body L (of_nat (length (packet_data L p))) (packet_data L p @ rest) =
    Ret (Ok (Some p), rest)"
proof -
  note wr = net_okD(1) [OF assms(1)]
  let ?i = "i32_as_usize (rp_id p)" and ?n = "of_nat (length (packet_data L p)) :: usize"
  have n: "unat ?n = length (packet_data L p)"
    using assms(2) by (simp add: fits_frame_def unat_usize_of_nat)
  have le: "vi_len (vi_from L ?i) \<le> ?n"
    unfolding word_le_nat_alt n unat_vi_len_from [OF wr] by (simp add: packet_data_def)
  then have k: "unat (?n - vi_len (vi_from L ?i)) = length (rp_payload p)"
    unfolding unat_usize_sub [OF le] n unat_vi_len_from [OF wr] by (simp add: packet_data_def)
  have "vi_read L (packet_data L p @ rest) = (Ok (vi_from L ?i), rp_payload p @ rest)"
    by (simp add: packet_data_def vi_read_bytes [OF wr])
  with le k n show ?thesis
    by (simp add: decode_body_def usize_sub_def slice_to_def vi_val_from [OF wr])
qed

lemma decode_data_frame:
  assumes "net_ok L" and "fits_frame L p" and "length rest \<le> decode_limit"
  shows "decode_data L (of_nat (length (packet_data L p))) (packet_data L p @ rest) =
    Ret (Ok (Some p), MCCodec_new, rest)"
proof -
  have "can_reserve L (length rest) 1"
    using assms(1,3) by (intro can_reserveI net_okD) (auto simp: decode_limit_def isize_max_def)
  with assms(1,2) show ?thesis
    by (simp add: decode_data_def decode_body_frame MCCodec_new_def)
qed

lemma decode_frame:
  assumes "net_ok L" and "fits_frame L p" and "length (frame_bytes L p @ rest) \<le> decode_limit"
  shows "decode L MCCodec_new (frame_bytes L p @ rest) = Ret (Ok (Some p), MCCodec_new, rest)"
proof -
  have "decode_head L (frame_bytes L p @ rest) =
      Ret (Ok (Some (of_nat (length (packet_data L p)))), packet_data L p @ rest)"
    using assms by (simp add: frame_bytes_def fits_frame_def decode_head_frame)
  then show ?thesis
    using assms by (simp add: decode_def frame_bytes_def decode_data_frame)
qed

lemma decode_data_short:
  "length src < unat n \<Longrightarrow> decode_data L n src = Ret (Ok None, \<lparr>mc_state = Data n\<rparr>, src)"
  by (simp add: decode_data_def decode_body_def)

lemma decode_short_frame:
  assumes "net_ok L" and "fits_frame L p" and "length (frame_bytes L p) \<le> decode_limit"
    and "strict_prefix b (frame_bytes L p)"
  shows "\<exists>c b'. decode L MCCodec_new b = Ret (Ok None, c, b')"
proof -
  let ?n = "length (packet_data L p)"
  have n: "unat (of_nat ?n :: usize) = ?n" and n31: "?n < 2 ^ 31"
    using assms(2) by (simp_all add: fits_frame_def unat_usize_of_nat)
  show ?thesis
  proof (cases "prefix (varint_bytes L (of_nat ?n)) b")
    case True
    then obtain q where b: "b = varint_bytes L (of_nat ?n) @ q" by (auto simp: prefix_def)
    with assms(4) have q: "length q < ?n"
      unfolding frame_bytes_def
      by (metis length_append nat_add_left_cancel_less prefix_length_less)
    have "decode_head L b = Ret (Ok (Some (of_nat ?n)), q)"
      unfolding b using assms(1,3) n31 q
      by (intro decode_head_frame) (auto simp: frame_bytes_def)
    then show ?thesis
      using q n by (simp add: decode_def decode_data_short)
  next
    case False
    have "prefix b (frame_bytes L p)" using assms(4) by (simp add: strict_prefix_def)
    then have "prefix b (varint_bytes L (of_nat ?n))"
      using False unfolding frame_bytes_def prefix_append by (auto simp: prefix_def)
    with False have "strict_prefix b (varint_bytes L (of_nat ?n))"
      by (auto simp: strict_prefix_def)
    with assms(1) show ?thesis
      by (simp add: decode_def decode_head_part)
  qed
qed


section \<open>Waiting for more bytes\<close>

lemma decode_head_wait: "decode_head L src = Ret (Ok None, src1) \<Longrightarrow> src1 = src"
  by (auto simp: decode_head_def slice_from_def Let_def
      split: if_splits result.splits NetTypesError.splits)

lemma decode_head_SomeD:
  assumes "net_ok L" and "decode_head L src = Ret (Ok (Some n), src1)"
  shows "unat n < 2 ^ 31" and "length src1 < length src"
    and "length (src @ zs) \<le> decode_limit \<Longrightarrow> decode_head L (src @ zs) = Ret (Ok (Some n), src1 @ zs)"
proof -
  from assms(2) obtain v where ne: "src \<noteq> []" and rd: "fst (vi_read L src) = Ok v"
    and src1: "src1 = drop (unat (vi_len v)) src" and n: "n = i32_as_usize (vi_val v)"
    and can: "can_reserve L (length src1) (unat n)"
    by (auto simp: decode_head_def slice_from_def Let_def
        split: if_splits result.splits NetTypesError.splits)
  from rd obtain r where rd': "vi_read L src = (Ok v, r)" by (cases "vi_read L src") auto
  note v = varint_readsD [OF net_okD(2) [OF assms(1)] rd']
  from can have "unat n \<le> isize_max"
    using net_okD(3) [OF assms(1)] by (meson not_can_reserveI not_le)
  then show n31: "unat n < 2 ^ 31" unfolding n by (rule i32_as_usize_small)
  show "length src1 < length src" using v(1,3) src1 by simp
  show "decode_head L (src @ zs) = Ret (Ok (Some n), src1 @ zs)"
    if "length (src @ zs) \<le> decode_limit"
  proof -
    have "can_reserve L (length (src1 @ zs)) (unat n)"
      using that n31 src1 v(3) net_okD(3) [OF assms(1)]
      by (intro can_reserveI) (auto simp: decode_limit_def isize_max_def)
    with v(3,5) show ?thesis using ne
      by (simp add: decode_head_def slice_from_def Let_def src1 n)
  qed
qed

lemma decode_body_Ret_iff:
  "decode_body L n src = Ret (res, src1) \<longleftrightarrow>
     (if length src < unat n then res = Ok None \<and> src1 = src
      else (\<exists>e. vi_read L src = (Err e, src1) \<and> res = Err e) \<or>
        (\<exists>v r. vi_read L src = (Ok v, r) \<and> vi_len v \<le> n \<and> unat (n - vi_len v) \<le> length r \<and>
           res = Ok (Some \<lparr>rp_id = vi_val v, rp_payload = take (unat (n - vi_len v)) r\<rparr>) \<and>
           src1 = drop (unat (n - vi_len v)) r))"
proof (cases "vi_read L src")
  case (Pair o1 r)
  then show ?thesis by (cases o1) (auto simp: decode_body_def run_simps)
qed

lemma decode_data_Ret_iff:
  "decode_data L n src = Ret (res, c, src1) \<longleftrightarrow>
     decode_body L n src = Ret (res, src1) \<and>
     (case res of Ok (Some p) \<Rightarrow> can_reserve L (length src1) 1 \<and> c = MCCodec_new
      | _ \<Rightarrow> c = \<lparr>mc_state = Data n\<rparr>)"
proof (cases "decode_body L n src")
  case (Ret r)
  obtain o1 b where r: "r = (o1, b)" by (cases r)
  show ?thesis
  proof (cases o1)
    case (Ok o2)
    with Ret r show ?thesis by (cases o2) (auto simp: decode_data_def MCCodec_new_def)
  qed (use Ret r in \<open>auto simp: decode_data_def\<close>)
qed (simp add: decode_data_def)

lemma decode_data_wait:
  "decode_data L n src = Ret (Ok None, c, src1) \<longleftrightarrow>
     length src < unat n \<and> c = \<lparr>mc_state = Data n\<rparr> \<and> src1 = src"
  by (auto simp: decode_data_Ret_iff decode_body_Ret_iff split: if_splits)

lemma decode_Ret_iff:
  "decode L c src = Ret (res, c1, src1) \<longleftrightarrow>
     (case mc_state c of
        Data n \<Rightarrow> decode_data L n src = Ret (res, c1, src1)
      | Len \<Rightarrow>
          (\<exists>n b. decode_head L src = Ret (Ok (Some n), b) \<and> decode_data L n b = Ret (res, c1, src1)) \<or>
          (decode_head L src = Ret (Ok None, src1) \<and> res = Ok None \<and> c1 = c) \<or>
          (\<exists>e. decode_head L src = Ret (Err e, src1) \<and> res = Err e \<and> c1 = c))"
proof (cases "decode_head L src")
  case (Ret r)
  obtain o1 b where r: "r = (o1, b)" by (cases r)
  show ?thesis
  proof (cases o1)
    case (Ok o2)
    with Ret r show ?thesis
      by (cases o2) (auto simp: decode_def split: DecodeState.split)
  qed (use Ret r in \<open>auto simp: decode_def split: DecodeState.split\<close>)
qed (simp add: decode_def split: DecodeState.split)

text \<open>
  When the decoder asks for more, calling it again with more bytes appended is the same as having
  had all the bytes at the first call.
\<close>

lemma decode_resume:
  assumes "net_ok L" and "decode L c src = Ret (Ok None, c1, src1)"
    and "length (src @ zs) \<le> decode_limit"
  shows "decode L c1 (src1 @ zs) = decode L c (src @ zs)"
proof (cases "mc_state c")
  case (Data n)
  with assms(2) show ?thesis by (auto simp: decode_def decode_data_wait)
next
  case Len
  with assms(2) consider
      (wait) "decode_head L src = Ret (Ok None, src1)" "c1 = c"
    | (body) n b where "decode_head L src = Ret (Ok (Some n), b)"
        "decode_data L n b = Ret (Ok None, c1, src1)"
    by (auto simp: decode_Ret_iff)
  then show ?thesis
  proof cases
    case wait
    then show ?thesis by (auto dest: decode_head_wait)
  next
    case body
    then have "decode_head L (src @ zs) = Ret (Ok (Some n), b @ zs)"
      using decode_head_SomeD(3) [OF assms(1)] assms(3) by blast
    with Len body show ?thesis by (simp add: decode_def decode_data_wait)
  qed
qed

interpretation mc: framing decode frame_bytes "\<lambda>L p. p" fits_frame net_ok MCCodec_new decode_limit
proof
  fix L f rest
  assume "net_ok L" and "fits_frame L f" and "length (frame_bytes L f @ rest) \<le> decode_limit"
  then show "decode L MCCodec_new (frame_bytes L f @ rest) = Ret (Ok (Some f), MCCodec_new, rest)"
    by (rule decode_frame)
next
  fix L f p
  assume "net_ok L" and "fits_frame L f" and "length (frame_bytes L f) \<le> decode_limit"
    and "strict_prefix p (frame_bytes L f)"
  then show "\<exists>s b. decode L MCCodec_new p = Ret (Ok None, s, b)"
    by (rule decode_short_frame)
next
  fix L s b s' b' zs
  assume "net_ok L" and "decode L s b = Ret (Ok None, s', b')" and "length (b @ zs) \<le> decode_limit"
  then show "decode L s' (b' @ zs) = decode L s (b @ zs)"
    by (rule decode_resume)
next
  fix L
  show "decode L MCCodec_new [] = Ret (Ok None, MCCodec_new, [])"
    by (simp add: decode_def)
qed

end
