(* ===== verification/Mc_Socket.thy ===== *)
theory Mc_Socket
  imports Prelude
begin

text \<open>
  The socket that turns from clear text to AES/CFB8, \<open>proxy/src/client_actor/mc_socket.rs\<close>.
  The ciphers of the crates \<open>aes\<close> and \<open>cfb8\<close> (whose block is one byte) and the stream the socket
  wraps are parameters: \<open>cipher_lib\<close> and \<open>io_lib\<close>.
\<close>

section \<open>Library functions\<close>

text \<open>
  \<open>new_dec\<close> and \<open>new_enc\<close> are \<open>new_from_slices(key, iv)\<close>, \<open>dec_byte\<close> and \<open>enc_byte\<close> the
  processing of one block, which advances the cipher.
\<close>

record ('d, 'e) cipher_lib =
  new_dec :: "bytes \<Rightarrow> bytes \<Rightarrow> 'd option"
  new_enc :: "bytes \<Rightarrow> bytes \<Rightarrow> 'e option"
  dec_byte :: "'d \<Rightarrow> u8 \<Rightarrow> u8 \<times> 'd"
  enc_byte :: "'e \<Rightarrow> u8 \<Rightarrow> u8 \<times> 'e"

text \<open>A \<open>ReadBuf\<close> is the bytes filled in so far and the room left.\<close>

record ReadBuf =
  filled :: bytes
  room :: nat

record ('t, 'x) io_lib =
  io_read :: "'t \<Rightarrow> ReadBuf \<Rightarrow> (unit, 'x) result poll \<times> 't \<times> ReadBuf"
  io_write :: "'t \<Rightarrow> bytes \<Rightarrow> (nat, 'x) result poll \<times> 't"
  io_flush :: "'t \<Rightarrow> (unit, 'x) result poll \<times> 't"
  io_shutdown :: "'t \<Rightarrow> (unit, 'x) result poll \<times> 't"

section \<open>The socket\<close>

datatype ('t, 'd, 'e) MCSocket =
    Cleartext (sock_stream: 't)
  | Encrypted (sock_stream: 't) (decryptor: 'd) (encryptor: 'e) (pending_bytes: "bytes option")

definition MCSocket_new :: "'t \<Rightarrow> ('t, 'd, 'e) MCSocket" where
  "MCSocket_new stream = Cleartext stream"

definition prepare_encryption :: "('d, 'e) cipher_lib \<Rightarrow> bytes \<Rightarrow> ('d \<times> 'e, string) result" where
  "prepare_encryption C key =
     (case new_dec C key key of
        None \<Rightarrow> Err ''Invalid key''
      | Some decrypt \<Rightarrow>
         (case new_enc C key key of
            None \<Rightarrow> Err ''Invalid key''
          | Some encrypt \<Rightarrow> Ok (decrypt, encrypt)))"

fun encrypt :: "('t, 'd, 'e) MCSocket \<Rightarrow> 'd \<times> 'e \<Rightarrow> ('t, 'd, 'e) MCSocket \<times> (unit, string) result" where
  "encrypt (Cleartext stream) (dc, ec) = (Encrypted stream dc ec None, Ok ())"
| "encrypt (Encrypted stream dc ec p) crypto =
     (Encrypted stream dc ec p, Err ''Socket is already encrypted'')"

text \<open>The loops over one-byte blocks: the output bytes and the cipher after the last of them.\<close>

fun cipher_bytes :: "('k \<Rightarrow> u8 \<Rightarrow> u8 \<times> 'k) \<Rightarrow> 'k \<Rightarrow> bytes \<Rightarrow> bytes \<times> 'k" where
  "cipher_bytes step k [] = ([], k)"
| "cipher_bytes step k (b # bs) =
     (let (c, k1) = step k b; (cs, k2) = cipher_bytes step k1 bs in (c # cs, k2))"

text \<open>
  Reading. The wrapped stream fills the buffer; what it added, when it completed without an error,
  is decrypted in place.
\<close>

definition poll_read :: "('d, 'e) cipher_lib \<Rightarrow> ('t, 'x) io_lib \<Rightarrow> ('t, 'd, 'e) MCSocket \<Rightarrow> ReadBuf \<Rightarrow>
    ((unit, 'x) result poll \<times> ('t, 'd, 'e) MCSocket \<times> ReadBuf) run" where
  "poll_read C IO sock buf =
     (case sock of
        Cleartext stream \<Rightarrow>
          (let (p, stream1, buf1) = io_read IO stream buf in Ret (p, Cleartext stream1, buf1))
      | Encrypted stream dc ec pend \<Rightarrow>
          (let original_len = length (filled buf);
               (p, stream1, buf1) = io_read IO stream buf in
           case p of
             Ready (Ok _) \<Rightarrow>
               bind_run (slice_from (filled buf1) original_len) (\<lambda>blocks.
                 let (plain, dc1) = cipher_bytes (dec_byte C) dc blocks in
                 Ret (p, Encrypted stream1 dc1 ec pend,
                      buf1\<lparr>filled := take original_len (filled buf1) @ plain\<rparr>))
           | _ \<Rightarrow> Ret (p, Encrypted stream1 dc ec pend, buf1)))"

text \<open>
  Writing. The bytes left over from an earlier call are already encrypted: they stand for the first
  bytes of the buffer, and only the rest of it is encrypted now. What the wrapped stream does not
  take is kept for the next call; an error drops it. The difference \<open>buf.len() - len\<close> and the slice
  \<open>buf[already_encrypted..]\<close> panic when the buffer is shorter than the bytes left over.
\<close>

definition poll_write :: "('d, 'e) cipher_lib \<Rightarrow> ('t, 'x) io_lib \<Rightarrow> ('t, 'd, 'e) MCSocket \<Rightarrow> bytes \<Rightarrow>
    ((nat, 'x) result poll \<times> ('t, 'd, 'e) MCSocket) run" where
  "poll_write C IO sock buf =
     (case sock of
        Cleartext stream \<Rightarrow>
          (let (p, stream1) = io_write IO stream buf in Ret (p, Cleartext stream1))
      | Encrypted stream dc ec pend \<Rightarrow>
          (let (out0, already_encrypted) =
             (case pend of Some remaining \<Rightarrow> (remaining, length remaining) | None \<Rightarrow> ([], 0)) in
           bind_run (slice_from buf already_encrypted) (\<lambda>blocks.
             let (cs, ec1) = cipher_bytes (enc_byte C) ec blocks;
                 out = out0 @ cs;
                 (p, stream1) = io_write IO stream out in
             case p of
               Pending \<Rightarrow> Ret (Pending, Encrypted stream1 dc ec1 (Some out))
             | Ready (Ok written) \<Rightarrow>
                 (if written < length out
                  then bind_run (slice_from out written) (\<lambda>rest.
                    Ret (Ready (Ok written), Encrypted stream1 dc ec1 (Some rest)))
                  else Ret (Ready (Ok written), Encrypted stream1 dc ec1 None))
             | Ready (Err err) \<Rightarrow> Ret (Ready (Err err), Encrypted stream1 dc ec1 None))))"

fun poll_flush :: "('t, 'x) io_lib \<Rightarrow> ('t, 'd, 'e) MCSocket \<Rightarrow>
    (unit, 'x) result poll \<times> ('t, 'd, 'e) MCSocket" where
  "poll_flush IO (Cleartext stream) =
     (let (p, stream1) = io_flush IO stream in (p, Cleartext stream1))"
| "poll_flush IO (Encrypted stream dc ec pend) =
     (let (p, stream1) = io_flush IO stream in (p, Encrypted stream1 dc ec pend))"

fun poll_shutdown :: "('t, 'x) io_lib \<Rightarrow> ('t, 'd, 'e) MCSocket \<Rightarrow>
    (unit, 'x) result poll \<times> ('t, 'd, 'e) MCSocket" where
  "poll_shutdown IO (Cleartext stream) =
     (let (p, stream1) = io_shutdown IO stream in (p, Cleartext stream1))"
| "poll_shutdown IO (Encrypted stream dc ec pend) =
     (let (p, stream1) = io_shutdown IO stream in (p, Encrypted stream1 dc ec pend))"

section \<open>What the libraries promise\<close>

text \<open>
  \<open>AsyncWrite\<close>: of a completed write the stream has taken the first bytes of the buffer, as many as
  it says; a pending or failed one has taken nothing. \<open>wrote\<close> is what a stream has taken so far.
\<close>

definition writes_ok :: "('t, 'x) io_lib \<Rightarrow> ('t \<Rightarrow> bytes) \<Rightarrow> bool" where
  "writes_ok IO wrote \<longleftrightarrow> (\<forall>t buf p t1. io_write IO t buf = (p, t1) \<longrightarrow>
     (case p of
        Ready (Ok n) \<Rightarrow> n \<le> length buf \<and> wrote t1 = wrote t @ take n buf
      | _ \<Rightarrow> wrote t1 = wrote t))"

text \<open>
  \<open>AsyncRead\<close>: a completed read appends to the filled part; \<open>got\<close> is what a stream has handed out
  so far. A pending or failed read leaves both.
\<close>

definition reads_ok :: "('t, 'x) io_lib \<Rightarrow> ('t \<Rightarrow> bytes) \<Rightarrow> bool" where
  "reads_ok IO got \<longleftrightarrow> (\<forall>t buf p t1 buf1. io_read IO t buf = (p, t1, buf1) \<longrightarrow>
     (case p of
        Ready (Ok _) \<Rightarrow> (\<exists>new. filled buf1 = filled buf @ new \<and> got t1 = got t @ new)
      | _ \<Rightarrow> filled buf1 = filled buf \<and> got t1 = got t))"

text \<open>
  CFB8: a decryptor that is in step with an encryptor gives back the byte that was encrypted, and
  the two stay in step; made with the same 16-byte key and initial vector they are in step.
\<close>

definition ciphers_ok :: "('d, 'e) cipher_lib \<Rightarrow> ('d \<Rightarrow> 'e \<Rightarrow> bool) \<Rightarrow> bool" where
  "ciphers_ok C in_step \<longleftrightarrow>
     (\<forall>d e b. in_step d e \<longrightarrow> fst (dec_byte C d (fst (enc_byte C e b))) = b \<and>
        in_step (snd (dec_byte C d (fst (enc_byte C e b)))) (snd (enc_byte C e b))) \<and>
     (\<forall>key iv. length key = 16 \<longrightarrow> length iv = 16 \<longrightarrow>
        (\<exists>d e. new_dec C key iv = Some d \<and> new_enc C key iv = Some e \<and> in_step d e))"

section \<open>Cipher loops\<close>

lemma cipher_bytes_Cons:
  "cipher_bytes step k (b # bs) =
     (fst (step k b) # fst (cipher_bytes step (snd (step k b)) bs),
      snd (cipher_bytes step (snd (step k b)) bs))"
  by (simp add: Let_def split: prod.split)

declare cipher_bytes.simps(2) [simp del] cipher_bytes_Cons [simp]

lemma length_cipher_bytes [simp]: "length (fst (cipher_bytes step k bs)) = length bs"
  by (induction bs arbitrary: k) auto

lemma cipher_bytes_append:
  "cipher_bytes step k (xs @ ys) =
     (fst (cipher_bytes step k xs) @ fst (cipher_bytes step (snd (cipher_bytes step k xs)) ys),
      snd (cipher_bytes step (snd (cipher_bytes step k xs)) ys))"
  by (induction xs arbitrary: k) auto

lemma cipher_bytes_inverse:
  assumes "ciphers_ok C in_step" and "in_step d e"
  shows "fst (cipher_bytes (dec_byte C) d (fst (cipher_bytes (enc_byte C) e bs))) = bs"
  using assms(2)
proof (induction bs arbitrary: d e)
  case (Cons b bs)
  with assms(1) have "fst (dec_byte C d (fst (enc_byte C e b))) = b"
    and "in_step (snd (dec_byte C d (fst (enc_byte C e b)))) (snd (enc_byte C e b))"
    unfolding ciphers_ok_def by blast+
  with Cons.IH show ?case by simp
qed simp

section \<open>Writing through the socket\<close>

text \<open>
  How a sink drives the socket (\<open>tokio_util::codec::Framed\<close>): the program appends bytes to the
  unsent buffer \<open>u\<close>; a poll that is ready removes as many bytes from its front as were written; a
  pending one is repeated later with the same bytes in front, possibly with more behind them.
  \<open>ps\<close> is everything the program has handed over since the start.
\<close>

inductive sink_run :: "('d, 'e) cipher_lib \<Rightarrow> ('t, 'x) io_lib \<Rightarrow> ('t, 'd, 'e) MCSocket \<Rightarrow>
    ('t, 'd, 'e) MCSocket \<Rightarrow> bytes \<Rightarrow> bytes \<Rightarrow> bool"
  for C IO s0 where
  sink_start: "sink_run C IO s0 s0 [] []"
| sink_append: "sink_run C IO s0 s ps u \<Longrightarrow> sink_run C IO s0 s (ps @ xs) (u @ xs)"
| sink_ready: "sink_run C IO s0 s ps u \<Longrightarrow> poll_write C IO s u = Ret (Ready (Ok n), s') \<Longrightarrow>
    sink_run C IO s0 s' ps (drop n u)"
| sink_pending: "sink_run C IO s0 s ps u \<Longrightarrow> poll_write C IO s u = Ret (Pending, s') \<Longrightarrow>
    sink_run C IO s0 s' ps u"

text \<open>
  The invariant of an encrypted socket: with \<open>ps\<close> handed over and \<open>u\<close> unsent, the encryptor has
  processed the sent bytes and those left over, the wrapped stream has taken the ciphertext of the
  sent ones, and the bytes left over are the ciphertext of the first unsent ones.
\<close>

definition leftover :: "bytes option \<Rightarrow> bytes" where
  "leftover p = (case p of None \<Rightarrow> [] | Some bs \<Rightarrow> bs)"

lemma leftover_simps [simp]: "leftover None = []" "leftover (Some bs) = bs"
  by (simp_all add: leftover_def)

definition sink_inv :: "('d, 'e) cipher_lib \<Rightarrow> ('t \<Rightarrow> bytes) \<Rightarrow> bytes \<Rightarrow> 'e \<Rightarrow> ('t, 'd, 'e) MCSocket \<Rightarrow>
    bytes \<Rightarrow> bytes \<Rightarrow> bool" where
  "sink_inv C wrote w0 e0 s ps u \<longleftrightarrow>
     (\<exists>t d e pend sent k rest w.
        s = Encrypted t d e pend \<and> ps = sent @ k @ rest \<and> u = k @ rest \<and>
        wrote t = w0 @ w \<and> length w = length sent \<and> length (leftover pend) = length k \<and>
        cipher_bytes (enc_byte C) e0 (sent @ k) = (w @ leftover pend, e))"

lemma writes_okD:
  assumes "writes_ok IO wrote" and "io_write IO t buf = (p, t1)"
  shows "case p of Ready (Ok n) \<Rightarrow> n \<le> length buf \<and> wrote t1 = wrote t @ take n buf
    | _ \<Rightarrow> wrote t1 = wrote t"
  using assms unfolding writes_ok_def by blast

text \<open>What one poll of an encrypted socket does, in terms of the plain inner write.\<close>

lemma poll_write_encrypted:
  assumes "length (leftover pend) \<le> length buf"
    and "cipher_bytes (enc_byte C) e (drop (length (leftover pend)) buf) = (cs, e1)"
    and "io_write IO t (leftover pend @ cs) = (p, t1)"
  shows "poll_write C IO (Encrypted t d e pend) buf =
    (case p of
       Pending \<Rightarrow> Ret (Pending, Encrypted t1 d e1 (Some (leftover pend @ cs)))
     | Ready (Ok n) \<Rightarrow> Ret (Ready (Ok n), Encrypted t1 d e1
         (if n < length (leftover pend @ cs) then Some (drop n (leftover pend @ cs)) else None))
     | Ready (Err x) \<Rightarrow> Ret (Ready (Err x), Encrypted t1 d e1 None))"
  using assms
  by (auto simp: poll_write_def leftover_def slice_from_def Let_def
      split: option.splits poll.splits result.splits)

lemma poll_write_too_short:
  "length buf < length (leftover pend) \<Longrightarrow> poll_write C IO (Encrypted t d e pend) buf = Panic"
  by (auto simp: poll_write_def leftover_def slice_from_def split: option.splits)

lemma sink_inv_start:
  "sink_inv C wrote (wrote t) e (Encrypted t d e None) [] []"
  by (simp add: sink_inv_def leftover_def)

lemma sink_inv_append:
  "sink_inv C wrote w0 e0 s ps u \<Longrightarrow> sink_inv C wrote w0 e0 s (ps @ xs) (u @ xs)"
  unfolding sink_inv_def by force

lemma sink_inv_poll:
  assumes "writes_ok IO wrote" and "sink_inv C wrote w0 e0 s ps u"
  shows "\<exists>p s1. poll_write C IO s u = Ret (p, s1) \<and>
    (case p of
       Pending \<Rightarrow> sink_inv C wrote w0 e0 s1 ps u
     | Ready (Ok n) \<Rightarrow> n \<le> length u \<and> sink_inv C wrote w0 e0 s1 ps (drop n u)
     | Ready (Err x) \<Rightarrow> True)"
proof -
  from assms(2) obtain t d e pend sent k rest w where
    s: "s = Encrypted t d e pend" and ps: "ps = sent @ k @ rest" and u: "u = k @ rest" and
    w: "wrote t = w0 @ w" and lw: "length w = length sent" and lk: "length (leftover pend) = length k" and
    cb: "cipher_bytes (enc_byte C) e0 (sent @ k) = (w @ leftover pend, e)"
    unfolding sink_inv_def by blast
  let ?lp = "leftover pend"
  obtain cs e1 where cs: "cipher_bytes (enc_byte C) e rest = (cs, e1)"
    by (cases "cipher_bytes (enc_byte C) e rest")
  obtain p t1 where io: "io_write IO t (?lp @ cs) = (p, t1)"
    by (cases "io_write IO t (?lp @ cs)")
  from cs have lcs: "length cs = length rest"
    using length_cipher_bytes [of "enc_byte C" e rest] by simp
  have all: "cipher_bytes (enc_byte C) e0 (sent @ u) = (w @ ?lp @ cs, e1)"
    using cipher_bytes_append [of "enc_byte C" e0 "sent @ k" rest] by (simp add: cb cs u)
  have io_law: "case p of Ready (Ok n) \<Rightarrow> n \<le> length (?lp @ cs) \<and> wrote t1 = wrote t @ take n (?lp @ cs)
      | _ \<Rightarrow> wrote t1 = wrote t"
    using assms(1) io by (rule writes_okD)
  have pw: "poll_write C IO s u =
    (case p of
       Pending \<Rightarrow> Ret (Pending, Encrypted t1 d e1 (Some (?lp @ cs)))
     | Ready (Ok n) \<Rightarrow> Ret (Ready (Ok n), Encrypted t1 d e1
         (if n < length (?lp @ cs) then Some (drop n (?lp @ cs)) else None))
     | Ready (Err x) \<Rightarrow> Ret (Ready (Err x), Encrypted t1 d e1 None))"
    unfolding s by (rule poll_write_encrypted) (simp_all add: u lk cs io)
  have keep: "sink_inv C wrote w0 e0 (Encrypted t1 d e1 pd) ps (drop n u)"
    if "leftover pd = drop n (?lp @ cs)" and "n \<le> length u"
      and "wrote t1 = w0 @ w @ take n (?lp @ cs)" for n pd
    unfolding sink_inv_def
  proof (intro exI conjI)
    have "ps = sent @ u" by (simp only: ps u)
    then show "ps = (sent @ take n u) @ drop n u @ []"
      by (simp only: append_assoc append_take_drop_id append_Nil2)
    show "length (w @ take n (?lp @ cs)) = length (sent @ take n u)"
      using that(2) by (simp add: lw lk lcs u)
    show "cipher_bytes (enc_byte C) e0 ((sent @ take n u) @ drop n u) =
        ((w @ take n (?lp @ cs)) @ leftover pd, e1)"
      using all that(1) by (simp only: append_assoc append_take_drop_id)
  qed (use that lk lcs u in auto)
  show ?thesis
  proof (cases p)
    case Pending
    then show ?thesis using pw io_law w keep [of "Some (?lp @ cs)" 0] by (simp add: leftover_def)
  next
    case (Ready r)
    show ?thesis
    proof (cases r)
      case (Ok n)
      let ?pd = "if n < length (?lp @ cs) then Some (drop n (?lp @ cs)) else None"
      have lout: "length (?lp @ cs) = length u" by (simp add: lk lcs u)
      have n: "n \<le> length (?lp @ cs)" and w1: "wrote t1 = wrote t @ take n (?lp @ cs)"
        using io_law Ready Ok by simp_all
      have "leftover ?pd = drop n (?lp @ cs)" using n by simp
      moreover have "n \<le> length u" using n lout by simp
      ultimately have "sink_inv C wrote w0 e0 (Encrypted t1 d e1 ?pd) ps (drop n u)"
        using w1 w by (intro keep) simp_all
      with \<open>n \<le> length u\<close> Ready Ok show ?thesis by (simp add: pw del: length_append drop_append)
    next
      case (Err x)
      with Ready show ?thesis by (simp add: pw)
    qed
  qed
qed

lemma sink_run_inv:
  assumes "writes_ok IO wrote" and "sink_run C IO (Encrypted t d e None) s ps u"
  shows "sink_inv C wrote (wrote t) e s ps u"
  using assms(2)
proof (induction rule: sink_run.induct)
  case sink_start
  show ?case by (rule sink_inv_start)
next
  case (sink_append s ps u xs)
  then show ?case by (intro sink_inv_append)
next
  case (sink_ready s ps u n s')
  with sink_inv_poll [OF assms(1) sink_ready.IH] show ?case by auto
next
  case (sink_pending s ps u s')
  with sink_inv_poll [OF assms(1) sink_pending.IH] show ?case by auto
qed

section \<open>Reading through the socket\<close>

text \<open>
  How a source drives the socket: successive polls, each with a buffer of its own; \<open>raw\<close> is what
  the wrapped stream handed out in the completed reads, \<open>ds\<close> what they delivered.
\<close>

inductive source_run :: "('d, 'e) cipher_lib \<Rightarrow> ('t, 'x) io_lib \<Rightarrow> ('t, 'd, 'e) MCSocket \<Rightarrow>
    ('t, 'd, 'e) MCSocket \<Rightarrow> bytes \<Rightarrow> bool"
  for C IO s0 where
  source_start: "source_run C IO s0 s0 []"
| source_ready: "source_run C IO s0 s ds \<Longrightarrow>
    poll_read C IO s buf = Ret (Ready (Ok ()), s', buf') \<Longrightarrow>
    source_run C IO s0 s' (ds @ drop (length (filled buf)) (filled buf'))"
| source_pending: "source_run C IO s0 s ds \<Longrightarrow>
    poll_read C IO s buf = Ret (Pending, s', buf') \<Longrightarrow> source_run C IO s0 s' ds"

lemma reads_okD:
  assumes "reads_ok IO got" and "io_read IO t buf = (p, t1, buf1)"
  shows "case p of Ready (Ok _) \<Rightarrow> (\<exists>new. filled buf1 = filled buf @ new \<and> got t1 = got t @ new)
    | _ \<Rightarrow> filled buf1 = filled buf \<and> got t1 = got t"
  using assms unfolding reads_ok_def by blast

text \<open>What one poll of an encrypted socket does: decrypt what the inner read added.\<close>

lemma poll_read_encrypted:
  assumes "reads_ok IO got"
  shows "\<exists>p s1 buf1. poll_read C IO (Encrypted t d e pend) buf = Ret (p, s1, buf1) \<and>
    (\<exists>t1 d1 new. s1 = Encrypted t1 d1 e pend \<and> got t1 = got t @ new \<and>
       cipher_bytes (dec_byte C) d new = (drop (length (filled buf)) (filled buf1), d1) \<and>
       filled buf1 = filled buf @ drop (length (filled buf)) (filled buf1) \<and>
       (p \<noteq> Ready (Ok ()) \<longrightarrow> new = []))"
proof -
  obtain p t1 buf1 where io: "io_read IO t buf = (p, t1, buf1)"
    by (cases "io_read IO t buf")
  note law = reads_okD [OF assms io]
  show ?thesis
  proof (cases "p = Ready (Ok ())")
    case True
    with law obtain new where new: "filled buf1 = filled buf @ new" "got t1 = got t @ new" by auto
    obtain pl d1 where pl: "cipher_bytes (dec_byte C) d new = (pl, d1)"
      by (cases "cipher_bytes (dec_byte C) d new")
    with True io new show ?thesis by (simp add: poll_read_def slice_from_def)
  next
    case False
    with law io show ?thesis by (auto simp: poll_read_def split: poll.splits result.splits)
  qed
qed

lemma source_run_inv:
  assumes "reads_ok IO got" and "source_run C IO (Encrypted t d e pend) s ds"
  shows "\<exists>t1 d1 raw. s = Encrypted t1 d1 e pend \<and> got t1 = got t @ raw \<and>
    cipher_bytes (dec_byte C) d raw = (ds, d1)"
  using assms(2)
proof (induction rule: source_run.induct)
  case source_start
  show ?case by simp
next
  case (source_ready s ds buf s' buf')
  then obtain t1 d1 raw where s: "s = Encrypted t1 d1 e pend" and got: "got t1 = got t @ raw"
    and cb: "cipher_bytes (dec_byte C) d raw = (ds, d1)" by blast
  from poll_read_encrypted [OF assms(1), of C t1 d1 e pend buf] source_ready.hyps(2) s
  obtain t2 d2 new where "s' = Encrypted t2 d2 e pend" and "got t2 = got t1 @ new"
    and "cipher_bytes (dec_byte C) d1 new = (drop (length (filled buf)) (filled buf'), d2)" by auto
  with got cb show ?case
    by (intro exI [where x = t2] exI [where x = d2] exI [where x = "raw @ new"])
      (simp add: cipher_bytes_append)
next
  case (source_pending s ds buf s' buf')
  then obtain t1 d1 raw where s: "s = Encrypted t1 d1 e pend" and got: "got t1 = got t @ raw"
    and cb: "cipher_bytes (dec_byte C) d raw = (ds, d1)" by blast
  from poll_read_encrypted [OF assms(1), of C t1 d1 e pend buf] source_pending.hyps(2) s
  show ?case using got cb by auto
qed

end
