(* ===== verification/Actor_Ref.thy ===== *)
theory Actor_Ref
  imports Prelude
begin

text \<open>
  Sending to an actor: the errors of \<open>proxy/src/err.rs\<close> and the trait \<open>ActorRef\<close> of
  \<open>proxy/src/actor_ref.rs\<close>. An operation takes the state of the world (the channels) and returns its
  result and the world after it. The trait's required methods \<open>send\<close> and \<open>try_send\<close> are arguments of
  its provided ones, \<open>ask\<close> and \<open>try_ask\<close>; the locale \<open>actor_ref\<close> states what an implementation
  promises of them.
\<close>

section \<open>Errors\<close>

text \<open>The errors of the channel library carry the message that was not sent; the proxy's do not.\<close>

datatype 'm mpsc_TrySendError = Full 'm | Closed 'm

datatype 'm mpsc_SendError = mpsc_SendError 'm

datatype TrySendError = ChannelFull | ChannelClosed

datatype SendError = SendError

fun TrySendError_from :: "'m mpsc_TrySendError \<Rightarrow> TrySendError" where
  "TrySendError_from (Full message) = ChannelFull"
| "TrySendError_from (Closed message) = ChannelClosed"

fun SendError_from :: "'m mpsc_SendError \<Rightarrow> SendError" where
  "SendError_from (mpsc_SendError message) = SendError"

section \<open>Asking\<close>

text \<open>
  \<open>channel\<close> is \<open>oneshot::channel()\<close>: a sender, a receiver, and the world with the new channel. \<open>what\<close>
  wraps the sender in a message; the receiver is returned when the message was sent.
\<close>

definition ask :: "('m \<Rightarrow> 'w \<Rightarrow> (unit, SendError) result \<times> 'w) \<Rightarrow> ('w \<Rightarrow> ('s \<times> 'r) \<times> 'w) \<Rightarrow>
    ('s \<Rightarrow> 'm) \<Rightarrow> 'w \<Rightarrow> ('r, SendError) result \<times> 'w" where
  "ask send channel what w =
     (let ((sender, recv), w1) = channel w;
          (r, w2) = send (what sender) w1
      in (case r of Ok _ \<Rightarrow> Ok recv | Err e \<Rightarrow> Err e, w2))"

definition try_ask :: "('m \<Rightarrow> 'w \<Rightarrow> (unit, TrySendError) result \<times> 'w) \<Rightarrow> ('w \<Rightarrow> ('s \<times> 'r) \<times> 'w) \<Rightarrow>
    ('s \<Rightarrow> 'm) \<Rightarrow> 'w \<Rightarrow> ('r, TrySendError) result \<times> 'w" where
  "try_ask try_send channel what w =
     (let ((sender, recv), w1) = channel w;
          (r, w2) = try_send (what sender) w1
      in case r of Err e \<Rightarrow> (Err e, w2) | Ok _ \<Rightarrow> (Ok recv, w2))"

section \<open>The contract of an actor reference\<close>

text \<open>
  \<open>inbox\<close> is what the actor's mailbox has accepted so far. A send that succeeds adds its message at
  the end, one that fails adds nothing; making a reply channel touches no mailbox.
\<close>

locale actor_ref =
  fixes send :: "'lib \<Rightarrow> 'm \<Rightarrow> 'w \<Rightarrow> (unit, SendError) result \<times> 'w"
    and try_send :: "'lib \<Rightarrow> 'm \<Rightarrow> 'w \<Rightarrow> (unit, TrySendError) result \<times> 'w"
    and channel :: "'lib \<Rightarrow> 'w \<Rightarrow> ('s \<times> 'r) \<times> 'w"
    and lib_ok :: "'lib \<Rightarrow> ('w \<Rightarrow> 'm list) \<Rightarrow> bool"
  assumes send_inbox: "lib_ok L inbox \<Longrightarrow> send L m w = (x, w1) \<Longrightarrow>
      inbox w1 = (if is_ok x then inbox w @ [m] else inbox w)"
    and try_send_inbox: "lib_ok L inbox \<Longrightarrow> try_send L m w = (y, w1) \<Longrightarrow>
      inbox w1 = (if is_ok y then inbox w @ [m] else inbox w)"
    and channel_inbox: "lib_ok L inbox \<Longrightarrow> channel L w = (sr, w1) \<Longrightarrow> inbox w1 = inbox w"
begin

text \<open>
  Asking delivers exactly one message, the one made from the sender whose receiver is returned, or
  none when it fails.
\<close>

lemma ask_delivers:
  assumes "lib_ok L inbox" and "channel L w = ((sender, recv), w1)"
    and "ask (send L) (channel L) what w = (x, w2)"
  shows "case x of Ok r \<Rightarrow> r = recv \<and> inbox w2 = inbox w @ [what sender] | Err e \<Rightarrow> inbox w2 = inbox w"
proof -
  obtain y where s: "send L (what sender) w1 = (y, w2)"
    using assms(2,3) by (auto simp: ask_def Let_def split: prod.splits)
  with assms show ?thesis
    using channel_inbox [OF assms(1,2)] send_inbox [OF assms(1) s]
    by (cases y) (auto simp: ask_def)
qed

lemma try_ask_delivers:
  assumes "lib_ok L inbox" and "channel L w = ((sender, recv), w1)"
    and "try_ask (try_send L) (channel L) what w = (x, w2)"
  shows "case x of Ok r \<Rightarrow> r = recv \<and> inbox w2 = inbox w @ [what sender] | Err e \<Rightarrow> inbox w2 = inbox w"
proof -
  obtain y where s: "try_send L (what sender) w1 = (y, w2)"
    using assms(2,3) by (auto simp: try_ask_def Let_def split: prod.splits result.splits)
  with assms show ?thesis
    using channel_inbox [OF assms(1,2)] try_send_inbox [OF assms(1) s]
    by (cases y) (auto simp: try_ask_def)
qed

end

end
