(* ===== verification/Server_Config.thy ===== *)
theory Server_Config
  imports Prelude
begin

text \<open>
  The configuration half of the SpacetimeDB module, \<open>server/src/server/config.rs\<close>,
  \<open>server/src/server/mod.rs\<close> and the lifecycle reducers of \<open>server/src/lib.rs\<close>: the types, the row
  \<open>BasicConfiguration\<close> with its default, and the reducers that write the table
  \<open>server_basic_config\<close>. The table itself, a library the module calls, is the record \<open>config_table\<close>
  with its contract \<open>config_table_ok\<close>. A reducer takes the database and returns its result and the
  database after it.
\<close>

section \<open>Types\<close>

datatype Difficulty = Peaceful | Easy | Normal | Hard

datatype PermissionLvl = Zero | One | Two | Three | Four

datatype GameMode = Survival | Creative | Adventure | Spectator

text \<open>The discriminants of \<open>PermissionLvl\<close>, and the variant that its derived \<open>Default\<close> gives.\<close>

fun permission_discriminant :: "PermissionLvl \<Rightarrow> nat" where
  "permission_discriminant Zero = 0"
| "permission_discriminant One = 1"
| "permission_discriminant Two = 2"
| "permission_discriminant Three = 3"
| "permission_discriminant Four = 4"

definition permission_default :: PermissionLvl where
  "permission_default = Zero"

instantiation PermissionLvl :: default
begin

definition default_PermissionLvl :: PermissionLvl where
  "default_PermissionLvl = permission_default"

instance ..

end

text \<open>An \<open>f32\<close> is its IEEE 754 bit pattern.\<close>

type_synonym f32 = "32 word"

record BasicConfiguration =
  cfg_id :: u8
  server_address :: string
  seed :: string
  max_players :: u32
  view_distance :: u8
  simulation_distance :: u8
  default_difficulty :: Difficulty
  op_permission_level :: PermissionLvl
  allow_nether :: bool
  hardcore :: bool
  online_mode :: bool
  encryption :: bool
  motd :: string
  tps :: f32
  default_gamemode :: GameMode
  force_gamemode :: bool
  scrub_ips :: bool
  use_favicon :: bool
  favicon_path :: string
  default_level_name :: string
  allow_chat_reports :: bool
  white_list :: bool
  enforce_whitelist :: bool

definition BasicConfiguration_default :: BasicConfiguration where
  "BasicConfiguration_default = \<lparr>
     cfg_id = 0,
     server_address = ''0.0.0.0:25565'',
     seed = '''',
     max_players = 100000,
     view_distance = 10,
     simulation_distance = 10,
     default_difficulty = Normal,
     op_permission_level = Four,
     allow_nether = True,
     hardcore = False,
     online_mode = True,
     encryption = True,
     motd = ''A blazingly fast SpaceTimeMC server!'',
     tps = 0x41A00000,
     default_gamemode = Creative,
     force_gamemode = False,
     scrub_ips = True,
     use_favicon = True,
     favicon_path = ''icon.png'',
     default_level_name = ''world'',
     allow_chat_reports = False,
     white_list = False,
     enforce_whitelist = False\<rparr>"

section \<open>The table\<close>

text \<open>
  \<open>ct_insert\<close> and \<open>ct_update\<close> (through the index of the primary key) panic when the key is taken,
  or missing; both return the stored row.
\<close>

record 'db config_table =
  ct_count :: "'db \<Rightarrow> nat"
  ct_insert :: "BasicConfiguration \<Rightarrow> 'db \<Rightarrow> (BasicConfiguration \<times> 'db) run"
  ct_find :: "u8 \<Rightarrow> 'db \<Rightarrow> BasicConfiguration option"
  ct_update :: "BasicConfiguration \<Rightarrow> 'db \<Rightarrow> (BasicConfiguration \<times> 'db) run"

text \<open>\<open>rows\<close> is the table of a database as a map from its primary key.\<close>

definition config_table_ok :: "'db config_table \<Rightarrow> ('db \<Rightarrow> u8 \<Rightarrow> BasicConfiguration option) \<Rightarrow> bool" where
  "config_table_ok T rows \<longleftrightarrow> (\<forall>db.
     (ct_count T db = 0 \<longleftrightarrow> rows db = Map.empty) \<and>
     (\<forall>i. ct_find T i db = rows db i) \<and>
     (\<forall>i r. rows db i = Some r \<longrightarrow> cfg_id r = i) \<and>
     (\<forall>r. rows db (cfg_id r) = None \<longrightarrow>
        (\<exists>db1. ct_insert T r db = Ret (r, db1) \<and> rows db1 = (rows db)(cfg_id r \<mapsto> r))) \<and>
     (\<forall>r. rows db (cfg_id r) \<noteq> None \<longrightarrow>
        (\<exists>db1. ct_update T r db = Ret (r, db1) \<and> rows db1 = (rows db)(cfg_id r \<mapsto> r))))"

section \<open>Reducers\<close>

definition server_init :: "'db config_table \<Rightarrow> 'db \<Rightarrow> 'db run" where
  "server_init T db =
     (if ct_count T db = 0
      then bind_run (ct_insert T BasicConfiguration_default db) (\<lambda>(row, db1). Ret db1)
      else Ret db)"

text \<open>The lifecycle reducers: \<open>init\<close> calls \<open>server::init\<close>, the other two only log.\<close>

definition reducer_init :: "'db config_table \<Rightarrow> 'db \<Rightarrow> 'db run" where
  "reducer_init T db = server_init T db"

definition client_connected :: "'db \<Rightarrow> 'db" where
  "client_connected db = db"

definition client_disconnected :: "'db \<Rightarrow> 'db" where
  "client_disconnected db = db"

definition update_motd :: "'db config_table \<Rightarrow> string \<Rightarrow> 'db \<Rightarrow> ((unit, string) result \<times> 'db) run" where
  "update_motd T new_motd db =
     (case ct_find T 0 db of
        Some config \<Rightarrow>
          bind_run (ct_update T (config\<lparr>motd := new_motd\<rparr>) db) (\<lambda>(row, db1). Ret (Ok (), db1))
      | None \<Rightarrow> Ret (Err ''Did not find a basic config !'', db))"

section \<open>Lemmas\<close>

lemma config_table_okD:
  assumes "config_table_ok T rows"
  shows "ct_count T db = 0 \<longleftrightarrow> rows db = Map.empty"
    and "ct_find T i db = rows db i"
    and "rows db i = Some r \<Longrightarrow> cfg_id r = i"
    and "rows db (cfg_id r) = None \<Longrightarrow>
      \<exists>db1. ct_insert T r db = Ret (r, db1) \<and> rows db1 = (rows db)(cfg_id r \<mapsto> r)"
    and "rows db (cfg_id r) \<noteq> None \<Longrightarrow>
      \<exists>db1. ct_update T r db = Ret (r, db1) \<and> rows db1 = (rows db)(cfg_id r \<mapsto> r)"
  using assms unfolding config_table_ok_def by blast+

lemma cfg_id_default [simp]: "cfg_id BasicConfiguration_default = 0"
  by (simp add: BasicConfiguration_default_def)

lemma server_init_rows:
  assumes "config_table_ok T rows"
  shows "\<exists>db1. server_init T db = Ret db1 \<and>
    rows db1 = (if rows db = Map.empty then [0 \<mapsto> BasicConfiguration_default] else rows db)"
proof (cases "rows db = Map.empty")
  case True
  then obtain db1 where "ct_insert T BasicConfiguration_default db = Ret (BasicConfiguration_default, db1)"
    and "rows db1 = (rows db)(0 \<mapsto> BasicConfiguration_default)"
    using config_table_okD(4) [OF assms, of db BasicConfiguration_default] by auto
  with True show ?thesis by (simp add: server_init_def config_table_okD(1) [OF assms])
next
  case False
  then show ?thesis by (simp add: server_init_def config_table_okD(1) [OF assms])
qed

lemma update_motd_rows:
  assumes "config_table_ok T rows"
  shows "\<exists>r db1. update_motd T m db = Ret (r, db1) \<and>
    (case rows db 0 of
       None \<Rightarrow> r = Err ''Did not find a basic config !'' \<and> db1 = db
     | Some c \<Rightarrow> r = Ok () \<and> rows db1 = (rows db)(0 \<mapsto> c\<lparr>motd := m\<rparr>))"
proof (cases "rows db 0")
  case None
  then show ?thesis by (simp add: update_motd_def config_table_okD(2) [OF assms])
next
  case (Some c)
  with config_table_okD(3) [OF assms] have c: "cfg_id (c\<lparr>motd := m\<rparr>) = 0" by auto
  with Some obtain db1 where "ct_update T (c\<lparr>motd := m\<rparr>) db = Ret (c\<lparr>motd := m\<rparr>, db1)"
    and "rows db1 = (rows db)(0 \<mapsto> c\<lparr>motd := m\<rparr>)"
    using config_table_okD(5) [OF assms, of db "c\<lparr>motd := m\<rparr>"] by auto
  with Some show ?thesis by (simp add: update_motd_def config_table_okD(2) [OF assms])
qed

end
