(* ===== verification/Task.thy ===== *)
theory Task
  imports Prelude
begin

text \<open>
  Asynchronous tasks, the shape of every \<open>async fn\<close> of the connection actors. A task runs in a
  context: the environment \<open>cx_env\<close> (the network, the channels, the clock: everything a library call
  can read or change) and the trace \<open>cx_trace\<close> of what the task has observed and done, which no
  operation reads. A task is done with a value, panics, or waits for ever at an \<open>await\<close>; the
  context at that point is part of the outcome, so a statement about outcomes covers also the tasks
  that never finish. \<open>safe\<close> is the statement that holds in every environment.
\<close>

section \<open>Tasks\<close>

text \<open>
  A panic comes from inside a call that the environment answers, or from the place of the source that the
  string names. Calls of the first kind are those of libraries, and those of a framed stream, which runs
  the codec of the repository inside: what panics there is told by the theories of the codec.
\<close>

datatype panic = Panic_in_library | Panic_at string

datatype ('a, 'w) outcome = Done 'a 'w | Panicked panic 'w | Waiting 'w

record ('c, 'w) ctx =
  cx_env :: 'w
  cx_trace :: "'c list"

type_synonym ('a, 'c, 'w) task = "('c, 'w) ctx \<Rightarrow> ('a, ('c, 'w) ctx) outcome"

fun after :: "('a, 'w) outcome \<Rightarrow> ('a \<Rightarrow> 'w \<Rightarrow> ('b, 'w) outcome) \<Rightarrow> ('b, 'w) outcome" where
  "after (Done x w) f = f x w"
| "after (Panicked p w) f = Panicked p w"
| "after (Waiting w) f = Waiting w"

definition ret :: "'a \<Rightarrow> ('a, 'c, 'w) task" where
  "ret x c = Done x c"

definition bind_task :: "('a, 'c, 'w) task \<Rightarrow> ('a \<Rightarrow> ('b, 'c, 'w) task) \<Rightarrow> ('b, 'c, 'w) task" where
  "bind_task m f c = after (m c) f"

text \<open>
  \<open>perform\<close> awaits a library call, \<open>perform_now\<close> makes one that returns at once, \<open>emit\<close> extends the
  trace, \<open>lift_run\<close> runs a computation that may panic at the given place.
\<close>

definition perform :: "('w \<Rightarrow> ('a, 'w) outcome) \<Rightarrow> ('a, 'c, 'w) task" where
  "perform f c =
     (case f (cx_env c) of
        Done x w \<Rightarrow> Done x (c\<lparr>cx_env := w\<rparr>)
      | Panicked p w \<Rightarrow> Panicked Panic_in_library (c\<lparr>cx_env := w\<rparr>)
      | Waiting w \<Rightarrow> Waiting (c\<lparr>cx_env := w\<rparr>))"

definition perform_now :: "('w \<Rightarrow> 'a \<times> 'w) \<Rightarrow> ('a, 'c, 'w) task" where
  "perform_now f = perform (\<lambda>w. Done (fst (f w)) (snd (f w)))"

definition emit :: "'c \<Rightarrow> (unit, 'c, 'w) task" where
  "emit e c = Done () (c\<lparr>cx_trace := cx_trace c @ [e]\<rparr>)"

definition lift_run :: "string \<Rightarrow> 'a run \<Rightarrow> ('a, 'c, 'w) task" where
  "lift_run place m c = (case m of Ret x \<Rightarrow> Done x c | Panic \<Rightarrow> Panicked (Panic_at place) c)"

text \<open>A future, and \<open>select!\<close> on it against \<open>sleep\<close> with \<open>biased\<close>: at the deadline the sleep wins.\<close>

datatype 'a future = Never | After nat 'a

fun select_sleep :: "nat \<Rightarrow> 'a future \<Rightarrow> 'a option" where
  "select_sleep ms Never = None"
| "select_sleep ms (After t x) = (if ms \<le> t then None else Some x)"

text \<open>The trace of a task up to where it ended or stopped.\<close>

fun trace_of :: "('a, ('c, 'w) ctx) outcome \<Rightarrow> 'c list" where
  "trace_of (Done x c) = cx_trace c"
| "trace_of (Panicked p c) = cx_trace c"
| "trace_of (Waiting c) = cx_trace c"

section \<open>What holds in every environment\<close>

text \<open>
  From the trace \<open>tr\<close>, in every environment: a done task has \<open>Q\<close> of its value and trace, one that
  panics \<open>P\<close> of the panic and the trace, and one that waits for ever \<open>W\<close> of the trace.
\<close>

definition safe :: "('a, 'c, 'w) task \<Rightarrow> 'c list \<Rightarrow> ('a \<Rightarrow> 'c list \<Rightarrow> bool) \<Rightarrow> (panic \<Rightarrow> 'c list \<Rightarrow> bool) \<Rightarrow>
    ('c list \<Rightarrow> bool) \<Rightarrow> bool" where
  "safe m tr Q P W \<longleftrightarrow> (\<forall>c. cx_trace c = tr \<longrightarrow>
     (case m c of
        Done x c1 \<Rightarrow> Q x (cx_trace c1)
      | Panicked p c1 \<Rightarrow> P p (cx_trace c1)
      | Waiting c1 \<Rightarrow> W (cx_trace c1)))"

named_theorems safe_rules \<open>rules for tasks, one per construct\<close>
named_theorems task_eval \<open>equations that run tasks\<close>

lemma safe_ret [safe_rules]: "Q x tr \<Longrightarrow> safe (ret x) tr Q P W"
  by (simp add: safe_def ret_def)

lemma safe_ret_iff [simp]:
  fixes Q :: "'a \<Rightarrow> 'c list \<Rightarrow> bool"
  shows "safe (ret x :: ('a, 'c, 'w) task) tr Q P W \<longleftrightarrow> Q x tr"
proof
  assume s: "safe (ret x :: ('a, 'c, 'w) task) tr Q P W"
  define c :: "('c, 'w) ctx" where "c = \<lparr>cx_env = undefined, cx_trace = tr\<rparr>"
  have "cx_trace c = tr" by (simp add: c_def)
  with s have "case ret x c of Done x c1 \<Rightarrow> Q x (cx_trace c1) | Panicked p c1 \<Rightarrow> P p (cx_trace c1)
    | Waiting c1 \<Rightarrow> W (cx_trace c1)"
    unfolding safe_def by blast
  with \<open>cx_trace c = tr\<close> show "Q x tr" by (simp add: ret_def)
qed (rule safe_ret)

lemma safe_bind [safe_rules]:
  fixes m :: "('a, 'c, 'w) task"
  shows "safe m tr (\<lambda>x tr1. safe (f x) tr1 Q P W) P W \<Longrightarrow> safe (bind_task m f) tr Q P W"
  unfolding safe_def bind_task_def
proof (intro allI impI)
  fix c :: "('c, 'w) ctx"
  assume all: "\<forall>c. cx_trace c = tr \<longrightarrow> (case m c of
      Done x c1 \<Rightarrow> \<forall>c. cx_trace c = cx_trace c1 \<longrightarrow> (case f x c of
        Done x c1 \<Rightarrow> Q x (cx_trace c1) | Panicked p c1 \<Rightarrow> P p (cx_trace c1) | Waiting c1 \<Rightarrow> W (cx_trace c1))
    | Panicked p c1 \<Rightarrow> P p (cx_trace c1) | Waiting c1 \<Rightarrow> W (cx_trace c1))"
    and c: "cx_trace c = tr"
  from all c show "case after (m c) f of Done x c1 \<Rightarrow> Q x (cx_trace c1)
    | Panicked p c1 \<Rightarrow> P p (cx_trace c1) | Waiting c1 \<Rightarrow> W (cx_trace c1)"
    by (cases "m c") auto
qed

lemma safe_perform_call:
  "(\<And>w x w1. f w = Done x w1 \<Longrightarrow> Q x tr) \<Longrightarrow> (\<And>w p w1. f w = Panicked p w1 \<Longrightarrow> P Panic_in_library tr) \<Longrightarrow>
    (\<And>w w1. f w = Waiting w1 \<Longrightarrow> W tr) \<Longrightarrow> safe (perform f) tr Q P W"
  by (auto simp: safe_def perform_def split: outcome.split)

lemma safe_perform [safe_rules]:
  "(\<And>x. Q x tr) \<Longrightarrow> P Panic_in_library tr \<Longrightarrow> W tr \<Longrightarrow> safe (perform f) tr Q P W"
  by (auto simp: safe_def perform_def split: outcome.split)

lemma safe_perform_now [safe_rules]: "(\<And>x. Q x tr) \<Longrightarrow> safe (perform_now f) tr Q P W"
  by (auto simp: safe_def perform_now_def perform_def)

lemma safe_perform_now_call: "(\<And>w. Q (fst (f w)) tr) \<Longrightarrow> safe (perform_now f) tr Q P W"
  by (auto simp: safe_def perform_now_def perform_def)

lemma safe_emit [safe_rules]: "Q () (tr @ [e]) \<Longrightarrow> safe (emit e) tr Q P W"
  by (auto simp: safe_def emit_def)

lemma safe_lift_run [safe_rules]:
  "(\<And>x. m = Ret x \<Longrightarrow> Q x tr) \<Longrightarrow> (m = Panic \<Longrightarrow> P (Panic_at place) tr) \<Longrightarrow>
    safe (lift_run place m) tr Q P W"
  by (auto simp: safe_def lift_run_def split: run.split)

text \<open>Branching on a value.\<close>

lemma safe_case_result [safe_rules]:
  "(\<And>x. r = Ok x \<Longrightarrow> safe (f x) tr Q P W) \<Longrightarrow> (\<And>e. r = Err e \<Longrightarrow> safe (g e) tr Q P W) \<Longrightarrow>
    safe (case_result f g r) tr Q P W"
  by (cases r) auto

lemma safe_case_option [safe_rules]:
  "(r = None \<Longrightarrow> safe g tr Q P W) \<Longrightarrow> (\<And>x. r = Some x \<Longrightarrow> safe (f x) tr Q P W) \<Longrightarrow>
    safe (case_option g f r) tr Q P W"
  by (cases r) auto

lemma safe_case_prod [safe_rules]:
  "(\<And>x y. r = (x, y) \<Longrightarrow> safe (f x y) tr Q P W) \<Longrightarrow> safe (case_prod f r) tr Q P W"
  by (cases r) auto

lemma safe_if [safe_rules]:
  "(b \<Longrightarrow> safe m tr Q P W) \<Longrightarrow> (\<not> b \<Longrightarrow> safe m' tr Q P W) \<Longrightarrow> safe (if b then m else m') tr Q P W"
  by auto

lemma safe_mono:
  fixes m :: "('a, 'c, 'w) task"
  assumes "safe m tr Q P W"
    and "\<And>x t. Q x t \<Longrightarrow> Q' x t" and "\<And>p t. P p t \<Longrightarrow> P' p t" and "\<And>t. W t \<Longrightarrow> W' t"
  shows "safe m tr Q' P' W'"
  unfolding safe_def
proof (intro allI impI)
  fix c :: "('c, 'w) ctx"
  assume "cx_trace c = tr"
  with assms(1) have "case m c of Done x c1 \<Rightarrow> Q x (cx_trace c1)
    | Panicked p c1 \<Rightarrow> P p (cx_trace c1) | Waiting c1 \<Rightarrow> W (cx_trace c1)"
    unfolding safe_def by blast
  with assms(2-4) show "case m c of Done x c1 \<Rightarrow> Q' x (cx_trace c1)
    | Panicked p c1 \<Rightarrow> P' p (cx_trace c1) | Waiting c1 \<Rightarrow> W' (cx_trace c1)"
    by (cases "m c") auto
qed

lemma safe_weaken:
  "safe m tr Q0 P W \<Longrightarrow> (\<And>x t. Q0 x t \<Longrightarrow> Q x t) \<Longrightarrow> (\<And>p t. P p t \<Longrightarrow> P' p t) \<Longrightarrow> safe m tr Q P' W"
  by (rule safe_mono)

lemma safe_cases:
  assumes "safe m tr Q P W" and "cx_trace c = tr"
  shows "m c = Done x c1 \<Longrightarrow> Q x (cx_trace c1)" and "m c = Panicked p c1 \<Longrightarrow> P p (cx_trace c1)"
    and "m c = Waiting c1 \<Longrightarrow> W (cx_trace c1)"
  using assms unfolding safe_def by fastforce+

lemma safe_trace:
  assumes "safe m tr (\<lambda>_. I) (\<lambda>_. I) I" and "cx_trace c = tr"
  shows "I (trace_of (m c))"
  using safe_cases [OF assms] by (cases "m c") auto

lemma ret_eval [task_eval]: "ret x c = Done x c"
  by (simp add: ret_def)

lemma bind_eval [task_eval]: "bind_task m f c = after (m c) f"
  by (simp add: bind_task_def)

lemma emit_eval [task_eval]: "emit e c = Done () (c\<lparr>cx_trace := cx_trace c @ [e]\<rparr>)"
  by (simp add: emit_def)

lemma perform_now_eval [task_eval]:
  "perform_now f c = Done (fst (f (cx_env c))) (c\<lparr>cx_env := snd (f (cx_env c))\<rparr>)"
  by (simp add: perform_now_def perform_def)

text \<open>Congruences that keep \<open>simp\<close> out of the rest of a task until it is its turn.\<close>

lemma bind_task_cong_weak: "m = m' \<Longrightarrow> bind_task m f = bind_task m' f"
  by simp

lemma after_cong_weak: "x = x' \<Longrightarrow> after x f = after x' f"
  by simp

lemmas task_congs = bind_task_cong_weak after_cong_weak

section \<open>A task does not look at its trace\<close>

text \<open>
  What a task does depends on its environment alone: run after the events \<open>tr\<close>, it does the same
  and the events stand before its own. What holds of a task from the empty trace then holds of it
  from every trace.
\<close>

definition prefixed :: "'c list \<Rightarrow> ('c, 'w) ctx \<Rightarrow> ('c, 'w) ctx" where
  "prefixed tr c = c\<lparr>cx_trace := tr @ cx_trace c\<rparr>"

definition oblivious :: "('a, 'c, 'w) task \<Rightarrow> bool" where
  "oblivious m \<longleftrightarrow> (\<forall>tr c. m (prefixed tr c) = map_outcome (\<lambda>x. x) (prefixed tr) (m c))"

named_theorems oblivious_rules \<open>tasks that do not look at their trace, one rule per construct\<close>

lemma prefixed_simps [simp]:
  "cx_env (prefixed tr c) = cx_env c" "cx_trace (prefixed tr c) = tr @ cx_trace c"
  "(prefixed tr c)\<lparr>cx_env := w\<rparr> = prefixed tr (c\<lparr>cx_env := w\<rparr>)"
  by (simp_all add: prefixed_def)

lemma oblivious_ret [oblivious_rules]: "oblivious (ret x)"
  by (simp add: oblivious_def ret_def)

lemma oblivious_bind [oblivious_rules]:
  assumes "oblivious m" and "\<And>x. oblivious (f x)"
  shows "oblivious (bind_task m f)"
  unfolding oblivious_def bind_task_def
proof (intro allI)
  fix tr c
  show "after (m (prefixed tr c)) f = map_outcome (\<lambda>x. x) (prefixed tr) (after (m c) f)"
    using assms by (cases "m c") (simp_all add: oblivious_def)
qed

lemma oblivious_perform [oblivious_rules]: "oblivious (perform f)"
  by (auto simp: oblivious_def perform_def split: outcome.split)

lemma oblivious_perform_now [oblivious_rules]: "oblivious (perform_now f)"
  by (simp add: perform_now_def oblivious_perform)

lemma oblivious_emit [oblivious_rules]: "oblivious (emit e)"
  by (simp add: oblivious_def emit_def prefixed_def)

lemma oblivious_lift_run [oblivious_rules]: "oblivious (lift_run place m)"
  by (simp add: oblivious_def lift_run_def split: run.split)

lemma oblivious_cases [oblivious_rules]:
  "(\<And>x. oblivious (f x)) \<Longrightarrow> (\<And>e. oblivious (g e)) \<Longrightarrow> oblivious (case_result f g r)"
  "oblivious h \<Longrightarrow> (\<And>x. oblivious (f x)) \<Longrightarrow> oblivious (case_option h f o1)"
  "(\<And>x y. oblivious (k x y)) \<Longrightarrow> oblivious (case_prod k p)"
  "oblivious m \<Longrightarrow> oblivious m' \<Longrightarrow> oblivious (if b then m else m')"
  by (cases r; cases o1; cases p; simp)+

lemma safe_extend:
  fixes m :: "('a, 'c, 'w) task"
  assumes "oblivious m" and "safe m [] Q P W"
    and "\<And>x u. Q x u \<Longrightarrow> Q' x (tr @ u)" and "\<And>p u. P p u \<Longrightarrow> P' p (tr @ u)" and "\<And>u. W u \<Longrightarrow> W' (tr @ u)"
  shows "safe m tr Q' P' W'"
  unfolding safe_def
proof (intro allI impI)
  fix c :: "('c, 'w) ctx"
  assume "cx_trace c = tr"
  then have c: "c = prefixed tr (c\<lparr>cx_trace := []\<rparr>)" by (simp add: prefixed_def)
  define c0 where "c0 = c\<lparr>cx_trace := []\<rparr>"
  then have "cx_trace c0 = []" by simp
  note run = safe_cases [OF assms(2) this]
  have "m c = map_outcome (\<lambda>x. x) (prefixed tr) (m c0)"
    using assms(1) c by (simp add: oblivious_def c0_def) metis
  with assms(3-5) run show "case m c of Done x c1 \<Rightarrow> Q' x (cx_trace c1)
    | Panicked p c1 \<Rightarrow> P' p (cx_trace c1) | Waiting c1 \<Rightarrow> W' (cx_trace c1)"
    by (cases "m c0") auto
qed

end
