(* ===== verification/Server_Handle.thy ===== *)
theory Server_Handle
  imports Actor_Ref Server_Config Task
begin

text \<open>
  The address of the server actor, the first part of \<open>proxy/src/server_actor/actor.rs\<close>: its messages
  and the handle \<open>Server\<close> with its implementation of \<open>ActorRef\<close>. The channels of \<open>tokio\<close> are a
  parameter, the record \<open>mpsc_lib\<close>, over a world that holds their state; the two ends of a reply
  channel are numbers. \<open>mp_send\<close> is what a send gives once it completes; \<open>mp_waits\<close> says that it never
  does, because the channel is full and nobody receives.
\<close>

section \<open>Messages\<close>

type_synonym reply_to = nat
type_synonym receiver = nat

datatype ServerMessage =
    Shutdown
  | GetStatus reply_to
  | StartListener string reply_to
  | UpdateConfig BasicConfiguration
  | CertificatePublicDer reply_to
  | Decrypt bytes reply_to

section \<open>Channels\<close>

record ('tx, 'rx, 'm, 'w) mpsc_lib =
  mp_channel :: "nat \<Rightarrow> 'w \<Rightarrow> ('tx \<times> 'rx) \<times> 'w"
  mp_send :: "'tx \<Rightarrow> 'm \<Rightarrow> 'w \<Rightarrow> (unit, 'm mpsc_SendError) result \<times> 'w"
  mp_try_send :: "'tx \<Rightarrow> 'm \<Rightarrow> 'w \<Rightarrow> (unit, 'm mpsc_TrySendError) result \<times> 'w"
  mp_waits :: "'tx \<Rightarrow> 'w \<Rightarrow> bool"
  oneshot_channel :: "'w \<Rightarrow> (reply_to \<times> receiver) \<times> 'w"

text \<open>
  What the documentation promises of the channel behind a sender, with \<open>inbox\<close> the messages it has
  accepted so far: success means the message was accepted, at the end; an error carries the message
  back and nothing was accepted; making a reply channel is no business of the mailbox.
\<close>

definition mpsc_ok :: "('tx, 'rx, 'm, 'w) mpsc_lib \<Rightarrow> 'tx \<Rightarrow> ('w \<Rightarrow> 'm list) \<Rightarrow> bool" where
  "mpsc_ok M tx inbox \<longleftrightarrow>
     (\<forall>m w x w1. mp_send M tx m w = (x, w1) \<longrightarrow>
        inbox w1 = (if is_ok x then inbox w @ [m] else inbox w)) \<and>
     (\<forall>m w x w1. mp_try_send M tx m w = (x, w1) \<longrightarrow>
        inbox w1 = (if is_ok x then inbox w @ [m] else inbox w)) \<and>
     (\<forall>w sr w1. oneshot_channel M w = (sr, w1) \<longrightarrow> inbox w1 = inbox w)"

text \<open>The places of the server's mailbox, the argument of \<open>mpsc::channel\<close> in \<open>Server::spawn\<close>.\<close>

definition mailbox_capacity :: nat where
  "mailbox_capacity = 16"

section \<open>The handle\<close>

record 'tx Server =
  srv_sender :: 'tx

definition from_address :: "'tx \<Rightarrow> 'tx Server" where
  "from_address tx = \<lparr>srv_sender = tx\<rparr>"

definition server_send :: "('tx, 'rx, 'm, 'w) mpsc_lib \<Rightarrow> 'tx Server \<Rightarrow> 'm \<Rightarrow> 'w \<Rightarrow>
    (unit, SendError) result \<times> 'w" where
  "server_send M s msg w =
     (let (r, w1) = mp_send M (srv_sender s) msg w in (map_err SendError_from r, w1))"

definition server_try_send :: "('tx, 'rx, 'm, 'w) mpsc_lib \<Rightarrow> 'tx Server \<Rightarrow> 'm \<Rightarrow> 'w \<Rightarrow>
    (unit, TrySendError) result \<times> 'w" where
  "server_try_send M s msg w =
     (let (r, w1) = mp_try_send M (srv_sender s) msg w in (map_err TrySendError_from r, w1))"

text \<open>\<open>server.ask(..)\<close> and \<open>server.try_ask(..)\<close>, the provided methods of the trait at this handle.\<close>

definition server_ask :: "('tx, 'rx, 'm, 'w) mpsc_lib \<Rightarrow> 'tx Server \<Rightarrow> (reply_to \<Rightarrow> 'm) \<Rightarrow> 'w \<Rightarrow>
    (receiver, SendError) result \<times> 'w" where
  "server_ask M s = ask (server_send M s) (oneshot_channel M)"

text \<open>Starting the listener: a failure to send panics.\<close>

definition Server_start :: "('tx, 'rx, ServerMessage, 'w) mpsc_lib \<Rightarrow> 'tx Server \<Rightarrow> string \<Rightarrow> reply_to \<Rightarrow>
    (unit, 'c, 'w) task" where
  "Server_start M s address death =
     bind_task
       (perform (\<lambda>w.
          if mp_waits M (srv_sender s) w then Waiting w
          else (let (r, w1) = server_send M s (StartListener address death) w in Done r w1)))
       (\<lambda>r. lift_run ''Server::start'' (unwrap_result r))"

section \<open>The handle is an actor reference\<close>

lemma is_ok_map_err [simp]: "is_ok (map_err f r) = is_ok r"
  by (cases r) auto

lemma server_send_inbox:
  assumes "mpsc_ok M (srv_sender s) inbox" and "server_send M s m w = (x, w1)"
  shows "inbox w1 = (if is_ok x then inbox w @ [m] else inbox w)"
proof -
  obtain y where "mp_send M (srv_sender s) m w = (y, w1)" and "x = map_err SendError_from y"
    using assms(2) by (auto simp: server_send_def Let_def split: prod.splits)
  with assms(1) show ?thesis unfolding mpsc_ok_def by auto
qed

lemma server_try_send_inbox:
  assumes "mpsc_ok M (srv_sender s) inbox" and "server_try_send M s m w = (x, w1)"
  shows "inbox w1 = (if is_ok x then inbox w @ [m] else inbox w)"
proof -
  obtain y where "mp_try_send M (srv_sender s) m w = (y, w1)" and "x = map_err TrySendError_from y"
    using assms(2) by (auto simp: server_try_send_def Let_def split: prod.splits)
  with assms(1) show ?thesis unfolding mpsc_ok_def by auto
qed

lemma oneshot_inbox:
  assumes "mpsc_ok M tx inbox" and "oneshot_channel M w = (sr, w1)"
  shows "inbox w1 = inbox w"
  using assms unfolding mpsc_ok_def by blast

interpretation srv: actor_ref
  "\<lambda>(M, s). server_send M s" "\<lambda>(M, s). server_try_send M s" "\<lambda>(M, s). oneshot_channel M"
  "\<lambda>(M, s) inbox. mpsc_ok M (srv_sender s) inbox"
proof (unfold_locales, goal_cases)
  case (1 L inbox m w x w1)
  then show ?case by (auto dest: server_send_inbox split: prod.splits)
next
  case (2 L inbox m w y w1)
  then show ?case by (auto dest: server_try_send_inbox split: prod.splits)
next
  case (3 L inbox w sr w1)
  then show ?case by (cases L) (simp, blast dest: oneshot_inbox)
qed

section \<open>A concrete channel\<close>

text \<open>
  A bounded channel in memory, for the witnesses: what it has accepted, its capacity, whether the
  receiver is closed, and the number of the next reply channel.
\<close>

record 'm chan_world =
  cw_accepted :: "'m list"
  cw_taken :: nat
  cw_capacity :: nat
  cw_closed :: bool
  cw_next :: nat

definition chan_lib :: "(unit, unit, 'm, 'm chan_world) mpsc_lib" where
  "chan_lib = \<lparr>
     mp_channel = (\<lambda>n w. (((), ()), w\<lparr>cw_capacity := n\<rparr>)),
     mp_send = (\<lambda>_ m w. if cw_closed w then (Err (mpsc_SendError m), w)
        else (Ok (), w\<lparr>cw_accepted := cw_accepted w @ [m]\<rparr>)),
     mp_try_send = (\<lambda>_ m w. if cw_closed w then (Err (Closed m), w)
        else if cw_capacity w \<le> length (cw_accepted w) - cw_taken w then (Err (Full m), w)
        else (Ok (), w\<lparr>cw_accepted := cw_accepted w @ [m]\<rparr>)),
     mp_waits = (\<lambda>_ w. False),
     oneshot_channel = (\<lambda>w. ((cw_next w, cw_next w), w\<lparr>cw_next := Suc (cw_next w)\<rparr>))\<rparr>"

lemma mpsc_ok_chan: "mpsc_ok chan_lib tx cw_accepted"
  by (auto simp: mpsc_ok_def chan_lib_def)

section \<open>Properties\<close>

text \<open>
  Asking the server puts one question in its mailbox. When the question is accepted, it is the last
  message of the mailbox, it carries the sending end of a new reply channel, and the asker holds the
  receiving end of that channel; when it is not, the mailbox is as it was.
\<close>

theorem server_ask_delivers:
  assumes "mpsc_ok M (srv_sender s) accepted" and "oneshot_channel M w = ((sender, recv), w1)"
    and "server_ask M s what w = (x, w2)"
  shows "case x of Ok r \<Rightarrow> r = recv \<and> accepted w2 = accepted w @ [what sender] | Err e \<Rightarrow> accepted w2 = accepted w"
  using srv.ask_delivers [of "(M, s)"] assms by (simp add: server_ask_def)

theorem server_ask_delivers_witness:
  "case fst (server_ask chan_lib \<lparr>srv_sender = ()\<rparr> GetStatus
       \<lparr>cw_accepted = [Shutdown], cw_taken = 0, cw_capacity = 16, cw_closed = False, cw_next = 4\<rparr>) of
     Ok r \<Rightarrow> r = 4 \<and> cw_accepted (snd (server_ask chan_lib \<lparr>srv_sender = ()\<rparr> GetStatus
       \<lparr>cw_accepted = [Shutdown], cw_taken = 0, cw_capacity = 16, cw_closed = False, cw_next = 4\<rparr>)) =
         [Shutdown, GetStatus 4]
   | Err e \<Rightarrow> False"
  using server_ask_delivers [where M = chan_lib and s = "\<lparr>srv_sender = ()\<rparr>" and accepted = cw_accepted and
      w = "\<lparr>cw_accepted = [Shutdown], cw_taken = 0, cw_capacity = 16, cw_closed = False, cw_next = 4\<rparr>" and
      sender = 4 and recv = 4 and
      ?w1.0 = "\<lparr>cw_accepted = [Shutdown], cw_taken = 0, cw_capacity = 16, cw_closed = False, cw_next = 5\<rparr>" and
      what = GetStatus and x = "Ok 4" and
      ?w2.0 = "\<lparr>cw_accepted = [Shutdown, GetStatus 4], cw_taken = 0, cw_capacity = 16, cw_closed = False, cw_next = 5\<rparr>"]
  by (simp add: mpsc_ok_chan) (simp add: chan_lib_def server_ask_def server_send_def ask_def)

end
