(* ===== verification/Stream_Actor.thy ===== *)
theory Stream_Actor
  imports Net Mc_Socket Server_Handle Task
begin

text \<open>
  The trait \<open>StreamActor\<close> of \<open>proxy/src/client_actor/stream_actor.rs\<close>: how a connection actor reads
  packets with a timeout, sends packets and closes. The trait is the record \<open>StreamActor\<close> of its one
  required method, as a getter and a setter; its provided methods are definitions over that record.
  The \<open>Framed\<close> stream of the crate \<open>tokio_util\<close> is a parameter (\<open>framed_lib\<close>).
\<close>

section \<open>Framed streams\<close>

text \<open>
  A framed stream is its parts: the socket, the codec, the bytes read and not yet decoded, the bytes
  encoded and not yet written. \<open>into_parts\<close> and \<open>from_parts\<close> take it apart and together;
  \<open>FramedParts::new\<close> and \<open>Framed::new\<close> start with empty buffers.
\<close>

record 'io Framed =
  fr_io :: 'io
  fr_codec :: MCCodec
  fr_read_buf :: bytes
  fr_write_buf :: bytes

definition FramedParts_new :: "'io \<Rightarrow> MCCodec \<Rightarrow> 'io Framed" where
  "FramedParts_new io codec = \<lparr>fr_io = io, fr_codec = codec, fr_read_buf = [], fr_write_buf = []\<rparr>"

type_synonym item = "(RawPacket, NetTypesError) result option"

text \<open>
  The framed stream itself, the code of the crate that calls the codec on what it reads and what it is
  sent, is a parameter without constraints: the properties of the actors hold for whatever packets it
  delivers. A panic of the decoder inside it (its exact condition is \<open>decode_panics_iff\<close> of the theory
  \<open>Net_Correct\<close>) is for the actors a panic inside \<open>fl_next\<close>, \<open>Panic_in_library\<close> in the outcome.

  \<open>fl_next\<close> is the future \<open>next()\<close>, with the milliseconds it takes, and \<open>fl_cancel\<close> what dropping it
  after some milliseconds leaves; \<open>fl_send\<close> sends and flushes one item; \<open>fl_shutdown\<close> is
  \<open>AsyncWriteExt::shutdown\<close> of the socket.
\<close>

record ('io, 'x, 'w) framed_lib =
  fl_next :: "'io Framed \<Rightarrow> 'w \<Rightarrow> (item \<times> 'io Framed, 'w) outcome future"
  fl_cancel :: "nat \<Rightarrow> 'io Framed \<Rightarrow> 'w \<Rightarrow> 'io Framed \<times> 'w"
  fl_send :: "bytes \<Rightarrow> 'io Framed \<Rightarrow> 'w \<Rightarrow> ((unit, NetTypesError) result \<times> 'io Framed, 'w) outcome"
  fl_shutdown :: "'io \<Rightarrow> 'w \<Rightarrow> ((unit, 'x) result \<times> 'io, 'w) outcome"

definition framed_shutdown :: "('io, 'x, 'w) framed_lib \<Rightarrow> 'io Framed \<Rightarrow> 'w \<Rightarrow>
    ((unit, 'x) result \<times> 'io Framed, 'w) outcome" where
  "framed_shutdown S fr w = after (fl_shutdown S (fr_io fr) w) (\<lambda>(r, io) w1. Done (r, fr\<lparr>fr_io := io\<rparr>) w1)"

section \<open>Packets\<close>

text \<open>
  The traits of the crate \<open>pumpkin_protocol\<close> that a packet type implements: its id with its reader,
  or its id with its writer (the bytes it puts out and its result).
\<close>

record ('p, 'x) server_packet =
  sp_id :: i32
  sp_read :: "bytes \<Rightarrow> ('p, 'x) result"

record ('p, 'x) client_packet =
  cp_id :: i32
  cp_write :: "'p \<Rightarrow> bytes \<times> (unit, 'x) result"

section \<open>What a connection actor observes and does\<close>

text \<open>A socket address and a task tracker are opaque to the code, which only passes them on.\<close>

type_synonym SocketAddr = string
type_synonym TaskTracker = nat

datatype actor_kind = Handshake_task usize SocketAddr | Status_task | Login_task | Configuration_task

text \<open>
  The trace of a connection: the packet a read gave, a frame handed to the stream together with the
  socket it goes to, a message the server's mailbox accepted (with the receiver of its reply), the
  reply an \<open>await\<close> on a receiver gave (none when the sender was dropped), a random token, the spawning
  of the next actor's task (that of a handshake with the id and the address of its actor), the end. The last three are of the listener: the address it is bound to, a
  connection accepted under an id, the signal that it has died.
\<close>

datatype 's event =
    Received "RawPacket option"
  | Sent 's bytes
  | Asked ServerMessage receiver
  | Reply_bytes receiver "bytes option"
  | Reply_string receiver "string option"
  | Drew bytes
  | Spawned TaskTracker actor_kind
  | Stream_shut 's
  | Bound string
  | Accepted usize SocketAddr
  | Death_sent reply_to

section \<open>The trait\<close>

text \<open>\<open>sa_get\<close> and \<open>sa_put\<close> are \<open>get_stream\<close>; \<open>sa_socket\<close> is how the trace shows the socket.\<close>

record ('self, 'io, 's) StreamActor =
  sa_get :: "'self \<Rightarrow> 'io Framed"
  sa_put :: "'io Framed \<Rightarrow> 'self \<Rightarrow> 'self"
  sa_socket :: "'io \<Rightarrow> 's"

definition next_frame :: "('io, 'x, 'w) framed_lib \<Rightarrow> ('self, 'io, 's) StreamActor \<Rightarrow> 'self \<Rightarrow> 'w \<Rightarrow>
    (item \<times> 'io Framed, 'w) outcome future" where
  "next_frame S A self = fl_next S (sa_get A self)"

definition next_frame_with_timeout :: "('io, 'x, 'w) framed_lib \<Rightarrow> ('self, 'io, 's) StreamActor \<Rightarrow>
    'self \<Rightarrow> (RawPacket option \<times> 'self, 's event, 'w) task" where
  "next_frame_with_timeout S A self =
     bind_task
       (perform (\<lambda>w. case select_sleep 5000 (next_frame S A self w) of
          None \<Rightarrow> (let (st, w1) = fl_cancel S 5000 (sa_get A self) w in Done (None, st) w1)
        | Some res \<Rightarrow> res))
       (\<lambda>(some, st).
         let packet = (case some of Some (Ok p) \<Rightarrow> Some p | Some (Err e) \<Rightarrow> None | None \<Rightarrow> None) in
         bind_task (emit (Received packet)) (\<lambda>_. ret (packet, sa_put A st self)))"

definition send_bytes :: "('io, 'x, 'w) framed_lib \<Rightarrow> ('self, 'io, 's) StreamActor \<Rightarrow>
    (bytes, 'e) result \<Rightarrow> i32 \<Rightarrow> 'self \<Rightarrow> (bool \<times> 'self, 's event, 'w) task" where
  "send_bytes S A maybe_bytes packet_id self =
     (case maybe_bytes of
        Ok bs \<Rightarrow>
          bind_task (emit (Sent (sa_socket A (fr_io (sa_get A self))) bs)) (\<lambda>_.
          bind_task (perform (fl_send S bs (sa_get A self))) (\<lambda>(_, st).
          ret (True, sa_put A st self)))
      | Err e \<Rightarrow> ret (False, self))"

definition send :: "('io, 'x, 'w) framed_lib \<Rightarrow> ('self, 'io, 's) StreamActor \<Rightarrow>
    ('p, 'e) client_packet \<Rightarrow> 'p \<Rightarrow> 'self \<Rightarrow> (bool \<times> 'self, 's event, 'w) task" where
  "send S A pk p self = send_bytes S A (serialize_bytes (cp_write pk) p) (cp_id pk) self"

definition read_custom :: "('io, 'x, 'w) framed_lib \<Rightarrow> ('self, 'io, 's) StreamActor \<Rightarrow> i32 \<Rightarrow>
    (bytes \<Rightarrow> ('r, 'e) result) \<Rightarrow> 'self \<Rightarrow> ('r option \<times> 'self, 's event, 'w) task" where
  "read_custom S A packet_id rd self =
     bind_task (next_frame_with_timeout S A self) (\<lambda>(some, self1).
       case some of
         Some packet \<Rightarrow>
           if rp_id packet = packet_id
           then (case rd (rp_payload packet) of
                   Ok p \<Rightarrow> ret (Some p, self1)
                 | Err e \<Rightarrow> ret (None, self1))
           else ret (None, self1)
       | None \<Rightarrow> ret (None, self1))"

definition read :: "('io, 'x, 'w) framed_lib \<Rightarrow> ('self, 'io, 's) StreamActor \<Rightarrow>
    ('p, 'e) server_packet \<Rightarrow> 'self \<Rightarrow> ('p option \<times> 'self, 's event, 'w) task" where
  "read S A pk self = read_custom S A (sp_id pk) (sp_read pk) self"

definition read_empty :: "('io, 'x, 'w) framed_lib \<Rightarrow> ('self, 'io, 's) StreamActor \<Rightarrow>
    i32 \<Rightarrow> 'self \<Rightarrow> (unit option \<times> 'self, 's event, 'w) task" where
  "read_empty S A packet_id self = read_custom S A packet_id (\<lambda>_. Ok () :: (unit, unit) result) self"

definition shutdown :: "('io, 'x, 'w) framed_lib \<Rightarrow> ('self, 'io, 's) StreamActor \<Rightarrow> 'self \<Rightarrow>
    ('self, 's event, 'w) task" where
  "shutdown S A self =
     bind_task (emit (Stream_shut (sa_socket A (fr_io (sa_get A self))))) (\<lambda>_.
     bind_task (perform (framed_shutdown S (sa_get A self))) (\<lambda>(_, st).
     ret (sa_put A st self)))"

section \<open>Asking the server and awaiting its reply\<close>

text \<open>
  \<open>server.ask(what).await\<close> as a task: it waits for ever while the mailbox is full and nobody receives.
\<close>

definition asks :: "('tx, 'rx, ServerMessage, 'w) mpsc_lib \<Rightarrow> 'tx Server \<Rightarrow> (reply_to \<Rightarrow> ServerMessage) \<Rightarrow>
    ((receiver, SendError) result, 's event, 'w) task" where
  "asks M server what =
     bind_task
       (perform (\<lambda>w.
          if mp_waits M (srv_sender server) w then Waiting w
          else (let (r, w1) = server_ask M server what w in
                Done (r, what (fst (fst (oneshot_channel M w)))) w1)))
       (\<lambda>(r, msg). case r of
           Ok rx \<Rightarrow> bind_task (emit (Asked msg rx)) (\<lambda>_. ret (Ok rx))
         | Err e \<Rightarrow> ret (Err e))"

text \<open>
  \<open>recv_bytes\<close> and \<open>recv_string\<close> are \<open>await\<close> on a \<open>oneshot::Receiver\<close>: no value when its sender was
  dropped, and no result at all while the sender neither sends nor goes. \<open>rand_token\<close> is
  \<open>rand::random()\<close> at four bytes.
\<close>

record 'w reply_lib =
  recv_bytes :: "receiver \<Rightarrow> 'w \<Rightarrow> (bytes option, 'w) outcome"
  recv_string :: "receiver \<Rightarrow> 'w \<Rightarrow> (string option, 'w) outcome"
  rand_token :: "'w \<Rightarrow> bytes \<times> 'w"

definition await_bytes :: "'w reply_lib \<Rightarrow> receiver \<Rightarrow> (bytes option, 's event, 'w) task" where
  "await_bytes Y rx = bind_task (perform (recv_bytes Y rx)) (\<lambda>r.
     bind_task (emit (Reply_bytes rx r)) (\<lambda>_. ret r))"

definition await_string :: "'w reply_lib \<Rightarrow> receiver \<Rightarrow> (string option, 's event, 'w) task" where
  "await_string Y rx = bind_task (perform (recv_string Y rx)) (\<lambda>r.
     bind_task (emit (Reply_string rx r)) (\<lambda>_. ret r))"

section \<open>The frames of a trace\<close>

fun sents :: "'s event list \<Rightarrow> ('s \<times> bytes) list" where
  "sents [] = []"
| "sents (Sent s bs # es) = (s, bs) # sents es"
| "sents (e # es) = sents es"

lemma sents_append [simp]: "sents (xs @ ys) = sents xs @ sents ys"
  by (induction xs rule: sents.induct) auto

section \<open>The libraries of a connection\<close>

text \<open>
  \<open>'t\<close> is the \<open>TcpStream\<close>; the framed streams are over it and over the socket that encrypts.
  \<open>lib_set_nodelay\<close> is its \<open>set_nodelay\<close>.
\<close>

record ('t, 'd, 'e, 'tx, 'rx, 'x, 'w) conn_lib =
  lib_tcp :: "('t, 'x, 'w) framed_lib"
  lib_mc :: "(('t, 'd, 'e) MCSocket, 'x, 'w) framed_lib"
  lib_cipher :: "('d, 'e) cipher_lib"
  lib_mpsc :: "('tx, 'rx, ServerMessage, 'w) mpsc_lib"
  lib_reply :: "'w reply_lib"
  lib_set_nodelay :: "'t \<Rightarrow> bool \<Rightarrow> 'w \<Rightarrow> (unit, 'x) result \<times> 'w"

section \<open>What the methods can come to\<close>

lemma asks_safe:
  assumes "\<And>s rx. Q (Ok rx) (tr @ [Asked (what s) rx])" and "\<And>e. Q (Err e) tr" and "W tr"
  shows "safe (asks M server what) tr Q P W"
  unfolding asks_def
  by (intro safe_bind safe_perform_call)
    (auto simp: assms Let_def split: if_splits prod.splits result.split intro!: safe_bind safe_emit safe_ret)

lemma await_bytes_safe:
  assumes "\<And>r. Q r (tr @ [Reply_bytes rx r])" and "P Panic_in_library tr" and "W tr"
  shows "safe (await_bytes Y rx) tr Q P W"
  unfolding await_bytes_def by (intro safe_rules assms)

lemma await_string_safe:
  assumes "\<And>r. Q r (tr @ [Reply_string rx r])" and "P Panic_in_library tr" and "W tr"
  shows "safe (await_string Y rx) tr Q P W"
  unfolding await_string_def by (intro safe_rules assms)

text \<open>What the reading of a packet comes to: none, another packet, or one that does not parse.\<close>

definition parsed :: "i32 \<Rightarrow> (bytes \<Rightarrow> ('r, 'e) result) \<Rightarrow> RawPacket option \<Rightarrow> 'r option" where
  "parsed packet_id rd p =
     (case p of None \<Rightarrow> None | Some r \<Rightarrow> if rp_id r = packet_id then ok (rd (rp_payload r)) else None)"

lemma ok_Some_iff [simp]: "ok r = Some x \<longleftrightarrow> r = Ok x"
  by (cases r) auto

lemma parsed_Some_iff:
  "parsed packet_id rd p = Some x \<longleftrightarrow>
     (\<exists>r. p = Some r \<and> rp_id r = packet_id \<and> rd (rp_payload r) = Ok x)"
  by (auto simp: parsed_def split: option.splits)

text \<open>
  The packet that a read started in \<open>w\<close> gets from the stream \<open>fr\<close>, and the stream it leaves: at the
  deadline none, and the stream of the read that was given up; otherwise what the stream delivered, an
  error counting as no packet.
\<close>

definition read_from :: "('io, 'x, 'w) framed_lib \<Rightarrow> 'io Framed \<Rightarrow> 'w \<Rightarrow> RawPacket option \<Rightarrow> 'io Framed \<Rightarrow> bool" where
  "read_from S fr w p fr1 \<longleftrightarrow>
     (case select_sleep 5000 (fl_next S fr w) of
        None \<Rightarrow> p = None \<and> fr1 = fst (fl_cancel S 5000 fr w)
      | Some res \<Rightarrow> (\<exists>some w1. res = Done (some, fr1) w1 \<and> p = Option.bind some ok))"

lemma next_frame_Done:
  assumes "next_frame_with_timeout S A self c = Done (p, self1) c1"
  shows "\<exists>st. self1 = sa_put A st self \<and> cx_trace c1 = cx_trace c @ [Received p] \<and>
    read_from S (sa_get A self) (cx_env c) p st"
proof (cases "select_sleep 5000 (fl_next S (sa_get A self) (cx_env c))")
  case None
  with assms show ?thesis
    by (auto simp: next_frame_with_timeout_def next_frame_def task_eval perform_def read_from_def split_def Let_def)
next
  case (Some res)
  with assms show ?thesis
    by (cases res)
      (auto simp: next_frame_with_timeout_def next_frame_def task_eval perform_def read_from_def Let_def
        split: option.splits result.splits)
qed

lemma read_Done:
  assumes "read S A pk self c = Done (x, self1) c1"
  shows "\<exists>p st. x = parsed (sp_id pk) (sp_read pk) p \<and> self1 = sa_put A st self \<and>
    cx_trace c1 = cx_trace c @ [Received p] \<and> read_from S (sa_get A self) (cx_env c) p st"
proof -
  from assms obtain p c2 where frame: "next_frame_with_timeout S A self c = Done (p, self1) c2"
    and "x = parsed (sp_id pk) (sp_read pk) p" "c1 = c2"
    by (cases "next_frame_with_timeout S A self c")
      (auto simp: read_def read_custom_def task_eval parsed_def split: option.splits result.splits if_splits)
  with next_frame_Done [OF frame] show ?thesis by blast
qed

section \<open>The methods do not look at the trace\<close>

lemma oblivious_methods [oblivious_rules]:
  "oblivious (next_frame_with_timeout S A self)" "oblivious (read_custom S A i rd self)"
  "oblivious (read S A pk self)" "oblivious (read_empty S A i self)" "oblivious (send S A ck p self)"
  "oblivious (shutdown S A self)" "oblivious (asks M server what)"
  "oblivious (await_bytes Y rx)" "oblivious (await_string Y rx)"
  unfolding next_frame_with_timeout_def read_def read_empty_def read_custom_def send_def send_bytes_def
    shutdown_def asks_def await_bytes_def await_string_def Let_def
  by (intro oblivious_rules)+

section \<open>The contract of an implementation\<close>

text \<open>
  \<open>get_stream\<close> gives access to one field: what was put is what one gets, and the last put counts. The
  rules below say of each provided method, for an actor with the stream \<open>st\<close>, what it can come to.
\<close>

locale stream_actor =
  fixes A :: "('self, 'io, 's) StreamActor"
  assumes get_put: "sa_get A (sa_put A st self) = st"
    and put_get: "sa_put A (sa_get A self) self = self"
    and put_put: "sa_put A st (sa_put A st' self) = sa_put A st self"
begin

lemma next_safe:
  assumes "\<And>p st1. Q (p, sa_put A st1 self) (tr @ [Received p])" and "P Panic_in_library tr" and "W tr"
  shows "safe (next_frame_with_timeout S A (sa_put A st self)) tr Q P W"
  unfolding next_frame_with_timeout_def Let_def
  by (intro safe_rules assms) (auto simp: put_put intro!: safe_rules assms)

lemma read_custom_safe:
  assumes "\<And>p st1. Q (parsed packet_id rd p, sa_put A st1 self) (tr @ [Received p])"
    and "P Panic_in_library tr" and "W tr"
  shows "safe (read_custom S A packet_id rd (sa_put A st self)) tr Q P W"
proof -
  have "safe (case p of Some packet \<Rightarrow>
           if rp_id packet = packet_id
           then (case rd (rp_payload packet) of
                   Ok p \<Rightarrow> ret (Some p, sa_put A st1 self)
                 | Err e \<Rightarrow> ret (None, sa_put A st1 self))
           else ret (None, sa_put A st1 self)
       | None \<Rightarrow> ret (None, sa_put A st1 self)) (tr @ [Received p]) Q P W" for p st1
    using assms(1) [of p st1] unfolding parsed_def
    by (auto split: option.splits result.splits if_splits intro!: safe_ret)
  then show ?thesis
    unfolding read_custom_def by (intro safe_bind next_safe assms(2,3)) simp
qed

lemma read_safe:
  assumes "\<And>p st1. Q (parsed (sp_id pk) (sp_read pk) p, sa_put A st1 self) (tr @ [Received p])"
    and "P Panic_in_library tr" and "W tr"
  shows "safe (read S A pk (sa_put A st self)) tr Q P W"
  unfolding read_def by (intro read_custom_safe assms)

lemma read_empty_safe:
  assumes "\<And>p st1. Q (parsed packet_id (\<lambda>_. Ok () :: (unit, unit) result) p, sa_put A st1 self)
      (tr @ [Received p])"
    and "P Panic_in_library tr" and "W tr"
  shows "safe (read_empty S A packet_id (sa_put A st self)) tr Q P W"
  unfolding read_empty_def by (intro read_custom_safe assms)

lemma send_safe:
  assumes "\<And>bs st1. serialize_bytes (cp_write pk) p = Ok bs \<Longrightarrow>
      Q (True, sa_put A st1 self) (tr @ [Sent (sa_socket A (fr_io st)) bs])"
    and "\<And>e. serialize_bytes (cp_write pk) p = Err e \<Longrightarrow> Q (False, sa_put A st self) tr"
    and "\<And>bs. serialize_bytes (cp_write pk) p = Ok bs \<Longrightarrow>
      P Panic_in_library (tr @ [Sent (sa_socket A (fr_io st)) bs])"
    and "\<And>bs. serialize_bytes (cp_write pk) p = Ok bs \<Longrightarrow> W (tr @ [Sent (sa_socket A (fr_io st)) bs])"
  shows "safe (send S A pk p (sa_put A st self)) tr Q P W"
  using assms unfolding send_def send_bytes_def
  by (cases "serialize_bytes (cp_write pk) p")
    (auto simp: get_put put_put intro!: safe_rules)

lemma shutdown_safe:
  assumes "\<And>st1. Q (sa_put A st1 self) (tr @ [Stream_shut (sa_socket A (fr_io st))])"
    and "P Panic_in_library (tr @ [Stream_shut (sa_socket A (fr_io st))])"
    and "W (tr @ [Stream_shut (sa_socket A (fr_io st))])"
  shows "safe (shutdown S A (sa_put A st self)) tr Q P W"
  unfolding shutdown_def
  by (intro safe_rules) (auto simp: get_put put_put intro!: safe_rules assms)

text \<open>The same for an actor as it is.\<close>

lemmas read_self = read_safe [where st = "sa_get A self" and self = self for self, unfolded put_get]
lemmas read_empty_self =
  read_empty_safe [where st = "sa_get A self" and self = self for self, unfolded put_get]
lemmas send_self = send_safe [where st = "sa_get A self" and self = self for self, unfolded put_get]
lemmas shutdown_self = shutdown_safe [where st = "sa_get A self" and self = self for self, unfolded put_get]

end

end
