(* ===== verification/Connection_Cache.thy ===== *)
theory Connection_Cache
  imports Server_Config
begin

text \<open>
  The cached answers of the proxy, \<open>proxy/src/server_actor/connection_cache.rs\<close>: the server-list
  status \<open>CachedStatus\<close> with its cached JSON text, the server brand \<open>CachedBranding\<close>, and the loading
  of the icon. JSON, base64, the PNG header, the file system and the variable-length integer of the
  brand are library parameters. The record \<open>StatusResponse\<close> of the protocol crate has the fields
  the source fills in; the entries of its player sample are of a type the source never looks into.
\<close>

section \<open>The icon\<close>

text \<open>
  \<open>read_info\<close> gives the width and height of a PNG header, \<open>encode64\<close> is standard base64. An empty
  input and a size other than 64 by 64 fail an assertion.
\<close>

definition load_icon_from_bytes :: "(bytes \<Rightarrow> (u32 \<times> u32, 'x) result) \<Rightarrow> (bytes \<Rightarrow> string) \<Rightarrow> bytes \<Rightarrow>
    (string, 'x) result run" where
  "load_icon_from_bytes read_info encode64 png_data =
     (if png_data = [] then Panic
      else case read_info png_data of
          Err e \<Rightarrow> Ret (Err e)
        | Ok (width, height) \<Rightarrow>
            (if width \<noteq> 64 then Panic
             else if height \<noteq> 64 then Panic
             else Ret (Ok (''data:image/png;base64,'' @ encode64 png_data))))"

definition load_icon_from_file :: "('p \<Rightarrow> ('f, 'x) result) \<Rightarrow> ('f \<Rightarrow> (bytes, 'x) result) \<Rightarrow>
    (bytes \<Rightarrow> (u32 \<times> u32, 'x) result) \<Rightarrow> (bytes \<Rightarrow> string) \<Rightarrow> 'p \<Rightarrow> (string, 'x) result run" where
  "load_icon_from_file open_file read_to_end read_info encode64 path =
     (case open_file path of
        Err e \<Rightarrow> Ret (Err e)
      | Ok icon_file \<Rightarrow>
          (case read_to_end icon_file of
             Err e \<Rightarrow> Ret (Err e)
           | Ok buf \<Rightarrow> load_icon_from_bytes read_info encode64 buf))"

section \<open>The brand\<close>

record CPluginMessage =
  plugin_channel :: string
  plugin_data :: bytes

record CachedBranding =
  cached_server_brand :: bytes

definition BRAND :: string where
  "BRAND = ''SpaceTimeMC''"

definition BRAND_BYTES :: bytes where
  "BRAND_BYTES = map of_char BRAND"

definition build_brand :: "(i32 \<Rightarrow> (bytes, 'x) result) \<Rightarrow> bytes run" where
  "build_brand encode_varint =
     bind_run (unwrap_result (encode_varint (of_nat (length BRAND)))) (\<lambda>buf. Ret (buf @ BRAND_BYTES))"

definition CachedBranding_new :: "(i32 \<Rightarrow> (bytes, 'x) result) \<Rightarrow> CachedBranding run" where
  "CachedBranding_new encode_varint =
     bind_run (build_brand encode_varint) (\<lambda>b. Ret \<lparr>cached_server_brand = b\<rparr>)"

definition get_branding :: "CachedBranding \<Rightarrow> CPluginMessage" where
  "get_branding b = \<lparr>plugin_channel = ''minecraft:brand'', plugin_data = cached_server_brand b\<rparr>"

section \<open>The status\<close>

record Version =
  ver_name :: string
  ver_protocol :: u32

record 's Players =
  pl_max :: u32
  pl_online :: u32
  pl_sample :: "'s list"

record 's StatusResponse =
  sr_version :: "Version option"
  sr_players :: "'s Players option"
  sr_description :: string
  sr_favicon :: "string option"
  sr_enforce_secure_chat :: bool

record 's CachedStatus =
  status_response :: "'s StatusResponse"
  status_response_json :: string

text \<open>\<open>serde_json::to_string\<close> and the protocol number of the data crate.\<close>

record ('s, 'x) status_lib =
  to_json :: "'s StatusResponse \<Rightarrow> (string, 'x) result"
  current_protocol :: u32

definition CURRENT_MC_VERSION :: string where
  "CURRENT_MC_VERSION = ''1.21.5''"

definition build_response :: "('s, 'x) status_lib \<Rightarrow> u32 \<Rightarrow> string \<Rightarrow> 's StatusResponse" where
  "build_response J maxp m = \<lparr>
     sr_version = Some \<lparr>ver_name = CURRENT_MC_VERSION, ver_protocol = current_protocol J\<rparr>,
     sr_players = Some \<lparr>pl_max = maxp, pl_online = 0, pl_sample = []\<rparr>,
     sr_description = m,
     sr_favicon = None,
     sr_enforce_secure_chat = True\<rparr>"

text \<open>Every operation ends by writing the response out again; a failure there panics.\<close>

definition with_json :: "('s, 'x) status_lib \<Rightarrow> 's StatusResponse \<Rightarrow> 's CachedStatus run" where
  "with_json J r = bind_run (unwrap_result (to_json J r))
     (\<lambda>j. Ret \<lparr>status_response = r, status_response_json = j\<rparr>)"

definition CachedStatus_new :: "('s, 'x) status_lib \<Rightarrow> u32 \<Rightarrow> string \<Rightarrow> 's CachedStatus run" where
  "CachedStatus_new J maxp m = with_json J (build_response J maxp m)"

definition from_config :: "('s, 'x) status_lib \<Rightarrow> BasicConfiguration \<Rightarrow> 's CachedStatus run" where
  "from_config J config = CachedStatus_new J (max_players config) (motd config)"

datatype CStatusResponse = CStatusResponse string

definition get_status :: "'s CachedStatus \<Rightarrow> CStatusResponse" where
  "get_status cs = CStatusResponse (status_response_json cs)"

definition get_status_string :: "'s CachedStatus \<Rightarrow> string" where
  "get_status_string cs = status_response_json cs"

text \<open>
  \<open>AtomicBool::compare_exchange\<close>: the new flag and whether the exchange took place. The flag is the
  player's \<open>added_to_server_listing\<close>.
\<close>

definition compare_exchange :: "bool \<Rightarrow> bool \<Rightarrow> bool \<Rightarrow> bool \<times> bool" where
  "compare_exchange flag old new = (if flag = old then (new, True) else (flag, False))"

text \<open>
  \<open>online += 1\<close> and \<open>online -= 1\<close>: with overflow checks (\<open>checks\<close>, the development profile) they
  panic out of range, without they wrap.
\<close>

definition u32_inc :: "bool \<Rightarrow> u32 \<Rightarrow> u32 run" where
  "u32_inc checks n = (if checks \<and> n = - 1 then Panic else Ret (n + 1))"

definition u32_dec :: "bool \<Rightarrow> u32 \<Rightarrow> u32 run" where
  "u32_dec checks n = (if checks \<and> n = 0 then Panic else Ret (n - 1))"

definition add_player_listing :: "bool \<Rightarrow> ('s, 'x) status_lib \<Rightarrow> bool \<Rightarrow> 's CachedStatus \<Rightarrow>
    ('s CachedStatus \<times> bool) run" where
  "add_player_listing checks J flag cs =
     bind_run
       (case sr_players (status_response cs) of
          Some players \<Rightarrow>
            (case compare_exchange flag False True of
               (flag1, True) \<Rightarrow>
                 bind_run (u32_inc checks (pl_online players)) (\<lambda>n.
                   Ret ((status_response cs)\<lparr>sr_players := Some (players\<lparr>pl_online := n\<rparr>)\<rparr>, flag1))
             | (flag1, False) \<Rightarrow> Ret (status_response cs, flag1))
        | None \<Rightarrow> Ret (status_response cs, flag))
       (\<lambda>(r, flag1). bind_run (with_json J r) (\<lambda>cs1. Ret (cs1, flag1)))"

definition remove_player_listing :: "bool \<Rightarrow> ('s, 'x) status_lib \<Rightarrow> bool \<Rightarrow> 's CachedStatus \<Rightarrow>
    ('s CachedStatus \<times> bool) run" where
  "remove_player_listing checks J flag cs =
     bind_run
       (case sr_players (status_response cs) of
          Some players \<Rightarrow>
            (case compare_exchange flag True False of
               (flag1, True) \<Rightarrow>
                 bind_run (u32_dec checks (pl_online players)) (\<lambda>n.
                   Ret ((status_response cs)\<lparr>sr_players := Some (players\<lparr>pl_online := n\<rparr>)\<rparr>, flag1))
             | (flag1, False) \<Rightarrow> Ret (status_response cs, flag1))
        | None \<Rightarrow> Ret (status_response cs, flag))
       (\<lambda>(r, flag1). bind_run (with_json J r) (\<lambda>cs1. Ret (cs1, flag1)))"

definition update_status :: "('s, 'x) status_lib \<Rightarrow> BasicConfiguration \<Rightarrow> 's CachedStatus \<Rightarrow>
    's CachedStatus run" where
  "update_status J new_config cs =
     (let new_response = build_response J (max_players new_config) (motd new_config) in
      with_json J
        (case sr_players (status_response cs) of
           Some players \<Rightarrow> new_response\<lparr>sr_players := Some \<lparr>pl_max = max_players new_config,
             pl_online = pl_online players, pl_sample = pl_sample players\<rparr>\<rparr>
         | None \<Rightarrow> new_response))"

section \<open>Lemmas\<close>

text \<open>The cached text is the text of the response.\<close>

definition json_in_sync :: "('s, 'x) status_lib \<Rightarrow> 's CachedStatus \<Rightarrow> bool" where
  "json_in_sync J cs \<longleftrightarrow> to_json J (status_response cs) = Ok (status_response_json cs)"

lemma with_json_Ret_iff:
  "with_json J r = Ret cs \<longleftrightarrow> status_response cs = r \<and> json_in_sync J cs"
  by (cases cs) (auto simp: with_json_def json_in_sync_def run_simps)

lemma with_json_total: "is_ok (to_json J r) \<Longrightarrow> \<exists>cs. with_json J r = Ret cs"
  by (auto simp: with_json_def is_ok_iff)

text \<open>The players of the listing: the flags of the players it counts.\<close>

datatype listing_op = Op_add nat | Op_remove nat | Op_update BasicConfiguration

fun listing_step :: "bool \<Rightarrow> ('s, 'x) status_lib \<Rightarrow> listing_op \<Rightarrow> 's CachedStatus \<times> nat set \<Rightarrow>
    ('s CachedStatus \<times> nat set) run" where
  "listing_step checks J (Op_add i) (cs, listed) =
     bind_run (add_player_listing checks J (i \<in> listed) cs) (\<lambda>(cs1, flag).
       Ret (cs1, if flag then insert i listed else listed - {i}))"
| "listing_step checks J (Op_remove i) (cs, listed) =
     bind_run (remove_player_listing checks J (i \<in> listed) cs) (\<lambda>(cs1, flag).
       Ret (cs1, if flag then insert i listed else listed - {i}))"
| "listing_step checks J (Op_update c) (cs, listed) =
     bind_run (update_status J c cs) (\<lambda>cs1. Ret (cs1, listed))"

fun listing_run :: "bool \<Rightarrow> ('s, 'x) status_lib \<Rightarrow> listing_op list \<Rightarrow> 's CachedStatus \<times> nat set \<Rightarrow>
    ('s CachedStatus \<times> nat set) run" where
  "listing_run checks J [] st = Ret st"
| "listing_run checks J (x # xs) st = bind_run (listing_step checks J x st) (listing_run checks J xs)"

text \<open>
  The invariant: the response has its players, counts the listed ones, carries the configuration
  \<open>c\<close>, and its text is in step.
\<close>

definition listing_inv :: "('s, 'x) status_lib \<Rightarrow> u32 \<Rightarrow> string \<Rightarrow> 's CachedStatus \<times> nat set \<Rightarrow> bool" where
  "listing_inv J maxp m st \<longleftrightarrow> json_in_sync J (fst st) \<and> finite (snd st) \<and>
     status_response (fst st) = (build_response J maxp m)
       \<lparr>sr_players := Some \<lparr>pl_max = maxp, pl_online = of_nat (card (snd st)), pl_sample = []\<rparr>\<rparr>"

fun last_config :: "u32 \<times> string \<Rightarrow> listing_op list \<Rightarrow> u32 \<times> string" where
  "last_config c [] = c"
| "last_config c (Op_update d # xs) = last_config (max_players d, motd d) xs"
| "last_config c (x # xs) = last_config c xs"

lemma u32_of_nat_nonzero: "0 < n \<Longrightarrow> n < 2 ^ 32 \<Longrightarrow> (of_nat n :: u32) \<noteq> 0"
proof
  assume n: "0 < n" "n < 2 ^ 32" and z: "(of_nat n :: u32) = 0"
  have "unat (of_nat n :: u32) = n" using n by (simp add: unat_of_nat)
  with n z show False by simp
qed

lemma u32_inc_small: "Suc n < 2 ^ 32 \<Longrightarrow> u32_inc checks (of_nat n) = Ret (of_nat (Suc n))"
proof -
  assume "Suc n < 2 ^ 32"
  then have "(of_nat (Suc n) :: u32) \<noteq> 0" by (intro u32_of_nat_nonzero) auto
  then have "(of_nat n :: u32) \<noteq> - 1" by (simp add: add_eq_0_iff add.commute)
  then show ?thesis by (simp add: u32_inc_def add.commute)
qed

lemma u32_dec_small: "0 < n \<Longrightarrow> n < 2 ^ 32 \<Longrightarrow> u32_dec checks (of_nat n) = Ret (of_nat (n - 1))"
  by (simp add: u32_dec_def u32_of_nat_nonzero of_nat_diff)

lemma listing_step_inv:
  assumes "\<forall>r. is_ok (to_json J r)" and "listing_inv J maxp m st" and "Suc (card (snd st)) < 2 ^ 32"
  shows "\<exists>st1. listing_step checks J x st = Ret st1 \<and>
    listing_inv J (fst (last_config (maxp, m) [x])) (snd (last_config (maxp, m) [x])) st1 \<and>
    card (snd st1) \<le> Suc (card (snd st)) \<and>
    snd st1 = (case x of Op_add i \<Rightarrow> insert i (snd st) | Op_remove i \<Rightarrow> snd st - {i} | Op_update c \<Rightarrow> snd st)"
proof -
  obtain cs l where st: "st = (cs, l)" by (cases st)
  let ?r = "\<lambda>mx mm n. (build_response J mx mm)\<lparr>sr_players := Some \<lparr>pl_max = mx, pl_online = of_nat n, pl_sample = []\<rparr>\<rparr>"
  have fin: "finite l" and r: "status_response cs = ?r maxp m (card l)" and n: "Suc (card l) < 2 ^ 32"
    using assms(2,3) by (simp_all add: listing_inv_def st)
  have "\<forall>r. \<exists>c. with_json J r = Ret c \<and> status_response c = r \<and> json_in_sync J c"
    using with_json_total assms(1) with_json_Ret_iff by blast
  then obtain js where js: "\<And>r. with_json J r = Ret (js r)" "\<And>r. status_response (js r) = r"
    "\<And>r. json_in_sync J (js r)" by metis
  show ?thesis
  proof (cases x)
    case (Op_add i)
    show ?thesis
    proof (cases "i \<in> l")
      case True
      with Op_add js fin show ?thesis
        by (simp add: st add_player_listing_def compare_exchange_def r listing_inv_def insert_absorb)
    next
      case False
      with fin have c: "card (insert i l) = Suc (card l)" by simp
      from False Op_add js fin n show ?thesis
        by (simp add: st add_player_listing_def compare_exchange_def r listing_inv_def c
            u32_inc_small del: of_nat_Suc)
    qed
  next
    case (Op_remove i)
    show ?thesis
    proof (cases "i \<in> l")
      case True
      with fin have c: "card (l - {i}) = card l - 1" and pos: "0 < card l"
        by (simp_all add: card_Diff_singleton card_gt_0_iff) auto
      from True Op_remove js fin n pos show ?thesis
        by (simp add: st remove_player_listing_def compare_exchange_def r listing_inv_def c u32_dec_small)
    next
      case False
      with Op_remove js fin show ?thesis
        by (simp add: st remove_player_listing_def compare_exchange_def r listing_inv_def)
    qed
  next
    case (Op_update d)
    with js fin show ?thesis
      by (simp add: st update_status_def r listing_inv_def Let_def)
  qed
qed

end
