(* ===== verification/Status.thy ===== *)
theory Status
  imports Stream_Actor Connection_Cache
begin

text \<open>
  The status state of a connection, \<open>proxy/src/client_actor/status.rs\<close>: the server list ping. The
  server is asked for the status when the actor is spawned, the reply is awaited when the client
  asks for it.
\<close>

section \<open>Packets\<close>

record SStatusPingRequest =
  pg_payload :: i64

datatype CPingResponse = CPingResponse i64

record 'x status_packets =
  kp_status_request :: i32
  kp_status_response :: "(CStatusResponse, 'x) client_packet"
  kp_ping_request :: "(SStatusPingRequest, 'x) server_packet"
  kp_ping_response :: "(CPingResponse, 'x) client_packet"

section \<open>The actor\<close>

record 't StatusActor =
  ta_id :: usize
  ta_client_address :: SocketAddr
  ta_framer :: "'t Framed"
  ta_status :: "receiver option"

definition status_stream :: "('t StatusActor, 't, ('t, 'd, 'e) MCSocket) StreamActor" where
  "status_stream =
     \<lparr>sa_get = ta_framer, sa_put = (\<lambda>st self. self\<lparr>ta_framer := st\<rparr>), sa_socket = Cleartext\<rparr>"

interpretation ta: stream_actor status_stream
  by unfold_locales (simp_all add: status_stream_def)

definition status_spawn :: "('t, 'd, 'e, 'tx, 'rx, 'x, 'w) conn_lib \<Rightarrow> usize \<Rightarrow> SocketAddr \<Rightarrow>
    't Framed \<Rightarrow> TaskTracker \<Rightarrow> 'tx Server \<Rightarrow>
    ('t StatusActor option, ('t, 'd, 'e) MCSocket event, 'w) task" where
  "status_spawn E i client_address framer tracker server =
     bind_task (asks (lib_mpsc E) server GetStatus) (\<lambda>r. case r of
         Ok status_receiver \<Rightarrow>
           bind_task (emit (Spawned tracker Status_task)) (\<lambda>_.
             ret (Some \<lparr>ta_id = i, ta_client_address = client_address, ta_framer = framer,
               ta_status = Some status_receiver\<rparr>))
       | Err _ \<Rightarrow> ret None)"

definition handle_status_request :: "('t, 'd, 'e, 'tx, 'rx, 'x, 'w) conn_lib \<Rightarrow> 'x status_packets \<Rightarrow>
    't StatusActor \<Rightarrow> (bool \<times> 't StatusActor, ('t, 'd, 'e) MCSocket event, 'w) task" where
  "handle_status_request E K self =
     bind_task (lift_run ''status receiver already taken'' (unwrap_option (ta_status self))) (\<lambda>status.
     let self1 = self\<lparr>ta_status := None\<rparr> in
     bind_task (await_string (lib_reply E) status) (\<lambda>r. case r of
         Some s \<Rightarrow>
           bind_task (send (lib_tcp E) status_stream (kp_status_response K) (CStatusResponse s) self1)
             (\<lambda>(_, self2). ret (True, self2))
       | None \<Rightarrow> ret (False, self1)))"

definition handle_ping_request :: "('t, 'd, 'e, 'tx, 'rx, 'x, 'w) conn_lib \<Rightarrow> 'x status_packets \<Rightarrow>
    SStatusPingRequest \<Rightarrow> 't StatusActor \<Rightarrow> (bool \<times> 't StatusActor, ('t, 'd, 'e) MCSocket event, 'w) task" where
  "handle_ping_request E K ping self =
     send (lib_tcp E) status_stream (kp_ping_response K) (CPingResponse (pg_payload ping)) self"

definition status_run :: "('t, 'd, 'e, 'tx, 'rx, 'x, 'w) conn_lib \<Rightarrow> 'x status_packets \<Rightarrow>
    't StatusActor \<Rightarrow> (unit, ('t, 'd, 'e) MCSocket event, 'w) task" where
  "status_run E K self =
     bind_task
       (bind_task (read_empty (lib_tcp E) status_stream (kp_status_request K) self) (\<lambda>(req, self1).
        case req of
          None \<Rightarrow> ret self1
        | Some _ \<Rightarrow>
            bind_task (handle_status_request E K self1) (\<lambda>(_, self2).
            bind_task (read (lib_tcp E) status_stream (kp_ping_request K) self2) (\<lambda>(ping, self3).
            case ping of
              Some ping_request \<Rightarrow>
                bind_task (handle_ping_request E K ping_request self3) (\<lambda>(_, self4). ret self4)
            | None \<Rightarrow> ret self3))))
       (\<lambda>self. bind_task (shutdown (lib_tcp E) status_stream self) (\<lambda>_. ret ()))"

lemma status_stream_simps [simp]:
  "sa_get status_stream self = ta_framer self"
  "sa_socket status_stream io = Cleartext io"
  "ta_framer (sa_put status_stream st self) = st"
  "ta_status (sa_put status_stream st self) = ta_status self"
  by (simp_all add: status_stream_def)

end
