(* ===== verification/Configuration.thy ===== *)
theory Configuration
  imports Stream_Actor
begin

text \<open>
  The last state of a connection so far, \<open>proxy/src/client_actor/configuration.rs\<close>: the actor starts
  and shuts its stream down.
\<close>

text \<open>
  \<open>GameProfile\<close> of the crate \<open>pumpkin\<close>. The program only ever makes profiles without properties and
  without actions, so these carry no data.
\<close>

record GameProfile =
  gp_id :: u128
  gp_name :: string
  gp_properties :: "unit list"
  gp_profile_actions :: "unit list option"

record ('t, 'd, 'e, 'tx) ConfigurationActor =
  ca_id :: usize
  ca_client_address :: SocketAddr
  ca_framer :: "('t, 'd, 'e) MCSocket Framed"
  ca_server :: "'tx Server"
  ca_tracker :: TaskTracker
  ca_profile :: GameProfile

definition configuration_stream ::
  "(('t, 'd, 'e, 'tx) ConfigurationActor, ('t, 'd, 'e) MCSocket, ('t, 'd, 'e) MCSocket) StreamActor" where
  "configuration_stream =
     \<lparr>sa_get = ca_framer, sa_put = (\<lambda>st self. self\<lparr>ca_framer := st\<rparr>), sa_socket = (\<lambda>io. io)\<rparr>"

interpretation ca: stream_actor configuration_stream
  by unfold_locales (simp_all add: configuration_stream_def)

text \<open>Spawning gives the actor whose \<open>run\<close> the tracker then drives as a task of its own.\<close>

definition configuration_spawn :: "usize \<Rightarrow> SocketAddr \<Rightarrow> ('t, 'd, 'e) MCSocket Framed \<Rightarrow> TaskTracker \<Rightarrow>
    'tx Server \<Rightarrow> GameProfile \<Rightarrow> (('t, 'd, 'e, 'tx) ConfigurationActor, ('t, 'd, 'e) MCSocket event, 'w) task" where
  "configuration_spawn i client_address framer tracker server profile =
     (let config_actor = \<lparr>ca_id = i, ca_client_address = client_address, ca_framer = framer,
            ca_server = server, ca_tracker = tracker, ca_profile = profile\<rparr> in
      bind_task (emit (Spawned tracker Configuration_task)) (\<lambda>_. ret config_actor))"

definition configuration_run :: "('t, 'd, 'e, 'tx, 'rx, 'x, 'w) conn_lib \<Rightarrow>
    ('t, 'd, 'e, 'tx) ConfigurationActor \<Rightarrow> (unit, ('t, 'd, 'e) MCSocket event, 'w) task" where
  "configuration_run E self =
     bind_task (shutdown (lib_mc E) configuration_stream self) (\<lambda>_. ret ())"

lemma configuration_run_safe:
  assumes "Q () (tr @ [Stream_shut (fr_io (ca_framer self))])"
    and "P Panic_in_library (tr @ [Stream_shut (fr_io (ca_framer self))])"
    and "W (tr @ [Stream_shut (fr_io (ca_framer self))])"
  shows "safe (configuration_run E self) tr Q P W"
  unfolding configuration_run_def
  by (intro safe_bind ca.shutdown_self) (simp_all add: configuration_stream_def assms)

end
