(* ===== verification/Login.thy ===== *)
theory Login
  imports Configuration
begin

text \<open>
  The login state of a connection, \<open>proxy/src/client_actor/login.rs\<close>: it takes the stream over from
  the handshake, asks the client to agree on a key, checks the token that comes back, switches the
  socket to encryption and hands over to the configuration state.
\<close>

section \<open>Packets\<close>

record SLoginStart =
  ls_name :: string
  ls_uuid :: u128

record SEncryptionResponse =
  er_shared_secret :: bytes
  er_verify_token :: bytes

record CEncryptionRequest =
  rq_server_id :: string
  rq_public_key :: bytes
  rq_verify_token :: bytes
  rq_should_authenticate :: bool

record CLoginSuccess =
  lg_uuid :: u128
  lg_username :: string
  lg_properties :: "unit list"

record 'x login_packets =
  lp_start :: "(SLoginStart, 'x) server_packet"
  lp_request :: "(CEncryptionRequest, 'x) client_packet"
  lp_response :: "(SEncryptionResponse, 'x) server_packet"
  lp_success :: "(CLoginSuccess, 'x) client_packet"
  lp_acknowledged :: i32

section \<open>The actor\<close>

record ('t, 'd, 'e, 'tx) LoginActor =
  la_id :: usize
  la_client_address :: SocketAddr
  la_framer :: "('t, 'd, 'e) MCSocket Framed"
  la_server :: "'tx Server"
  la_tracker :: TaskTracker
  la_profile :: "GameProfile option"
  la_verify_token :: "bytes option"

definition login_stream ::
  "(('t, 'd, 'e, 'tx) LoginActor, ('t, 'd, 'e) MCSocket, ('t, 'd, 'e) MCSocket) StreamActor" where
  "login_stream =
     \<lparr>sa_get = la_framer, sa_put = (\<lambda>st self. self\<lparr>la_framer := st\<rparr>), sa_socket = (\<lambda>io. io)\<rparr>"

interpretation la: stream_actor login_stream
  by unfold_locales (simp_all add: login_stream_def)

text \<open>
  \<open>LoginHandler::spawn\<close>: socket and codec come from the parts of the old stream, everything else of
  them is left behind.
\<close>

definition login_actor :: "usize \<Rightarrow> SocketAddr \<Rightarrow> 't Framed \<Rightarrow> TaskTracker \<Rightarrow> 'tx Server \<Rightarrow>
    ('t, 'd, 'e, 'tx) LoginActor" where
  "login_actor i client_address framer tracker server =
     \<lparr>la_id = i, la_client_address = client_address,
      la_framer = FramedParts_new (MCSocket_new (fr_io framer)) (fr_codec framer),
      la_server = server, la_tracker = tracker, la_profile = None, la_verify_token = None\<rparr>"

definition login_spawn :: "usize \<Rightarrow> SocketAddr \<Rightarrow> 't Framed \<Rightarrow> TaskTracker \<Rightarrow> 'tx Server \<Rightarrow>
    (('t, 'd, 'e, 'tx) LoginActor, ('t, 'd, 'e) MCSocket event, 'w) task" where
  "login_spawn i client_address framer tracker server =
     bind_task (emit (Spawned tracker Login_task)) (\<lambda>_.
       ret (login_actor i client_address framer tracker server))"

definition login_encrypt :: "('t, 'd, 'e, 'tx, 'rx, 'x, 'w) conn_lib \<Rightarrow> bytes \<Rightarrow>
    ('t, 'd, 'e, 'tx) LoginActor \<Rightarrow> ('t, 'd, 'e, 'tx) LoginActor \<times> (unit, string) result" where
  "login_encrypt E key self =
     (case prepare_encryption (lib_cipher E) key of
        Err e \<Rightarrow> (self, Err e)
      | Ok crypto \<Rightarrow>
          (let (new_socket, res) = encrypt (fr_io (la_framer self)) crypto in
           (self\<lparr>la_framer := FramedParts_new new_socket (fr_codec (la_framer self))\<rparr>, res)))"

definition handle_login_start :: "('t, 'd, 'e, 'tx, 'rx, 'x, 'w) conn_lib \<Rightarrow> 'x login_packets \<Rightarrow>
    SLoginStart \<Rightarrow> ('t, 'd, 'e, 'tx) LoginActor \<Rightarrow>
    (bool \<times> ('t, 'd, 'e, 'tx) LoginActor, ('t, 'd, 'e) MCSocket event, 'w) task" where
  "handle_login_start E K login self =
     bind_task (asks (lib_mpsc E) (la_server self) CertificatePublicDer) (\<lambda>r. case r of
         Err _ \<Rightarrow> ret (False, self)
       | Ok der_recv \<Rightarrow>
           let self1 = self\<lparr>la_profile := Some \<lparr>gp_id = ls_uuid login, gp_name = ls_name login,
                 gp_properties = [], gp_profile_actions = None\<rparr>\<rparr> in
           bind_task (perform_now (rand_token (lib_reply E))) (\<lambda>verify_token.
           bind_task (emit (Drew verify_token)) (\<lambda>_.
           let self2 = self1\<lparr>la_verify_token := Some verify_token\<rparr> in
           bind_task (await_bytes (lib_reply E) der_recv) (\<lambda>d. case d of
               None \<Rightarrow> ret (False, self2)
             | Some der \<Rightarrow>
                 send (lib_mc E) login_stream (lp_request K)
                   \<lparr>rq_server_id = '''', rq_public_key = der, rq_verify_token = verify_token,
                    rq_should_authenticate = False\<rparr> self2))))"

text \<open>
  The slice \<open>shared_secret[..16]\<close> panics on a shorter secret; the conversion to an array of 16 then
  always succeeds.
\<close>

definition handle_encryption_response :: "('t, 'd, 'e, 'tx, 'rx, 'x, 'w) conn_lib \<Rightarrow>
    SEncryptionResponse \<Rightarrow> ('t, 'd, 'e, 'tx) LoginActor \<Rightarrow>
    (bytes option, ('t, 'd, 'e) MCSocket event, 'w) task" where
  "handle_encryption_response E response self =
     bind_task (asks (lib_mpsc E) (la_server self) (\<lambda>s. Decrypt (er_verify_token response) s)) (\<lambda>r1.
     case r1 of Err _ \<Rightarrow> ret None | Ok verify_token_recv \<Rightarrow>
     bind_task (asks (lib_mpsc E) (la_server self) (\<lambda>s. Decrypt (er_shared_secret response) s)) (\<lambda>r2.
     case r2 of Err _ \<Rightarrow> ret None | Ok shared_secret_recv \<Rightarrow>
     bind_task (await_bytes (lib_reply E) verify_token_recv) (\<lambda>t.
     case t of None \<Rightarrow> ret None | Some token \<Rightarrow>
     bind_task (lift_run ''verify_token.unwrap()'' (unwrap_option (la_verify_token self))) (\<lambda>expected.
     if token \<noteq> expected then ret None else
     bind_task (await_bytes (lib_reply E) shared_secret_recv) (\<lambda>sec.
     case sec of None \<Rightarrow> ret None | Some shared_secret \<Rightarrow>
     bind_task (lift_run ''shared_secret[..16]'' (slice_to shared_secret 16)) (\<lambda>key.
     ret (if length key = 16 then Some key else None)))))))"

text \<open>The task: the actor of the next state, when it comes to that.\<close>

definition login_run :: "('t, 'd, 'e, 'tx, 'rx, 'x, 'w) conn_lib \<Rightarrow> 'x login_packets \<Rightarrow>
    ('t, 'd, 'e, 'tx) LoginActor \<Rightarrow>
    (('t, 'd, 'e, 'tx) ConfigurationActor option, ('t, 'd, 'e) MCSocket event, 'w) task" where
  "login_run E K self =
     (let stop = (\<lambda>self. bind_task (shutdown (lib_mc E) login_stream self) (\<lambda>_. ret None)) in
      bind_task (read (lib_mc E) login_stream (lp_start K) self) (\<lambda>(start, self1).
      case start of None \<Rightarrow> stop self1 | Some login \<Rightarrow>
      bind_task (handle_login_start E K login self1) (\<lambda>(started, self2).
      if \<not> started then stop self2 else
      bind_task (read (lib_mc E) login_stream (lp_response K) self2) (\<lambda>(resp, self3).
      case resp of None \<Rightarrow> stop self3 | Some encryption_response \<Rightarrow>
      bind_task (handle_encryption_response E encryption_response self3) (\<lambda>sec.
      case sec of None \<Rightarrow> stop self3 | Some secret \<Rightarrow>
      let (self4, res) = login_encrypt E secret self3 in
      if \<not> is_ok res then stop self4 else
      bind_task (lift_run ''profile.take().unwrap()'' (unwrap_option (la_profile self4))) (\<lambda>profile.
      let self5 = self4\<lparr>la_profile := None\<rparr> in
      bind_task (send (lib_mc E) login_stream (lp_success K)
          \<lparr>lg_uuid = gp_id profile, lg_username = gp_name profile, lg_properties = []\<rparr> self5)
        (\<lambda>(_, self6).
      bind_task (read_empty (lib_mc E) login_stream (lp_acknowledged K) self6) (\<lambda>(ack, self7).
      case ack of
        Some _ \<Rightarrow>
          bind_task (configuration_spawn (la_id self7) (la_client_address self7) (la_framer self7)
            (la_tracker self7) (la_server self7) profile) (\<lambda>a. ret (Some a))
      | None \<Rightarrow> stop self7))))))))"

section \<open>Facts about the actor\<close>

lemma login_stream_simps [simp]:
  "sa_get login_stream self = la_framer self"
  "sa_socket login_stream io = io"
  "la_framer (sa_put login_stream st self) = st"
  "la_profile (sa_put login_stream st self) = la_profile self"
  "la_verify_token (sa_put login_stream st self) = la_verify_token self"
  "la_server (sa_put login_stream st self) = la_server self"
  "la_id (sa_put login_stream st self) = la_id self"
  "la_tracker (sa_put login_stream st self) = la_tracker self"
  "la_client_address (sa_put login_stream st self) = la_client_address self"
  by (simp_all add: login_stream_def)

end
