(* ===== verification/Handshake.thy ===== *)
theory Handshake
  imports Status Login
begin

text \<open>
  The first state of a connection, \<open>proxy/src/client_actor/handshake.rs\<close>: the actor reads one packet
  and hands the stream over to the state the client asks for.
\<close>

section \<open>Packets\<close>

text \<open>The code tells two of the connection states from all others.\<close>

datatype ConnectionState = Status_state | Login_state | Other_state string

record SHandShake =
  hs_protocol_version :: i32
  hs_server_address :: string
  hs_server_port :: "16 word"
  hs_next_state :: ConnectionState

section \<open>The actor\<close>

record ('t, 'tx) HandshakeActor =
  ha_id :: usize
  ha_client_address :: SocketAddr
  ha_framer :: "'t Framed"
  ha_server :: "'tx Server"
  ha_tracker :: TaskTracker

definition handshake_stream :: "(('t, 'tx) HandshakeActor, 't, ('t, 'd, 'e) MCSocket) StreamActor" where
  "handshake_stream =
     \<lparr>sa_get = ha_framer, sa_put = (\<lambda>st self. self\<lparr>ha_framer := st\<rparr>), sa_socket = Cleartext\<rparr>"

interpretation ha: stream_actor handshake_stream
  by unfold_locales (simp_all add: handshake_stream_def)

definition handshake_spawn :: "('t, 'd, 'e, 'tx, 'rx, 'x, 'w) conn_lib \<Rightarrow> 't \<Rightarrow> SocketAddr \<Rightarrow> usize \<Rightarrow>
    TaskTracker \<Rightarrow> 'tx Server \<Rightarrow> (('t, 'tx) HandshakeActor, ('t, 'd, 'e) MCSocket event, 'w) task" where
  "handshake_spawn E tcp_stream client_address i tracker server =
     bind_task (perform_now (lib_set_nodelay E tcp_stream True)) (\<lambda>r.
     bind_task (lift_run ''Failed to set TCP_NODELAY'' (unwrap_result r)) (\<lambda>_.
     let framer = FramedParts_new tcp_stream MCCodec_new;
         actor = \<lparr>ha_id = i, ha_client_address = client_address, ha_framer = framer,
           ha_server = server, ha_tracker = tracker\<rparr> in
     bind_task (emit (Spawned tracker (Handshake_task (ha_id actor) (ha_client_address actor)))) (\<lambda>_. ret actor)))"

definition handle_handshake :: "SHandShake \<Rightarrow> ConnectionState option" where
  "handle_handshake handshake = Some (hs_next_state handshake)"

text \<open>The actor of the next state.\<close>

datatype ('t, 'd, 'e, 'tx) next_actor =
    To_status "'t StatusActor"
  | To_login "('t, 'd, 'e, 'tx) LoginActor"

definition transition_status :: "('t, 'd, 'e, 'tx, 'rx, 'x, 'w) conn_lib \<Rightarrow> ('t, 'tx) HandshakeActor \<Rightarrow>
    (('t, 'd, 'e, 'tx) next_actor option, ('t, 'd, 'e) MCSocket event, 'w) task" where
  "transition_status E self =
     bind_task (status_spawn E (ha_id self) (ha_client_address self) (ha_framer self) (ha_tracker self)
       (ha_server self)) (\<lambda>a. ret (map_option To_status a))"

definition transition_login :: "('t, 'tx) HandshakeActor \<Rightarrow>
    (('t, 'd, 'e, 'tx) next_actor option, ('t, 'd, 'e) MCSocket event, 'w) task" where
  "transition_login self =
     bind_task (login_spawn (ha_id self) (ha_client_address self) (ha_framer self) (ha_tracker self)
       (ha_server self)) (\<lambda>a. ret (Some (To_login a)))"

definition handshake_run :: "('t, 'd, 'e, 'tx, 'rx, 'x, 'w) conn_lib \<Rightarrow> (SHandShake, 'x) server_packet \<Rightarrow>
    ('t, 'tx) HandshakeActor \<Rightarrow>
    (('t, 'd, 'e, 'tx) next_actor option, ('t, 'd, 'e) MCSocket event, 'w) task" where
  "handshake_run E pk self =
     (let stop = (\<lambda>self. bind_task (shutdown (lib_tcp E) handshake_stream self) (\<lambda>_. ret None)) in
      bind_task (read (lib_tcp E) handshake_stream pk self) (\<lambda>(packet, self1).
      case Option.bind packet handle_handshake of
        Some state \<Rightarrow>
          (case state of
             Status_state \<Rightarrow> transition_status E self1
           | Login_state \<Rightarrow> transition_login self1
           | Other_state s \<Rightarrow> stop self1)
      | None \<Rightarrow> stop self1))"

lemma handshake_stream_simps [simp]:
  "sa_get handshake_stream self = ha_framer self"
  "sa_socket handshake_stream io = Cleartext io"
  "ha_framer (sa_put handshake_stream st self) = st"
  "ha_server (sa_put handshake_stream st self) = ha_server self"
  "ha_id (sa_put handshake_stream st self) = ha_id self"
  "ha_tracker (sa_put handshake_stream st self) = ha_tracker self"
  "ha_client_address (sa_put handshake_stream st self) = ha_client_address self"
  by (simp_all add: handshake_stream_def)

lemma handshake_put: "sa_put handshake_stream st self = self\<lparr>ha_framer := st\<rparr>"
  by (simp add: handshake_stream_def)

section \<open>What the handshake comes to\<close>

text \<open>
  The next actor and the trace, given the packet received and the stream that its read left: the state
  that was asked for, with that stream and the id, the address and the server of this connection; for
  the status, only when the server took the question, and otherwise nothing at all is done with the
  stream; for anything else the stream is shut down.
\<close>

inductive dispatched :: "(SHandShake, 'x) server_packet \<Rightarrow> ('t, 'tx) HandshakeActor \<Rightarrow>
    RawPacket option \<Rightarrow> 't Framed \<Rightarrow> ('t, 'd, 'e, 'tx) next_actor option \<Rightarrow>
    ('t, 'd, 'e) MCSocket event list \<Rightarrow> bool"
  for pk self p st where
  dispatched_status: "parsed (sp_id pk) (sp_read pk) p = Some hs \<Longrightarrow> hs_next_state hs = Status_state \<Longrightarrow>
    dispatched pk self p st
      (Some (To_status \<lparr>ta_id = ha_id self, ta_client_address = ha_client_address self,
         ta_framer = st, ta_status = Some rx\<rparr>))
      [Received p, Asked (GetStatus s) rx, Spawned (ha_tracker self) Status_task]"
| dispatched_unresponsive: "parsed (sp_id pk) (sp_read pk) p = Some hs \<Longrightarrow> hs_next_state hs = Status_state \<Longrightarrow>
    dispatched pk self p st None [Received p]"
| dispatched_login: "parsed (sp_id pk) (sp_read pk) p = Some hs \<Longrightarrow> hs_next_state hs = Login_state \<Longrightarrow>
    dispatched pk self p st
      (Some (To_login (login_actor (ha_id self) (ha_client_address self) st (ha_tracker self) (ha_server self))))
      [Received p, Spawned (ha_tracker self) Login_task]"
| dispatched_other: "parsed (sp_id pk) (sp_read pk) p = Some hs \<Longrightarrow> hs_next_state hs = Other_state n \<Longrightarrow>
    dispatched pk self p st None [Received p, Stream_shut (Cleartext (fr_io st))]"
| dispatched_none: "parsed (sp_id pk) (sp_read pk) p = None \<Longrightarrow>
    dispatched pk self p st None [Received p, Stream_shut (Cleartext (fr_io st))]"

inductive_cases dispatched_statusE: "dispatched pk self p st (Some (To_status a)) tr"
inductive_cases dispatched_loginE: "dispatched pk self p st (Some (To_login a)) tr"

text \<open>What follows the read, in every environment.\<close>

lemma handshake_after_read:
  "\<exists>k. handshake_run E pk self = bind_task (read (lib_tcp E) handshake_stream pk self) k \<and>
    (\<forall>p st. safe (k (parsed (sp_id pk) (sp_read pk) p, self\<lparr>ha_framer := st\<rparr>)) [Received p]
       (dispatched pk self p st) (\<lambda>p t. p = Panic_in_library \<and> sents t = []) (\<lambda>t. sents t = []))"
  unfolding handshake_run_def transition_status_def transition_login_def status_spawn_def login_spawn_def
    Let_def handle_handshake_def
  apply (intro exI conjI allI, rule refl)
  subgoal for p st
    apply (cases "parsed (sp_id pk) (sp_read pk) p")
     apply (auto intro!: safe_bind ha.shutdown_self asks_safe
         safe_emit intro: dispatched.intros split: ConnectionState.split)
    apply (erule (1) dispatched_status)
    done
  done

lemma handshake_run_safe:
  "safe (handshake_run E pk self) [] (\<lambda>n t. \<exists>p st. dispatched pk self p st n t)
    (\<lambda>p t. p = Panic_in_library \<and> sents t = []) (\<lambda>t. sents t = [])"
proof -
  obtain k where run: "handshake_run E pk self = bind_task (read (lib_tcp E) handshake_stream pk self) k"
    and rest: "\<And>p st. safe (k (parsed (sp_id pk) (sp_read pk) p, self\<lparr>ha_framer := st\<rparr>)) [Received p]
       (dispatched pk self p st) (\<lambda>p t. p = Panic_in_library \<and> sents t = []) (\<lambda>t. sents t = [])"
    using handshake_after_read by blast
  show ?thesis
    unfolding run by (intro safe_bind ha.read_self, unfold handshake_put append_Nil) (auto intro: safe_mono [OF rest])
qed

text \<open>A finished handshake, with the environment it started in.\<close>

lemma handshake_run_Done:
  assumes "cx_trace c = []" and "handshake_run E pk self c = Done n c1"
  shows "\<exists>p st. read_from (lib_tcp E) (ha_framer self) (cx_env c) p st \<and> dispatched pk self p st n (cx_trace c1)"
proof -
  obtain k where run: "handshake_run E pk self = bind_task (read (lib_tcp E) handshake_stream pk self) k"
    and rest: "\<And>p st. safe (k (parsed (sp_id pk) (sp_read pk) p, self\<lparr>ha_framer := st\<rparr>)) [Received p]
       (dispatched pk self p st) (\<lambda>p t. p = Panic_in_library \<and> sents t = []) (\<lambda>t. sents t = [])"
    using handshake_after_read by blast
  from assms(2) obtain x self1 c2 where r: "read (lib_tcp E) handshake_stream pk self c = Done (x, self1) c2"
    and k: "k (x, self1) c2 = Done n c1"
    by (cases "read (lib_tcp E) handshake_stream pk self c") (auto simp: run bind_eval)
  from read_Done [OF r, unfolded assms(1) append_Nil handshake_stream_simps handshake_put] obtain p st where p: "x = parsed (sp_id pk) (sp_read pk) p"
      "self1 = self\<lparr>ha_framer := st\<rparr>" "cx_trace c2 = [Received p]"
    and from_stream: "read_from (lib_tcp E) (ha_framer self) (cx_env c) p st"
    by blast
  from safe_cases(1) [OF rest p(3) k [unfolded p(1,2)]] from_stream show ?thesis by blast
qed

end
