(* ===== verification/Mc_Socket_Correct.thy ===== *)
theory Mc_Socket_Correct
  imports Mc_Socket
begin

text \<open>
  The properties of the encrypted socket of \<open>proxy/src/client_actor/mc_socket.rs\<close>, and a concrete
  instance of its parameters for the witnesses: a cipher-feedback stream over a toy block function,
  and a stream in memory whose writes follow a script.
\<close>

section \<open>A concrete cipher and a concrete stream\<close>

unbundle bit_operations_syntax

text \<open>The cipher state is the key and the shift register; a byte of key stream mixes their heads.\<close>

definition key_byte :: "bytes \<times> bytes \<Rightarrow> u8" where
  "key_byte k = (case k of (key, reg) \<Rightarrow>
     (case key of [] \<Rightarrow> 0 | a # _ \<Rightarrow> a) + (case reg of [] \<Rightarrow> 0 | a # _ \<Rightarrow> 3 * a + 1))"

definition shift_in :: "bytes \<times> bytes \<Rightarrow> u8 \<Rightarrow> bytes \<times> bytes" where
  "shift_in k c = (fst k, drop 1 (snd k) @ [c])"

definition cfb_lib :: "(bytes \<times> bytes, bytes \<times> bytes) cipher_lib" where
  "cfb_lib = \<lparr>new_dec = (\<lambda>key iv. if length key = 16 \<and> length iv = 16 then Some (key, iv) else None),
     new_enc = (\<lambda>key iv. if length key = 16 \<and> length iv = 16 then Some (key, iv) else None),
     dec_byte = (\<lambda>k c. (c XOR key_byte k, shift_in k c)),
     enc_byte = (\<lambda>k b. (b XOR key_byte k, shift_in k (b XOR key_byte k)))\<rparr>"

lemma ciphers_ok_cfb: "ciphers_ok cfb_lib (=)"
  by (auto simp: ciphers_ok_def cfb_lib_def xor.assoc)

text \<open>
  A stream in memory: the bytes it has taken, the bytes it has handed out, the bytes still to read,
  and the script of its operations: \<open>None\<close> is a pending poll, \<open>Some n\<close> one that moves \<open>n\<close> bytes.
\<close>

record mem_stream =
  taken :: bytes
  handed :: bytes
  inbox :: bytes
  script :: "nat option list"

fun next_op :: "mem_stream \<Rightarrow> nat option \<times> mem_stream" where
  "next_op t = (case script t of [] \<Rightarrow> (Some 1000000, t) | x # xs \<Rightarrow> (x, t\<lparr>script := xs\<rparr>))"

definition mem_io :: "(mem_stream, string) io_lib" where
  "mem_io = \<lparr>
     io_read = (\<lambda>t buf. case next_op t of
         (None, t1) \<Rightarrow> (Pending, t1, buf)
       | (Some n, t1) \<Rightarrow> (Ready (Ok ()), t1\<lparr>handed := handed t @ take n (inbox t), inbox := drop n (inbox t)\<rparr>,
           buf\<lparr>filled := filled buf @ take n (inbox t)\<rparr>)),
     io_write = (\<lambda>t buf. case next_op t of
         (None, t1) \<Rightarrow> (Pending, t1)
       | (Some n, t1) \<Rightarrow> (Ready (Ok (min n (length buf))), t1\<lparr>taken := taken t @ take n buf\<rparr>)),
     io_flush = (\<lambda>t. (Ready (Ok ()), t)),
     io_shutdown = (\<lambda>t. (Ready (Ok ()), t))\<rparr>"

lemma writes_ok_mem: "writes_ok mem_io taken"
  by (auto simp: writes_ok_def mem_io_def min_def split: list.splits option.splits)

lemma reads_ok_mem: "reads_ok mem_io handed"
  by (auto simp: reads_ok_def mem_io_def split: list.splits option.splits)

lemmas mem_eval = mem_io_def cfb_lib_def key_byte_def shift_in_def leftover_def slice_from_def Let_def

text \<open>What a reader decrypts from a first part of the ciphertext is a first part of the plaintext.\<close>

lemma encrypted_delivery:
  assumes "writes_ok IO wrote" and "reads_ok IO got" and "ciphers_ok C in_step" and "length key = 16"
    and "prepare_encryption C key = Ok (d, e)"
    and "sink_run C IO (Encrypted t dw e None) sw ps u"
    and "source_run C IO (Encrypted r d er None) sr ds"
    and "wrote t = []" and "got r = []"
    and "prefix (got (sock_stream sr)) (wrote (sock_stream sw))"
  shows "prefix ds ps"
proof -
  have in_step: "in_step d e"
    using assms(3-5) unfolding ciphers_ok_def prepare_encryption_def by force
  obtain sent where ps: "ps = sent @ u"
    and w: "wrote (sock_stream sw) = fst (cipher_bytes (enc_byte C) e sent)"
    using sink_run_inv [OF assms(1,6)] unfolding sink_inv_def
    by (auto simp: cipher_bytes_append assms(8))
  obtain r1 d1 raw where sr: "sr = Encrypted r1 d1 er None" and g: "got r1 = raw"
    and ds: "cipher_bytes (dec_byte C) d raw = (ds, d1)"
    using source_run_inv [OF assms(2,7)] by (auto simp: assms(9))
  from assms(10) obtain rest where "fst (cipher_bytes (enc_byte C) e sent) = raw @ rest"
    by (auto simp: prefix_def w sr g)
  then have "sent = fst (cipher_bytes (dec_byte C) d (raw @ rest))"
    using cipher_bytes_inverse [OF assms(3) in_step, of sent] by simp
  then show ?thesis using ds ps by (simp add: cipher_bytes_append)
qed

section \<open>Properties\<close>

text \<open>
  C13: An encrypted socket is a stream cipher over the bytes it is given. However the wrapped
  stream splits the writes or makes them wait, and however the program's appends fall between the
  polls, what the wrapped stream has taken since encryption began is the ciphertext, from the
  initial cipher, of the bytes sent so far: nothing is encrypted twice, skipped or reordered. A
  poll never panics, and when nothing is unsent the whole ciphertext has been taken.
\<close>

theorem sink_sends_ciphertext:
  assumes "writes_ok IO wrote" and "sink_run C IO (Encrypted t d e None) s ps u"
  shows "(\<exists>sent. ps = sent @ u \<and>
      wrote (sock_stream s) = wrote t @ fst (cipher_bytes (enc_byte C) e sent)) \<and>
    poll_write C IO s u \<noteq> Panic"
proof -
  note inv = sink_run_inv [OF assms]
  then obtain t1 d1 e1 pend sent k rest w where "s = Encrypted t1 d1 e1 pend" "ps = sent @ k @ rest"
    "u = k @ rest" "wrote t1 = wrote t @ w" "length w = length sent"
    "cipher_bytes (enc_byte C) e (sent @ k) = (w @ leftover pend, e1)"
    unfolding sink_inv_def by blast
  then have "ps = sent @ u \<and> wrote (sock_stream s) = wrote t @ fst (cipher_bytes (enc_byte C) e sent)"
    by (simp add: cipher_bytes_append)
  moreover have "poll_write C IO s u \<noteq> Panic"
    using sink_inv_poll [OF assms(1) inv] by auto
  ultimately show ?thesis by blast
qed

text \<open>A run for the witnesses: two bytes; the first poll waits, the next two take a byte each.\<close>

abbreviation mem_at :: "bytes \<Rightarrow> nat option list \<Rightarrow> mem_stream" where
  "mem_at out ops \<equiv> \<lparr>taken = out, handed = [], inbox = [], script = ops\<rparr>"

abbreviation key16 :: bytes where
  "key16 \<equiv> [5, 5, 5, 5, 5, 5, 5, 5, 5, 5, 5, 5, 5, 5, 5, 5]"

abbreviation reg16 :: bytes where
  "reg16 \<equiv> [5, 5, 5, 5, 5, 5, 5, 5, 5, 5, 5, 5, 5, 5, 31, 1]"

abbreviation sock_at :: "bytes \<Rightarrow> nat option list \<Rightarrow> bytes \<Rightarrow> bytes option \<Rightarrow>
    (mem_stream, bytes \<times> bytes, bytes \<times> bytes) MCSocket" where
  "sock_at out ops reg pend \<equiv> Encrypted (mem_at out ops) (key16, key16) (key16, reg) pend"

lemma poll_write_example:
  "poll_write cfb_lib mem_io (sock_at [] [None, Some 1, Some 1] key16 None) [10, 20] =
     Ret (Pending, sock_at [] [Some 1, Some 1] reg16 (Some [31, 1]))"
  "poll_write cfb_lib mem_io (sock_at [] [Some 1, Some 1] reg16 (Some [31, 1])) [10, 20] =
     Ret (Ready (Ok 1), sock_at [31] [Some 1] reg16 (Some [1]))"
  "poll_write cfb_lib mem_io (sock_at [31] [Some 1] reg16 (Some [1])) [20] =
     Ret (Ready (Ok 1), sock_at [31, 1] [] reg16 None)"
  by (simp_all add: poll_write_def mem_eval)

lemma sink_run_example:
  "sink_run cfb_lib mem_io (sock_at [] [None, Some 1, Some 1] key16 None)
     (sock_at [31, 1] [] reg16 None) [10, 20] []"
proof -
  let ?run = "sink_run cfb_lib mem_io (sock_at [] [None, Some 1, Some 1] key16 None)"
  have "?run (sock_at [] [None, Some 1, Some 1] key16 None) [10, 20] [10, 20]"
    using sink_append [OF sink_start, of cfb_lib mem_io _ "[10, 20]"] by simp
  then have "?run (sock_at [] [Some 1, Some 1] reg16 (Some [31, 1])) [10, 20] [10, 20]"
    by (rule sink_pending) (rule poll_write_example)
  then have "?run (sock_at [31] [Some 1] reg16 (Some [1])) [10, 20] (drop 1 [10, 20])"
    by (rule sink_ready) (rule poll_write_example)
  then have "?run (sock_at [31] [Some 1] reg16 (Some [1])) [10, 20] [20]"
    by simp
  then have "?run (sock_at [31, 1] [] reg16 None) [10, 20] (drop 1 [20])"
    by (rule sink_ready) (rule poll_write_example)
  then show ?thesis by simp
qed

theorem sink_sends_ciphertext_witness:
  "(\<exists>sent. [10, 20] = sent @ [] \<and> taken (mem_at [31, 1] []) =
      taken (mem_at [] [None, Some 1, Some 1]) @ fst (cipher_bytes (enc_byte cfb_lib) (key16, key16) sent)) \<and>
   poll_write cfb_lib mem_io (sock_at [31, 1] [] reg16 None) [] \<noteq> Panic"
  using sink_sends_ciphertext [OF writes_ok_mem sink_run_example] by simp

text \<open>
  C14: End to end over an encrypted connection. Two sockets encrypted with the same 16-byte key: if
  what the reader's stream has handed out is a first part of what the writer's stream has taken,
  then what the reader's polls have delivered is a first part of the bytes the writer was given,
  however reads and writes were split.
\<close>

theorem encrypted_connection_delivers_plaintext:
  assumes "writes_ok IO wrote" and "reads_ok IO got" and "ciphers_ok C in_step" and "length key = 16"
    and "prepare_encryption C key = Ok (d, e)"
    and "sink_run C IO (Encrypted t dw e None) sw ps u"
    and "source_run C IO (Encrypted r d er None) sr ds"
    and "wrote t = []" and "got r = []"
    and "prefix (got (sock_stream sr)) (wrote (sock_stream sw))"
  shows "prefix ds ps"
  using assms by (rule encrypted_delivery)

text \<open>The reading side of the witness: one byte arrives.\<close>

lemma source_run_example:
  "source_run cfb_lib mem_io
     (Encrypted \<lparr>taken = [], handed = [], inbox = [31, 1], script = [Some 1]\<rparr> (key16, key16) (key16, key16) None)
     (Encrypted \<lparr>taken = [], handed = [31], inbox = [1], script = []\<rparr> (key16, [5, 5, 5, 5, 5, 5, 5, 5, 5, 5, 5, 5, 5, 5, 5, 31]) (key16, key16) None) [10]"
  (is "source_run _ _ ?s0 ?s1 _")
proof -
  have "poll_read cfb_lib mem_io ?s0 \<lparr>filled = [], room = 8\<rparr> =
      Ret (Ready (Ok ()), ?s1, \<lparr>filled = [10], room = 8\<rparr>)"
    by (simp add: poll_read_def mem_eval)
  from source_ready [OF source_start this] show ?thesis by simp
qed

theorem encrypted_connection_delivers_plaintext_witness:
  "prefix [10 :: u8] [10, 20]"
proof (rule encrypted_connection_delivers_plaintext
    [OF writes_ok_mem reads_ok_mem ciphers_ok_cfb _ _ sink_run_example source_run_example])
  show "length key16 = 16" by simp
  show "prepare_encryption cfb_lib key16 = Ok ((key16, key16), (key16, key16))"
    by (simp add: prepare_encryption_def cfb_lib_def)
qed simp_all

text \<open>
  C38: The one way a write can panic. On a stream that keeps the contract of \<open>AsyncWrite\<close>, polling
  panics exactly when the socket holds left-over ciphertext and is handed a buffer shorter than
  it; a clear-text socket never panics. By the properties above no sink that repeats its unsent
  bytes gets there.
\<close>

theorem poll_write_panics_iff:
  assumes "writes_ok IO wrote"
  shows "poll_write C IO sock buf = Panic \<longleftrightarrow>
    (\<exists>t d e pend. sock = Encrypted t d e (Some pend) \<and> length buf < length pend)"
proof (cases sock)
  case (Cleartext t)
  then show ?thesis by (simp add: poll_write_def split: prod.split)
next
  case (Encrypted t d e pend)
  let ?lp = "leftover pend"
  show ?thesis
  proof (cases "length ?lp \<le> length buf")
    case True
    obtain cs e1 where cs: "cipher_bytes (enc_byte C) e (drop (length ?lp) buf) = (cs, e1)"
      by (cases "cipher_bytes (enc_byte C) e (drop (length ?lp) buf)")
    obtain p t1 where io: "io_write IO t (?lp @ cs) = (p, t1)" by (cases "io_write IO t (?lp @ cs)")
    from True have "\<not> (\<exists>pd. pend = Some pd \<and> length buf < length pd)" by auto
    with poll_write_encrypted [OF True cs io, of d] Encrypted show ?thesis
      by (auto split: poll.splits result.splits)
  next
    case False
    then have "\<exists>pd. pend = Some pd \<and> length buf < length pd" by (cases pend) auto
    with False Encrypted show ?thesis by (simp add: poll_write_too_short)
  qed
qed

theorem poll_write_panics_iff_witness:
  "poll_write cfb_lib mem_io (sock_at [] [] reg16 (Some [31, 1])) [10] = Panic"
  by (subst poll_write_panics_iff [OF writes_ok_mem]) simp

text \<open>
  Switching a socket to encryption. A clear-text socket becomes encrypted over the same stream,
  with the cipher pair it was given and no left-over bytes; an encrypted one is returned as it was,
  with an error. With a 16-byte key the cipher pair is made, from the key as its own initial vector.
\<close>

theorem encrypt_switches_once:
  assumes "ciphers_ok C in_step" and "length key = 16"
  shows "\<exists>d e. new_dec C key key = Some d \<and> new_enc C key key = Some e \<and>
    prepare_encryption C key = Ok (d, e) \<and>
    (case sock of
       Cleartext t \<Rightarrow> encrypt sock (d, e) = (Encrypted t d e None, Ok ())
     | Encrypted t d' e' p \<Rightarrow> encrypt sock (d, e) = (sock, Err ''Socket is already encrypted''))"
proof -
  from assms obtain d e where "new_dec C key key = Some d" "new_enc C key key = Some e"
    unfolding ciphers_ok_def by blast
  then show ?thesis by (simp add: prepare_encryption_def split: MCSocket.split)
qed

theorem encrypt_switches_once_witness:
  "\<exists>d e. new_dec cfb_lib key16 key16 = Some d \<and> new_enc cfb_lib key16 key16 = Some e \<and>
    prepare_encryption cfb_lib key16 = Ok (d, e) \<and>
    encrypt (Cleartext (mem_at [] [])) (d, e) = (Encrypted (mem_at [] []) d e None, Ok ())"
  using encrypt_switches_once [OF ciphers_ok_cfb, of key16 "Cleartext (mem_at [] [])"] by simp

end
