(* ===== verification/Scripted.thy ===== *)
theory Scripted
  imports Stream_Actor Mc_Socket_Correct
begin

text \<open>
  A concrete environment for the witnesses of the connection actors: the frames that will arrive
  with the milliseconds each takes, the replies the server will give, the tokens the random source
  will give. Nothing waits for ever unless the script runs out.
\<close>

record script_world =
  sw_frames :: "(nat \<times> item) list"
  sw_bytes :: "bytes option list"
  sw_strings :: "string option list"
  sw_tokens :: "bytes list"
  sw_mailbox :: "ServerMessage list"
  sw_open :: bool
  sw_next :: nat

definition script_framed :: "('io, unit, script_world) framed_lib" where
  "script_framed = \<lparr>
     fl_next = (\<lambda>fr w. case sw_frames w of
         [] \<Rightarrow> Never
       | (t, i) # xs \<Rightarrow> After t (Done (i, fr) (w\<lparr>sw_frames := xs\<rparr>))),
     fl_cancel = (\<lambda>ms fr w. (fr, w)),
     fl_send = (\<lambda>bs fr w. Done (Ok (), fr) w),
     fl_shutdown = (\<lambda>io w. Done (Ok (), io) w)\<rparr>"

definition script_mpsc :: "(unit, unit, ServerMessage, script_world) mpsc_lib" where
  "script_mpsc = \<lparr>
     mp_channel = (\<lambda>n w. (((), ()), w)),
     mp_send = (\<lambda>_ m w. if sw_open w then (Ok (), w\<lparr>sw_mailbox := sw_mailbox w @ [m]\<rparr>)
        else (Err (mpsc_SendError m), w)),
     mp_try_send = (\<lambda>_ m w. if sw_open w then (Ok (), w\<lparr>sw_mailbox := sw_mailbox w @ [m]\<rparr>)
        else (Err (Closed m), w)),
     mp_waits = (\<lambda>_ w. False),
     oneshot_channel = (\<lambda>w. ((sw_next w, sw_next w), w\<lparr>sw_next := Suc (sw_next w)\<rparr>))\<rparr>"

definition script_reply :: "script_world reply_lib" where
  "script_reply = \<lparr>
     recv_bytes = (\<lambda>rx w. case sw_bytes w of [] \<Rightarrow> Waiting w | r # rs \<Rightarrow> Done r (w\<lparr>sw_bytes := rs\<rparr>)),
     recv_string = (\<lambda>rx w. case sw_strings w of [] \<Rightarrow> Waiting w | r # rs \<Rightarrow> Done r (w\<lparr>sw_strings := rs\<rparr>)),
     rand_token = (\<lambda>w. case sw_tokens w of [] \<Rightarrow> ([0, 0, 0, 0], w) | t # ts \<Rightarrow> (t, w\<lparr>sw_tokens := ts\<rparr>))\<rparr>"

definition script_env ::
  "(unit, bytes \<times> bytes, bytes \<times> bytes, unit, unit, unit, script_world) conn_lib" where
  "script_env = \<lparr>lib_tcp = script_framed, lib_mc = script_framed, lib_cipher = cfb_lib,
     lib_mpsc = script_mpsc, lib_reply = script_reply,
     lib_set_nodelay = (\<lambda>_ _ w. (if sw_open w then Ok () else Err (), w))\<rparr>"

definition script_world0 :: script_world where
  "script_world0 = \<lparr>sw_frames = [], sw_bytes = [], sw_strings = [], sw_tokens = [], sw_mailbox = [],
     sw_open = True, sw_next = 0\<rparr>"

definition start_in :: "script_world \<Rightarrow> ('c, script_world) ctx" where
  "start_in w = \<lparr>cx_env = w, cx_trace = []\<rparr>"

definition packet_in :: "i32 \<Rightarrow> bytes \<Rightarrow> nat \<times> item" where
  "packet_in i bs = (10, Some (Ok \<lparr>rp_id = i, rp_payload = bs\<rparr>))"

lemma cx_trace_start [simp]: "cx_trace (start_in w) = []"
  by (simp add: start_in_def)

lemmas script_eval =
  script_framed_def script_mpsc_def script_reply_def script_env_def script_world0_def start_in_def
  packet_in_def task_eval perform_def lift_run_def asks_def await_bytes_def await_string_def
  server_ask_def server_send_def ask_def read_def read_empty_def read_custom_def
  next_frame_with_timeout_def next_frame_def send_def send_bytes_def serialize_bytes_def
  shutdown_def framed_shutdown_def FramedParts_new_def

end
