(* ===== verification/Connection_Theorems.thy ===== *)
theory Connection_Theorems
  imports Handshake Scripted
begin

text \<open>
  The properties of reading with a timeout, of the status state and of the handshake, with their
  witnesses.
\<close>

section \<open>Frames of the status state\<close>

definition status_frame :: "'x status_packets \<Rightarrow> receiver \<Rightarrow> ('t, 'd, 'e) MCSocket event list \<Rightarrow>
    ('t, 'd, 'e) MCSocket \<times> bytes \<Rightarrow> bool" where
  "status_frame K rx tr x \<longleftrightarrow> (\<exists>io s. fst x = Cleartext io \<and> Reply_string rx (Some s) \<in> set tr \<and>
     serialize_bytes (cp_write (kp_status_response K)) (CStatusResponse s) = Ok (snd x))"

definition pong_frame :: "'x status_packets \<Rightarrow> ('t, 'd, 'e) MCSocket event list \<Rightarrow>
    ('t, 'd, 'e) MCSocket \<times> bytes \<Rightarrow> bool" where
  "pong_frame K tr x \<longleftrightarrow> (\<exists>io p ping. fst x = Cleartext io \<and> Received p \<in> set tr \<and>
     parsed (sp_id (kp_ping_request K)) (sp_read (kp_ping_request K)) p = Some ping \<and>
     serialize_bytes (cp_write (kp_ping_response K)) (CPingResponse (pg_payload ping)) = Ok (snd x))"

fun status_frames_ok :: "'x status_packets \<Rightarrow> receiver \<Rightarrow> ('t, 'd, 'e) MCSocket event list \<Rightarrow>
    (('t, 'd, 'e) MCSocket \<times> bytes) list \<Rightarrow> bool" where
  "status_frames_ok K rx tr [] = True"
| "status_frames_ok K rx tr [x] = (status_frame K rx tr x \<or> pong_frame K tr x)"
| "status_frames_ok K rx tr [x, y] = (status_frame K rx tr x \<and> pong_frame K tr y)"
| "status_frames_ok K rx tr (x # y # z # zs) = False"

lemma status_run_safe:
  assumes "ta_status self = Some rx"
  shows "safe (status_run E K self) []
    (\<lambda>_ t. status_frames_ok K rx t (sents t) \<and> (\<exists>io. last t = Stream_shut (Cleartext io)))
    (\<lambda>p t. p = Panic_in_library \<and> status_frames_ok K rx t (sents t))
    (\<lambda>t. status_frames_ok K rx t (sents t))"
  unfolding status_run_def handle_status_request_def handle_ping_request_def Let_def
  by (intro safe_ret safe_bind safe_case_prod safe_case_option safe_lift_run await_string_safe
      ta.read_self ta.read_empty_self ta.send_self ta.shutdown_self)
    (auto simp: assms status_frame_def pong_frame_def)

section \<open>Scripts\<close>

definition script_status :: "unit status_packets" where
  "script_status = \<lparr>
     kp_status_request = 0,
     kp_status_response = \<lparr>cp_id = 0, cp_write = (\<lambda>p. case p of CStatusResponse s \<Rightarrow> (map of_char s, Ok ()))\<rparr>,
     kp_ping_request = \<lparr>sp_id = 1, sp_read = (\<lambda>bs. Ok \<lparr>pg_payload = of_nat (length bs)\<rparr>)\<rparr>,
     kp_ping_response = \<lparr>cp_id = 1, cp_write = (\<lambda>p. case p of CPingResponse n \<Rightarrow> ([ucast n], Ok ()))\<rparr>\<rparr>"

definition script_handshake :: "(SHandShake, unit) server_packet" where
  "script_handshake = \<lparr>sp_id = 0, sp_read = (\<lambda>bs. Ok \<lparr>hs_protocol_version = 770, hs_server_address = ''here'',
     hs_server_port = 25565, hs_next_state = (case bs of [] \<Rightarrow> Other_state ''Play'' | b # _ \<Rightarrow>
       if b = 1 then Status_state else Login_state)\<rparr>)\<rparr>"

definition tcp_framed :: "unit Framed" where
  "tcp_framed = FramedParts_new () MCCodec_new"

definition script_status_actor :: "unit StatusActor" where
  "script_status_actor = \<lparr>ta_id = 5, ta_client_address = ''peer'', ta_framer = tcp_framed, ta_status = Some 0\<rparr>"

definition script_status_world :: script_world where
  "script_status_world = script_world0\<lparr>sw_frames := [packet_in 0 [], packet_in 1 [1, 2]], sw_strings := [Some ''{}'']\<rparr>"

definition script_handshake_actor :: "(unit, unit) HandshakeActor" where
  "script_handshake_actor = \<lparr>ha_id = 5, ha_client_address = ''peer'', ha_framer = tcp_framed,
     ha_server = \<lparr>srv_sender = ()\<rparr>, ha_tracker = 1\<rparr>"

lemmas status_eval = script_eval script_status_def script_status_actor_def script_status_world_def tcp_framed_def
  status_run_def handle_status_request_def handle_ping_request_def status_stream_def

lemmas handshake_eval = script_eval script_handshake_def script_handshake_actor_def tcp_framed_def
  handshake_run_def handle_handshake_def transition_status_def transition_login_def status_spawn_def
  login_spawn_def handshake_stream_def

section \<open>Properties\<close>

text \<open>
  C18: The status state answers what it was asked and nothing else. In every environment, however the
  task ends, the frames it has sent are at most a status response, carrying the text the server
  replied on the receiver this actor was spawned with, and then a ping response, carrying the payload
  of the ping that was received; they go out in clear text. No code of the actor panics: the status
  receiver is there when it is taken.
\<close>

theorem status_sends_only_answers:
  assumes "ta_status self = Some rx" and "cx_trace c = []"
  shows "status_frames_ok K rx (trace_of (status_run E K self c)) (sents (trace_of (status_run E K self c))) \<and>
    (\<forall>place c1. status_run E K self c \<noteq> Panicked (Panic_at place) c1)"
proof -
  note run = safe_cases [OF status_run_safe [OF assms(1), of E K] assms(2)]
  from run(1) run(3) show ?thesis
    by (cases "status_run E K self c") (auto dest: run(2))
qed

theorem status_sends_only_answers_witness:
  "status_frames_ok script_status 0
     (trace_of (status_run script_env script_status script_status_actor (start_in script_status_world)))
     (sents (trace_of (status_run script_env script_status script_status_actor (start_in script_status_world))))"
  using status_sends_only_answers [of script_status_actor 0 "start_in script_status_world" script_status script_env]
  by (simp add: script_status_actor_def)

text \<open>
  C30: A client that asks for the status in time gets it, and its ping back: when the request and the
  ping arrive within five seconds each, the server's reply comes, and the packets can be written, then
  the task finishes, having sent exactly the status and the pong with the payload of the ping.
\<close>

theorem status_answers_client:
  assumes "ta_status self = Some rx"
    and "fl_next (lib_tcp E) (ta_framer self) (cx_env c) = After t1 (Done (Some (Ok request), fr1) w1)"
    and "t1 < 5000" and "rp_id request = kp_status_request K"
    and "recv_string (lib_reply E) rx w1 = Done (Some s) w2"
    and "serialize_bytes (cp_write (kp_status_response K)) (CStatusResponse s) = Ok b1"
    and "fl_send (lib_tcp E) b1 fr1 w2 = Done (r1, fr2) w3"
    and "fl_next (lib_tcp E) fr2 w3 = After t2 (Done (Some (Ok ping), fr3) w4)"
    and "t2 < 5000" and "rp_id ping = sp_id (kp_ping_request K)"
    and "sp_read (kp_ping_request K) (rp_payload ping) = Ok \<lparr>pg_payload = n\<rparr>"
    and "serialize_bytes (cp_write (kp_ping_response K)) (CPingResponse n) = Ok b2"
    and "fl_send (lib_tcp E) b2 fr3 w4 = Done (r2, fr4) w5"
    and "fl_shutdown (lib_tcp E) (fr_io fr4) w5 = Done (r3, io) w6"
  shows "\<exists>c1. status_run E K self c = Done () c1 \<and>
    sents (cx_trace c1) = sents (cx_trace c) @ [(Cleartext (fr_io fr1), b1), (Cleartext (fr_io fr3), b2)]"
  using assms
  by (simp add: status_run_def handle_status_request_def handle_ping_request_def Let_def task_eval
      perform_def lift_run_def read_empty_def read_def read_custom_def next_frame_with_timeout_def
      next_frame_def await_string_def send_def send_bytes_def shutdown_def framed_shutdown_def
      status_stream_def)

theorem status_answers_client_witness:
  "\<exists>c1. status_run script_env script_status script_status_actor (start_in script_status_world) = Done () c1 \<and>
    sents (cx_trace c1) = [(Cleartext (), [123, 125]), (Cleartext (), [2])]"
  using status_answers_client [of script_status_actor 0 script_env "start_in script_status_world" 10
      "\<lparr>rp_id = 0, rp_payload = []\<rparr>" tcp_framed
      "script_status_world\<lparr>sw_frames := [packet_in 1 [1, 2]]\<rparr>" script_status "''{}''"
      "script_status_world\<lparr>sw_frames := [packet_in 1 [1, 2]], sw_strings := []\<rparr>" "[123, 125]" "Ok ()" tcp_framed
      "script_status_world\<lparr>sw_frames := [packet_in 1 [1, 2]], sw_strings := []\<rparr>" 10
      "\<lparr>rp_id = 1, rp_payload = [1, 2]\<rparr>" tcp_framed
      "script_status_world\<lparr>sw_frames := [], sw_strings := []\<rparr>" 2 "[2]" "Ok ()" tcp_framed
      "script_status_world\<lparr>sw_frames := [], sw_strings := []\<rparr>" "Ok ()" "()"
      "script_status_world\<lparr>sw_frames := [], sw_strings := []\<rparr>"]
  by (simp add: status_eval of_char_def)

text \<open>
  C37: Reading a packet takes less than five seconds or gives up: when no frame arrives, or the next one
  is there only at five seconds or later, the read gives no packet, whatever the frame is; the read
  is cancelled at five seconds and nothing else happens.
\<close>

theorem read_gives_up_after_timeout:
  assumes "\<forall>t r. fl_next S (sa_get A self) (cx_env c) = After t r \<longrightarrow> 5000 \<le> t"
  shows "read S A pk self c = Done (None, sa_put A (fst (fl_cancel S 5000 (sa_get A self) (cx_env c))) self)
    \<lparr>cx_env = snd (fl_cancel S 5000 (sa_get A self) (cx_env c)), cx_trace = cx_trace c @ [Received None]\<rparr>"
proof -
  have "select_sleep 5000 (fl_next S (sa_get A self) (cx_env c)) = None"
    using assms by (cases "fl_next S (sa_get A self) (cx_env c)") auto
  then show ?thesis
    by (simp add: read_def read_custom_def next_frame_with_timeout_def next_frame_def task_eval
        perform_def split_def Let_def)
qed

theorem read_gives_up_after_timeout_witness:
  "read script_framed handshake_stream script_handshake script_handshake_actor
     (start_in (script_world0\<lparr>sw_frames := [(5000, Some (Ok \<lparr>rp_id = 0, rp_payload = [1]\<rparr>))]\<rparr>)) =
   Done (None, script_handshake_actor)
     \<lparr>cx_env = script_world0\<lparr>sw_frames := [(5000, Some (Ok \<lparr>rp_id = 0, rp_payload = [1]\<rparr>))]\<rparr>,
      cx_trace = [Received None :: (unit, unit, unit) MCSocket event]\<rparr>"
  using read_gives_up_after_timeout [of script_framed handshake_stream script_handshake_actor
      "start_in (script_world0\<lparr>sw_frames := [(5000, Some (Ok \<lparr>rp_id = 0, rp_payload = [1]\<rparr>))]\<rparr>)
        :: ((unit, unit, unit) MCSocket event, script_world) ctx" script_handshake]
  by (simp add: script_framed_def script_world0_def start_in_def handshake_stream_def script_handshake_actor_def)



end
