(* ===== verification/Login_Correct.thy ===== *)
theory Login_Correct
  imports Login
begin

text \<open>What the login state guarantees in every environment.\<close>

section \<open>What a frame may be\<close>

text \<open>The request carries the token drawn and a key the server gave.\<close>

definition request_for :: "bytes \<Rightarrow> bytes \<Rightarrow> CEncryptionRequest" where
  "request_for der token = \<lparr>rq_server_id = '''', rq_public_key = der, rq_verify_token = token,
     rq_should_authenticate = False\<rparr>"

definition profile_of :: "SLoginStart \<Rightarrow> GameProfile" where
  "profile_of login = \<lparr>gp_id = ls_uuid login, gp_name = ls_name login, gp_properties = [],
     gp_profile_actions = None\<rparr>"

definition success_for :: "SLoginStart \<Rightarrow> CLoginSuccess" where
  "success_for login = \<lparr>lg_uuid = ls_uuid login, lg_username = ls_name login, lg_properties = []\<rparr>"

definition login_received :: "'x login_packets \<Rightarrow> 's event list \<Rightarrow> SLoginStart \<Rightarrow> bool" where
  "login_received K tr login \<longleftrightarrow>
     (\<exists>p. Received p \<in> set tr \<and> parsed (sp_id (lp_start K)) (sp_read (lp_start K)) p = Some login)"

definition request_ok :: "'x login_packets \<Rightarrow> 's event list \<Rightarrow> 's \<times> bytes \<Rightarrow> bool" where
  "request_ok K tr x \<longleftrightarrow>
     (\<exists>token der s rx. Asked (CertificatePublicDer s) rx \<in> set tr \<and> Drew token \<in> set tr \<and>
        Reply_bytes rx (Some der) \<in> set tr \<and>
        serialize_bytes (cp_write (lp_request K)) (request_for der token) = Ok (snd x))"

text \<open>
  The key was agreed: the client's response was received, the server decrypted its token to the one
  drawn, and its secret to one whose first 16 bytes are the key of the two ciphers.
\<close>

definition key_agreed :: "('t, 'd, 'e, 'tx, 'rx, 'x, 'w) conn_lib \<Rightarrow> 'x login_packets \<Rightarrow>
    's event list \<Rightarrow> 'd \<Rightarrow> 'e \<Rightarrow> bool" where
  "key_agreed E K tr d e \<longleftrightarrow>
     (\<exists>p resp token secret s1 rx1 s2 rx2.
        Received p \<in> set tr \<and>
        parsed (sp_id (lp_response K)) (sp_read (lp_response K)) p = Some resp \<and>
        Drew token \<in> set tr \<and>
        Asked (Decrypt (er_verify_token resp) s1) rx1 \<in> set tr \<and>
        Asked (Decrypt (er_shared_secret resp) s2) rx2 \<in> set tr \<and>
        Reply_bytes rx1 (Some token) \<in> set tr \<and>
        Reply_bytes rx2 (Some secret) \<in> set tr \<and>
        16 \<le> length secret \<and>
        prepare_encryption (lib_cipher E) (take 16 secret) = Ok (d, e))"

definition success_ok :: "('t, 'd, 'e, 'tx, 'rx, 'x, 'w) conn_lib \<Rightarrow> 'x login_packets \<Rightarrow>
    ('t, 'd, 'e) MCSocket event list \<Rightarrow> ('t, 'd, 'e) MCSocket \<times> bytes \<Rightarrow> bool" where
  "success_ok E K tr x \<longleftrightarrow>
     (\<exists>t d e login. fst x = Encrypted t d e None \<and> key_agreed E K tr d e \<and>
        login_received K tr login \<and>
        serialize_bytes (cp_write (lp_success K)) (success_for login) = Ok (snd x))"

fun login_frames_ok :: "('t, 'd, 'e, 'tx, 'rx, 'x, 'w) conn_lib \<Rightarrow> 'x login_packets \<Rightarrow>
    ('t, 'd, 'e) MCSocket event list \<Rightarrow> (('t, 'd, 'e) MCSocket \<times> bytes) list \<Rightarrow> bool" where
  "login_frames_ok E K tr [] = True"
| "login_frames_ok E K tr [x] = request_ok K tr x"
| "login_frames_ok E K tr [x, y] = (request_ok K tr x \<and> success_ok E K tr y)"
| "login_frames_ok E K tr (x # y # z # zs) = False"

lemma request_ok_mono: "request_ok K tr x \<Longrightarrow> request_ok K (tr @ evs) x"
  unfolding request_ok_def by fastforce

lemma key_agreed_mono: "key_agreed E K tr d e \<Longrightarrow> key_agreed E K (tr @ evs) d e"
  unfolding key_agreed_def set_append by (elim exE conjE) (intro exI conjI UnI1, assumption+)

lemma success_ok_mono: "success_ok E K tr x \<Longrightarrow> success_ok E K (tr @ evs) x"
  unfolding success_ok_def login_received_def using key_agreed_mono by fastforce

lemma login_frames_ok_mono: "login_frames_ok E K tr fs \<Longrightarrow> login_frames_ok E K (tr @ evs) fs"
  by (cases "(E, K, tr, fs)" rule: login_frames_ok.cases) (auto simp: request_ok_mono success_ok_mono)

section \<open>The handlers\<close>

lemma handle_login_start_safe:
  assumes quiet: "\<And>evs. sents evs = [] \<Longrightarrow> I (tr @ evs)"
    and lib: "\<And>t. I t \<Longrightarrow> P Panic_in_library t"
    and sent: "\<And>token der rx s bs. serialize_bytes (cp_write (lp_request K)) (request_for der token) = Ok bs \<Longrightarrow>
      I (tr @ [Asked (CertificatePublicDer s) rx, Drew token, Reply_bytes rx (Some der),
        Sent (fr_io (la_framer self)) bs])"
    and okay: "\<And>token der rx s bs st1. serialize_bytes (cp_write (lp_request K)) (request_for der token) = Ok bs \<Longrightarrow>
      Q (True, sa_put login_stream st1
          (self\<lparr>la_profile := Some (profile_of login), la_verify_token := Some token\<rparr>))
        (tr @ [Asked (CertificatePublicDer s) rx, Drew token, Reply_bytes rx (Some der),
        Sent (fr_io (la_framer self)) bs])"
    and fail: "\<And>self1 evs. sents evs = [] \<Longrightarrow> Q (False, self1) (tr @ evs)"
  shows "safe (handle_login_start E K login self) tr Q P I"
proof -
  have q0: "I tr" using quiet [of "[]"] by simp
  have f0: "Q (False, self) tr" using fail [of "[]"] by simp
  show ?thesis
    unfolding handle_login_start_def Let_def
    by (intro safe_rules asks_safe await_bytes_safe la.send_self;
        simp add: q0 f0 quiet lib fail okay [unfolded request_for_def profile_of_def]
          sent [unfolded request_for_def])
qed

lemma handle_encryption_response_safe:
  assumes token: "la_verify_token self = Some token"
    and quiet: "\<And>evs. sents evs = [] \<Longrightarrow> I (tr @ evs)"
    and lib: "\<And>t. I t \<Longrightarrow> P Panic_in_library t"
    and short: "\<And>s1 rx1 s2 rx2 secret. length secret < 16 \<Longrightarrow>
      P (Panic_at ''shared_secret[..16]'')
        (tr @ [Asked (Decrypt (er_verify_token resp) s1) rx1, Asked (Decrypt (er_shared_secret resp) s2) rx2,
           Reply_bytes rx1 (Some token), Reply_bytes rx2 (Some secret)])"
    and none: "\<And>evs. sents evs = [] \<Longrightarrow> Q None (tr @ evs)"
    and okay: "\<And>s1 rx1 s2 rx2 secret. 16 \<le> length secret \<Longrightarrow>
      Q (Some (take 16 secret))
        (tr @ [Asked (Decrypt (er_verify_token resp) s1) rx1, Asked (Decrypt (er_shared_secret resp) s2) rx2,
           Reply_bytes rx1 (Some token), Reply_bytes rx2 (Some secret)])"
  shows "safe (handle_encryption_response E resp self) tr Q P I"
proof -
  have q0: "I tr" using quiet [of "[]"] by simp
  have n0: "Q None tr" using none [of "[]"] by simp
  show ?thesis
    unfolding handle_encryption_response_def
    by (intro safe_rules asks_safe await_bytes_safe)
      (auto simp: token slice_to_def q0 n0 quiet lib none okay short not_le split: if_splits)
qed

section \<open>The task\<close>

text \<open>What a login that hands over has seen and sent.\<close>

definition handed_over :: "('t, 'd, 'e, 'tx, 'rx, 'x, 'w) conn_lib \<Rightarrow> 'x login_packets \<Rightarrow>
    ('t, 'd, 'e, 'tx) LoginActor \<Rightarrow> ('t, 'd, 'e, 'tx) ConfigurationActor \<Rightarrow>
    ('t, 'd, 'e) MCSocket event list \<Rightarrow> bool" where
  "handed_over E K self a tr \<longleftrightarrow>
     (\<exists>login p d e. login_received K tr login \<and> key_agreed E K tr d e \<and>
        Received p \<in> set tr \<and> parsed (lp_acknowledged K) (\<lambda>_. Ok () :: (unit, unit) result) p = Some () \<and>
        length (sents tr) = (if is_ok (serialize_bytes (cp_write (lp_success K)) (success_for login)) then 2 else 1) \<and>
        ca_id a = la_id self \<and> ca_client_address a = la_client_address self \<and>
        ca_server a = la_server self \<and> ca_tracker a = la_tracker self \<and>
        ca_profile a = profile_of login)"

definition login_safe :: "('t, 'd, 'e, 'tx, 'rx, 'x, 'w) conn_lib \<Rightarrow> 'x login_packets \<Rightarrow>
    ('t, 'd, 'e) MCSocket event list \<Rightarrow> bool" where
  "login_safe E K tr \<longleftrightarrow> login_frames_ok E K tr (sents tr)"

lemma login_safe_quiet: "sents evs = [] \<Longrightarrow> login_safe E K tr \<Longrightarrow> login_safe E K (tr @ evs)"
  by (simp add: login_safe_def login_frames_ok_mono)

text \<open>Switching the socket over: on success both ciphers come from the key.\<close>

lemma login_encrypt_cases:
  assumes "login_encrypt E key self = (self1, res)"
  shows "is_ok res \<Longrightarrow> \<exists>t d e. prepare_encryption (lib_cipher E) key = Ok (d, e) \<and>
      self1 = sa_put login_stream (FramedParts_new (Encrypted t d e None) (fr_codec (la_framer self))) self"
    and "\<exists>st. self1 = sa_put login_stream st self"
proof -
  have "self1 = sa_put login_stream (la_framer self1) self"
    using assms by (auto simp: login_encrypt_def login_stream_def split: result.splits prod.splits)
  then show "\<exists>st. self1 = sa_put login_stream st self" ..
  show "\<exists>t d e. prepare_encryption (lib_cipher E) key = Ok (d, e) \<and>
      self1 = sa_put login_stream (FramedParts_new (Encrypted t d e None) (fr_codec (la_framer self))) self"
    if "is_ok res"
    using assms that
    by (cases "fr_io (la_framer self)")
      (auto simp: login_encrypt_def login_stream_def split: result.splits prod.splits)
qed

text \<open>The stage after the request: the one frame sent, the profile and the token known.\<close>

definition requested :: "'x login_packets \<Rightarrow> SLoginStart \<Rightarrow> bytes \<Rightarrow> 's event list \<Rightarrow> bool" where
  "requested K login token tr \<longleftrightarrow>
     (\<exists>x. sents tr = [x] \<and> request_ok K tr x \<and> login_received K tr login \<and> Drew token \<in> set tr)"

lemma requested_mono: "requested K login token tr \<Longrightarrow> sents evs = [] \<Longrightarrow> requested K login token (tr @ evs)"
  unfolding requested_def login_received_def by (fastforce intro: request_ok_mono)

lemma requested_safe: "requested K login token tr \<Longrightarrow> login_safe E K tr"
  by (auto simp: requested_def login_safe_def)

lemma request_okI:
  "Asked (CertificatePublicDer q) rx \<in> set tr \<Longrightarrow> Drew token \<in> set tr \<Longrightarrow>
    Reply_bytes rx (Some der) \<in> set tr \<Longrightarrow> serialize_bytes (cp_write (lp_request K)) (request_for der token) = Ok bs \<Longrightarrow> request_ok K tr (s, bs)"
  unfolding request_ok_def by auto

lemma login_start_stage:
  assumes "login_received K tr login" and "sents tr = []"
    and okay: "\<And>token st t. requested K login token t \<Longrightarrow>
      Q (True, sa_put login_stream st
         (self\<lparr>la_profile := Some (profile_of login), la_verify_token := Some token\<rparr>)) t"
    and fail: "\<And>self1 t. login_safe E K t \<Longrightarrow> Q (False, self1) t"
    and lib: "\<And>t. login_safe E K t \<Longrightarrow> P Panic_in_library t"
  shows "safe (handle_login_start E K login self) tr Q P (login_safe E K)"
proof (rule handle_login_start_safe)
  fix token der rx s bs st1
  let ?t = "tr @ [Asked (CertificatePublicDer s) rx, Drew token, Reply_bytes rx (Some der),
    Sent (fr_io (la_framer self)) bs]"
  assume "serialize_bytes (cp_write (lp_request K)) (request_for der token) = Ok bs"
  then have "request_ok K ?t (fr_io (la_framer self), bs)"
    by (intro request_okI [of s rx _ token der]) simp_all
  with assms(1,2) have r: "requested K login token ?t"
    by (auto simp: requested_def login_received_def)
  then show "login_safe E K ?t" by (rule requested_safe)
  from r show "Q (True, sa_put login_stream st1
      (self\<lparr>la_profile := Some (profile_of login), la_verify_token := Some token\<rparr>)) ?t"
    by (rule okay)
qed (use assms(2) in \<open>auto simp: login_safe_def fail lib\<close>)

text \<open>
  The one panic of the code. The trace ends with the two questions about a response that was received,
  the reply to the first, which is the token that was drawn, and the reply to the second, the one
  about the shared secret: it has fewer than 16 bytes.
\<close>

definition secret_too_short :: "'x login_packets \<Rightarrow> 's event list \<Rightarrow> bool" where
  "secret_too_short K tr \<longleftrightarrow>
     (\<exists>u p resp token s1 rx1 s2 rx2 secret.
        tr = u @ [Asked (Decrypt (er_verify_token resp) s1) rx1, Asked (Decrypt (er_shared_secret resp) s2) rx2,
           Reply_bytes rx1 (Some token), Reply_bytes rx2 (Some secret)] \<and>
        Received p \<in> set u \<and> parsed (sp_id (lp_response K)) (sp_read (lp_response K)) p = Some resp \<and>
        Drew token \<in> set u \<and> length secret < 16)"

definition short_secret :: "'x login_packets \<Rightarrow> panic \<Rightarrow> 's event list \<Rightarrow> bool" where
  "short_secret K p tr \<longleftrightarrow> (case p of Panic_in_library \<Rightarrow> True
     | Panic_at place \<Rightarrow> place = ''shared_secret[..16]'' \<and> secret_too_short K tr)"

definition response_received :: "'x login_packets \<Rightarrow> 's event list \<Rightarrow> SEncryptionResponse \<Rightarrow> bool" where
  "response_received K tr resp \<longleftrightarrow>
     (\<exists>p. Received p \<in> set tr \<and> parsed (sp_id (lp_response K)) (sp_read (lp_response K)) p = Some resp)"

definition key_ok :: "('t, 'd, 'e, 'tx, 'rx, 'x, 'w) conn_lib \<Rightarrow> 'x login_packets \<Rightarrow> bytes \<Rightarrow>
    's event list \<Rightarrow> bool" where
  "key_ok E K key tr \<longleftrightarrow>
     (\<forall>d e. prepare_encryption (lib_cipher E) key = Ok (d, e) \<longrightarrow> key_agreed E K tr d e)"

lemma login_response_stage:
  assumes r: "requested K login token tr" and p: "response_received K tr resp"
    and tok: "la_verify_token self = Some token"
    and okay: "\<And>key t. requested K login token t \<Longrightarrow> key_ok E K key t \<Longrightarrow> Q (Some key) t"
    and fail: "\<And>t. login_safe E K t \<Longrightarrow> Q None t"
    and panic: "\<And>p t. login_safe E K t \<Longrightarrow> short_secret K p t \<Longrightarrow> P p t"
  shows "safe (handle_encryption_response E resp self) tr Q P (login_safe E K)"
proof (rule handle_encryption_response_safe [OF tok])
  fix s1 rx1 s2 rx2 secret
  let ?evs = "[Asked (Decrypt (er_verify_token resp) s1) rx1, Asked (Decrypt (er_shared_secret resp) s2) rx2,
     Reply_bytes rx1 (Some token), Reply_bytes rx2 (Some secret)]"
  assume long: "16 \<le> length secret"
  from p obtain p where p: "Received p \<in> set tr"
    "parsed (sp_id (lp_response K)) (sp_read (lp_response K)) p = Some resp"
    unfolding response_received_def by blast
  show "Q (Some (take 16 secret)) (tr @ ?evs)"
  proof (rule okay)
    show "requested K login token (tr @ ?evs)" using requested_mono [OF r] by simp
    have "key_agreed E K (tr @ ?evs) d e"
      if "prepare_encryption (lib_cipher E) (take 16 secret) = Ok (d, e)" for d e
      unfolding key_agreed_def using r p long that
      by (intro exI [of _ p] exI [of _ resp] exI [of _ token] exI [of _ secret]
          exI [of _ s1] exI [of _ rx1] exI [of _ s2] exI [of _ rx2]) (auto simp: requested_def)
    then show "key_ok E K (take 16 secret) (tr @ ?evs)" by (simp add: key_ok_def)
  qed
next
  fix s1 rx1 s2 rx2 and secret :: bytes
  assume "length secret < 16"
  with r p have "secret_too_short K (tr @ [Asked (Decrypt (er_verify_token resp) s1) rx1,
      Asked (Decrypt (er_shared_secret resp) s2) rx2, Reply_bytes rx1 (Some token), Reply_bytes rx2 (Some secret)])"
    unfolding secret_too_short_def requested_def response_received_def by blast
  then show "P (Panic_at ''shared_secret[..16]'') (tr @ [Asked (Decrypt (er_verify_token resp) s1) rx1,
      Asked (Decrypt (er_shared_secret resp) s2) rx2, Reply_bytes rx1 (Some token), Reply_bytes rx2 (Some secret)])"
    by (intro panic requested_safe [OF requested_mono [OF r]]) (simp_all add: short_secret_def)
qed (auto intro!: fail panic requested_safe [OF requested_mono [OF r]] simp: short_secret_def)

lemma stop_safe:
  assumes "login_safe E K tr" and "\<And>t. login_safe E K t \<Longrightarrow> Q None t" and "\<And>t. login_safe E K t \<Longrightarrow> P Panic_in_library t"
  shows "safe (bind_task (shutdown (lib_mc E) login_stream self) (\<lambda>_. ret None)) tr Q P (login_safe E K)"
  by (intro safe_bind la.shutdown_self) (simp_all add: assms login_safe_quiet)

lemma short_secret_lib [simp]: "short_secret K Panic_in_library t"
  by (simp add: short_secret_def)

lemma received_start:
  "parsed (sp_id (lp_start K)) (sp_read (lp_start K)) p = Some login \<Longrightarrow> Received p \<in> set tr \<Longrightarrow>
    login_received K tr login"
  unfolding login_received_def by blast

lemma received_response:
  "parsed (sp_id (lp_response K)) (sp_read (lp_response K)) p = Some resp \<Longrightarrow> Received p \<in> set tr \<Longrightarrow>
    response_received K tr resp"
  unfolding response_received_def by blast

lemma requested_tail [simp]: "requested K login token t \<Longrightarrow> requested K login token (t @ [Received p])"
  by (simp add: requested_mono)

lemma login_safe_start [simp]: "login_safe E K []" "login_safe E K [Received p]"
  by (simp_all add: login_safe_def)

text \<open>The stage after the success packet: both frames sent.\<close>

definition succeeded :: "('t, 'd, 'e, 'tx, 'rx, 'x, 'w) conn_lib \<Rightarrow> 'x login_packets \<Rightarrow> SLoginStart \<Rightarrow>
    ('t, 'd, 'e) MCSocket event list \<Rightarrow> bool" where
  "succeeded E K login tr \<longleftrightarrow>
     (\<exists>x y. sents tr = [x, y] \<and> request_ok K tr x \<and> success_ok E K tr y \<and> login_received K tr login)"

lemma succeeded_mono: "succeeded E K login tr \<Longrightarrow> sents evs = [] \<Longrightarrow> succeeded E K login (tr @ evs)"
  unfolding succeeded_def login_received_def by (fastforce intro: request_ok_mono success_ok_mono)

lemma succeeded_safe: "succeeded E K login tr \<Longrightarrow> login_safe E K tr"
  by (auto simp: succeeded_def login_safe_def)

lemma login_encrypt_fields:
  assumes "login_encrypt E key self = (self1, res)"
  shows "la_profile self1 = la_profile self" "la_id self1 = la_id self" "la_server self1 = la_server self"
    "la_tracker self1 = la_tracker self" "la_client_address self1 = la_client_address self"
  using login_encrypt_cases(2) [OF assms] by auto

lemma success_sent:
  assumes r: "requested K login token tr"
    and agreed: "key_ok E K key tr"
    and enc: "login_encrypt E key self = (self1, res)" "is_ok res"
    and ser: "serialize_bytes (cp_write (lp_success K)) (success_for login) = Ok bs"
    and evs: "sents evs = []"
  shows "succeeded E K login (tr @ Sent (fr_io (la_framer self1)) bs # evs)"
proof -
  obtain t d e where p: "prepare_encryption (lib_cipher E) key = Ok (d, e)"
    and s: "fr_io (la_framer self1) = Encrypted t d e None"
    using login_encrypt_cases(1) [OF enc] by (auto simp: FramedParts_new_def)
  have "login_received K tr login" using r by (auto simp: requested_def)
  with agreed p s ser have "success_ok E K tr (fr_io (la_framer self1), bs)"
    unfolding success_ok_def key_ok_def by auto
  with r evs show ?thesis
    unfolding succeeded_def requested_def login_received_def
    by (auto intro: request_ok_mono success_ok_mono)
qed

lemma key_ok_agreed:
  assumes "key_ok E K key tr" and "login_encrypt E key self = (self1, res)" and "is_ok res"
  shows "\<exists>d e. key_agreed E K tr d e"
  using login_encrypt_cases(1) [OF assms(2,3)] assms(1) unfolding key_ok_def by blast

lemma handed_over_sent:
  assumes "requested K login token tr" and "key_ok E K key tr"
    and "login_encrypt E key self3 = (self4, res)" and "is_ok res"
    and "parsed (lp_acknowledged K) (\<lambda>_. Ok () :: (unit, unit) result) p = Some ()"
    and "sents evs = []" and "Received p \<in> set evs"
    and "fs = (case serialize_bytes (cp_write (lp_success K)) (success_for login) of
           Ok bs \<Rightarrow> [Sent s bs] | Err e \<Rightarrow> [])"
    and "ca_id a = la_id self" "ca_client_address a = la_client_address self"
    "ca_server a = la_server self" "ca_tracker a = la_tracker self" "ca_profile a = profile_of login"
  shows "handed_over E K self a (tr @ fs @ evs)"
proof -
  obtain d e where "key_agreed E K tr d e" using key_ok_agreed [OF assms(2-4)] by blast
  then have "key_agreed E K (tr @ fs @ evs) d e" by (rule key_agreed_mono)
  with assms show ?thesis
    unfolding handed_over_def
    by (intro exI [of _ login] exI [of _ p] exI [of _ d] exI [of _ e])
      (auto simp: requested_def login_received_def split: result.splits)
qed

lemma success_for_profile [simp]:
  "\<lparr>lg_uuid = gp_id (profile_of l), lg_username = gp_name (profile_of l), lg_properties = []\<rparr> = success_for l"
  by (simp add: profile_of_def success_for_def)

text \<open>The rules, one per step of the task; every branch of it ends in one of them.\<close>

lemmas login_rules = stop_safe safe_bind safe_case_prod safe_if safe_case_option safe_lift_run safe_emit
  la.read_self la.read_empty_self la.send_self login_start_stage login_response_stage

lemma login_run_safe:
  "safe (login_run E K self) []
    (\<lambda>res t. login_safe E K t \<and> (\<forall>a. res = Some a \<longrightarrow> handed_over E K self a t))
    (\<lambda>p t. login_safe E K t \<and> short_secret K p t) (login_safe E K)"
  unfolding login_run_def Let_def configuration_spawn_def
  apply (intro login_rules)
  apply (auto simp: login_encrypt_fields received_start received_response profile_of_def [symmetric] intro: login_safe_quiet requested_safe requested_tail succeeded_safe [OF success_sent])
  subgoal by (rule handed_over_sent [where fs = "[Sent s bs]" for s bs, simplified]; assumption?; simp)
  subgoal by (rule handed_over_sent [where fs = "[]", simplified]; assumption?; simp)
  done

end
