(* ===== verification/Leb128.thy ===== *)
theory Leb128
  imports Net
begin

text \<open>
  A concrete instance of the library parameters of the codec, so that its hypotheses are known to
  be satisfiable and its properties can be evaluated: numbers in little-endian groups of seven
  bits, the top bit of a byte telling that another follows, at most five bytes. It is the
  variable-length integer of the Minecraft protocol; no definition of the model depends on it.
\<close>

fun leb_put :: "nat \<Rightarrow> bytes" where
  "leb_put n = (if n < 128 then [of_nat n] else of_nat (n mod 128 + 128) # leb_put (n div 128))"

declare leb_put.simps [simp del]

fun leb_get :: "nat \<Rightarrow> bytes \<Rightarrow> (nat \<times> nat, NetTypesError) result \<times> bytes" where
  "leb_get 0 bs = (Err (NotIo ''InvalidVarInt''), bs)"
| "leb_get (Suc f) [] = (Err (Io ''UnexpectedEof''), [])"
| "leb_get (Suc f) (b # bs) =
     (if unat b < 128 then (Ok (unat b, 1), bs)
      else case leb_get f bs of
          (Ok (v, k), r) \<Rightarrow> (Ok (unat b - 128 + 128 * v, Suc k), r)
        | (Err e, r) \<Rightarrow> (Err e, r))"

definition leb_read :: "bytes \<Rightarrow> (VarInt, NetTypesError) result \<times> bytes" where
  "leb_read bs = (case leb_get 5 bs of
       (Ok (v, k), r) \<Rightarrow> (Ok \<lparr>vi_val = of_nat v, vi_len = of_nat k\<rparr>, r)
     | (Err e, r) \<Rightarrow> (Err e, r))"

definition leb_from :: "usize \<Rightarrow> VarInt" where
  "leb_from n = \<lparr>vi_val = usize_as_i32 n,
     vi_len = of_nat (length (leb_put (unat (usize_as_i32 n))))\<rparr>"

definition leb_lib :: net_lib where
  "leb_lib = \<lparr>vi_read = leb_read, vi_from = leb_from,
     vi_write = (\<lambda>v. (leb_put (unat (vi_val v)), Ok ())),
     can_reserve = (\<lambda>l n. l + n \<le> isize_max)\<rparr>"

lemma leb_put_nonempty [simp]: "leb_put n \<noteq> []"
  by (subst leb_put.simps) simp

lemma leb_put_length: "n < 128 ^ f \<Longrightarrow> f \<noteq> 0 \<Longrightarrow> length (leb_put n) \<le> f"
proof (induction f arbitrary: n)
  case (Suc f)
  show ?case
  proof (cases "n < 128")
    case True
    then show ?thesis by (simp add: leb_put.simps [of n])
  next
    case False
    with Suc.prems have "n div 128 < 128 ^ f" and "f \<noteq> 0" by (auto intro: gr0I)
    with Suc.IH False show ?thesis by (simp add: leb_put.simps [of n])
  qed
qed simp

lemma leb_get_put:
  "n < 128 ^ f \<Longrightarrow> f \<noteq> 0 \<Longrightarrow> leb_get f (leb_put n @ bs) = (Ok (n, length (leb_put n)), bs)"
proof (induction f arbitrary: n)
  case (Suc f)
  show ?case
  proof (cases "n < 128")
    case True
    then show ?thesis by (simp add: leb_put.simps [of n] unat_of_nat)
  next
    case False
    with Suc.prems have "n div 128 < 128 ^ f" and "f \<noteq> 0" by (auto intro: gr0I)
    then have "leb_get f (leb_put (n div 128) @ bs) = (Ok (n div 128, length (leb_put (n div 128))), bs)"
      by (rule Suc.IH)
    moreover have "unat (of_nat (n mod 128 + 128) :: u8) = n mod 128 + 128"
      by (subst unat_of_nat) (simp add: less_imp_le)
    ultimately show ?thesis using False by (simp add: leb_put.simps [of n] del: of_nat_add)
  qed
qed simp

lemma leb_get_part:
  "n < 128 ^ f \<Longrightarrow> f \<noteq> 0 \<Longrightarrow> k < length (leb_put n) \<Longrightarrow>
     leb_get f (take k (leb_put n)) = (Err (Io ''UnexpectedEof''), [])"
proof (induction f arbitrary: n k)
  case (Suc f)
  show ?case
  proof (cases "k = 0 \<or> n < 128")
    case True
    with Suc.prems show ?thesis by (auto simp: leb_put.simps [of n])
  next
    case False
    then obtain j where k: "k = Suc j" by (cases k) auto
    from False Suc.prems have "n div 128 < 128 ^ f" and "f \<noteq> 0" by (auto intro: gr0I)
    moreover have "j < length (leb_put (n div 128))"
      using Suc.prems(3) False k by (simp add: leb_put.simps [of n])
    ultimately have "leb_get f (take j (leb_put (n div 128))) = (Err (Io ''UnexpectedEof''), [])"
      by (rule Suc.IH)
    moreover have "unat (of_nat (n mod 128 + 128) :: u8) = n mod 128 + 128"
      by (subst unat_of_nat) (simp add: less_imp_le)
    ultimately show ?thesis using False k by (simp add: leb_put.simps [of n] del: of_nat_add)
  qed
qed simp

lemma leb_get_OkD:
  "leb_get f bs = (Ok (v, k), r) \<Longrightarrow>
     1 \<le> k \<and> k \<le> f \<and> k \<le> length bs \<and> r = drop k bs \<and> leb_get f (bs @ zs) = (Ok (v, k), r @ zs)"
proof (induction f bs arbitrary: v k r rule: leb_get.induct)
  case (3 f b bs)
  show ?case
  proof (cases "unat b < 128")
    case True
    with "3.prems" show ?thesis by auto
  next
    case False
    obtain o1 r1 where g: "leb_get f bs = (o1, r1)" by (cases "leb_get f bs")
    show ?thesis
    proof (cases o1)
      case (Ok vk)
      then obtain v1 k1 where "o1 = Ok (v1, k1)" by (cases vk) auto
      with "3.IH" [OF False, of v1 k1 r1] "3.prems" g False show ?thesis by auto
    qed (use "3.prems" g False in simp)
  qed
qed auto

lemma unat_i32_less: "unat (n :: i32) < 128 ^ 5"
  using unsigned_less [of n, where ?'a = nat] by simp

lemma unat_small_len: "k \<le> 5 \<Longrightarrow> unat (of_nat k :: usize) = k"
  by (simp add: unat_of_nat)

lemma leb_varint_writes: "varint_writes leb_lib"
  unfolding varint_writes_def
proof (intro allI conjI impI)
  fix n :: usize
  let ?w = "leb_put (unat (usize_as_i32 n))"
  have w: "length ?w \<le> 5" by (rule leb_put_length) (use unat_i32_less in auto)
  show "vi_val (vi_from leb_lib n) = usize_as_i32 n"
    and "snd (vi_write leb_lib (vi_from leb_lib n)) = Ok ()"
    by (simp_all add: leb_lib_def leb_from_def)
  show "length (fst (vi_write leb_lib (vi_from leb_lib n))) = unat (vi_len (vi_from leb_lib n))"
    using w by (simp add: leb_lib_def leb_from_def unat_small_len)
  show "vi_read leb_lib (fst (vi_write leb_lib (vi_from leb_lib n)) @ rest) =
      (Ok (vi_from leb_lib n), rest)" for rest
    by (simp add: leb_lib_def leb_from_def leb_read_def leb_get_put [OF unat_i32_less])
  show "\<exists>m r. vi_read leb_lib (take k (fst (vi_write leb_lib (vi_from leb_lib n)))) = (Err (Io m), r)"
    if "k < length (fst (vi_write leb_lib (vi_from leb_lib n)))" for k
    using that leb_get_part [OF unat_i32_less, of k]
    by (simp add: leb_lib_def leb_from_def leb_read_def)
qed

lemma leb_varint_reads: "varint_reads leb_lib"
  unfolding varint_reads_def
proof (intro allI impI)
  fix bs v r zs
  assume "vi_read leb_lib bs = (Ok v, r)"
  then obtain m k where "leb_get 5 bs = (Ok (m, k), r)"
    and v: "v = \<lparr>vi_val = of_nat m, vi_len = of_nat k\<rparr>"
    by (auto simp: leb_lib_def leb_read_def split: prod.splits result.splits)
  from leb_get_OkD [OF this(1), of zs]
  show "1 \<le> unat (vi_len v) \<and> unat (vi_len v) \<le> 5 \<and> unat (vi_len v) \<le> length bs \<and>
      r = drop (unat (vi_len v)) bs \<and> vi_read leb_lib (bs @ zs) = (Ok v, r @ zs)"
    by (simp add: v unat_small_len leb_lib_def leb_read_def)
qed

lemma net_ok_leb: "net_ok leb_lib"
  unfolding net_ok_def
  by (simp add: leb_varint_writes leb_varint_reads) (simp add: reserve_checks_def leb_lib_def)

lemma varint_bytes_leb: "varint_bytes leb_lib n = leb_put (unat (usize_as_i32 n))"
  by (simp add: varint_bytes_def leb_lib_def leb_from_def)

text \<open>Evaluation of small numbers, which take one byte.\<close>

lemma leb_put_small: "n < 128 \<Longrightarrow> leb_put n = [of_nat n]"
  by (simp add: leb_put.simps [of n])

lemma leb_read_small: "unat b < 128 \<Longrightarrow> leb_read (b # bs) = (Ok \<lparr>vi_val = of_nat (unat b), vi_len = 1\<rparr>, bs)"
  by (simp add: leb_read_def numeral_eq_Suc)

lemma leb_read_Nil: "leb_read [] = (Err (Io ''UnexpectedEof''), [])"
  by (simp add: leb_read_def numeral_eq_Suc)

lemma packet_data_leb: "packet_data leb_lib p = leb_put (unat (rp_id p)) @ rp_payload p"
  by (simp add: packet_data_def varint_bytes_leb)

lemma frame_bytes_leb:
  assumes "length (packet_data leb_lib p) < 128"
  shows "frame_bytes leb_lib p = of_nat (length (packet_data leb_lib p)) # packet_data leb_lib p"
proof -
  let ?n = "length (packet_data leb_lib p)"
  have "unat (usize_as_i32 (of_nat ?n)) = ?n"
    using assms by (simp add: usize_as_i32_of_nat unat_of_nat)
  with assms show ?thesis by (simp add: frame_bytes_def varint_bytes_leb leb_put_small)
qed

lemmas leb_eval = leb_put_small leb_read_small leb_read_Nil packet_data_leb frame_bytes_leb
  fits_frame_def isize_max_def decode_limit_def

end
