(* ===== verification/Login_Theorems.thy ===== *)
theory Login_Theorems
  imports Login_Correct Scripted Leb128
begin

text \<open>The properties of the login state, with their witnesses in a scripted environment.\<close>

section \<open>A scripted login\<close>

text \<open>Packets of one field each, and a client that answers as it should, with the given secret.\<close>

definition script_login :: "unit login_packets" where
  "script_login = \<lparr>
     lp_start = \<lparr>sp_id = 0, sp_read = (\<lambda>bs. Ok \<lparr>ls_name = ''Steve'', ls_uuid = 7\<rparr>)\<rparr>,
     lp_request = \<lparr>cp_id = 1, cp_write = (\<lambda>p. (rq_verify_token p @ rq_public_key p, Ok ()))\<rparr>,
     lp_response = \<lparr>sp_id = 1, sp_read = (\<lambda>bs. Ok \<lparr>er_shared_secret = bs, er_verify_token = [9]\<rparr>)\<rparr>,
     lp_success = \<lparr>cp_id = 2, cp_write = (\<lambda>p. ([2], Ok ()))\<rparr>,
     lp_acknowledged = 3\<rparr>"

definition script_login_actor :: "(unit, bytes \<times> bytes, bytes \<times> bytes, unit) LoginActor" where
  "script_login_actor = login_actor 5 ''peer'' (FramedParts_new () MCCodec_new) 1 \<lparr>srv_sender = ()\<rparr>"

definition script_login_world :: "bytes \<Rightarrow> script_world" where
  "script_login_world secret = script_world0\<lparr>
     sw_frames := [packet_in 0 [], packet_in 1 [8], packet_in 3 []],
     sw_bytes := [Some [30, 31], Some [1, 2, 3, 4], Some secret], sw_tokens := [[1, 2, 3, 4]]\<rparr>"

lemmas login_eval = script_eval script_login_def script_login_actor_def script_login_world_def login_actor_def
  login_run_def handle_login_start_def handle_encryption_response_def login_encrypt_def configuration_spawn_def
  prepare_encryption_def cfb_lib_def slice_to_def MCSocket_new_def login_stream_def

definition key7 :: bytes where
  "key7 = replicate 16 7"

definition login_outcome ::
  "((unit, bytes \<times> bytes, bytes \<times> bytes, unit) ConfigurationActor option,
    ((unit, bytes \<times> bytes, bytes \<times> bytes) MCSocket event, script_world) ctx) outcome" where
  "login_outcome = login_run script_env script_login script_login_actor (start_in (script_login_world key7))"

lemma login_outcome_eval:
  "\<exists>a c1. login_outcome = Done (Some a) c1 \<and> ca_profile a = profile_of \<lparr>ls_name = ''Steve'', ls_uuid = 7\<rparr> \<and>
     sents (cx_trace c1) = [(Cleartext (), [1, 2, 3, 4, 30, 31]), (Encrypted () (key7, key7) (key7, key7) None, [2])]"
  by (simp add: login_outcome_def login_eval key7_def profile_of_def Let_def)

lemma login_outcome_short:
  "\<exists>c1. login_run script_env script_login script_login_actor (start_in (script_login_world [1, 2, 3])) =
     Panicked (Panic_at ''shared_secret[..16]'') c1 \<and> last (cx_trace c1) = Reply_bytes 2 (Some [1, 2, 3]) \<and>
     Asked (Decrypt [8] 2) 2 \<in> set (cx_trace c1)"
  by (simp add: login_eval Let_def)

section \<open>Properties\<close>

text \<open>
  C2: The login keeps its secrets. In every environment, whether the login finishes, panics or is
  stuck at an await, it has sent at most two frames. The first is the encryption request, with the
  token drawn and a key the server gave. The second is the login success of the player that asked to
  log in; it goes to an encrypted socket whose two ciphers were made from the first 16 bytes of the
  secret the server decrypted, and only after the server decrypted the client's token to the one
  drawn.
\<close>

theorem login_sends_success_encrypted:
  assumes "cx_trace c = []"
  shows "login_frames_ok E K (trace_of (login_run E K self c)) (sents (trace_of (login_run E K self c)))"
proof -
  have "safe (login_run E K self) [] (\<lambda>_. login_safe E K) (\<lambda>_. login_safe E K) (login_safe E K)"
    by (rule safe_mono [OF login_run_safe]) auto
  from safe_trace [OF this assms] show ?thesis by (simp add: login_safe_def)
qed

theorem login_sends_success_encrypted_witness:
  "login_frames_ok script_env script_login (trace_of login_outcome) (sents (trace_of login_outcome)) \<and>
     length (sents (trace_of login_outcome)) = 2"
  using login_sends_success_encrypted [of "start_in (script_login_world key7)" script_env script_login script_login_actor]
    login_outcome_eval
  by (auto simp: login_outcome_def)

text \<open>
  C17: A login that hands over to the configuration state has received the start, agreed on the key,
  sent both frames (the second unless it could not be serialised) and received the acknowledgement;
  the configuration actor carries over the id, the address, the server and the tracker, and the
  profile is that of the start packet.
\<close>

theorem login_hands_over_authenticated:
  assumes "cx_trace c = []" and "login_run E K self c = Done (Some a) c1"
  shows "handed_over E K self a (cx_trace c1)"
  using safe_cases(1) [OF login_run_safe assms] by blast

theorem login_hands_over_authenticated_witness:
  "\<exists>a c1. login_outcome = Done (Some a) c1 \<and> handed_over script_env script_login script_login_actor a (cx_trace c1)"
  using login_outcome_eval
    login_hands_over_authenticated [of "start_in (script_login_world key7)" script_env script_login script_login_actor]
  by (fastforce simp: login_outcome_def)

text \<open>
  C29: An honest client is logged in. When its login start, its response and its acknowledgement arrive
  within five seconds each, the server takes the three questions and replies with its key, the token
  that was drawn and a secret of at least 16 bytes, and both packets can be written, then the task
  finishes. It has sent exactly the request and, over the socket encrypted with the agreed key, the
  success, and it hands its stream over to the configuration state with the player's profile,
  whether or not the stream reported errors on sending.
\<close>

theorem honest_client_logs_in:
  assumes start: "fl_next (lib_mc E) (la_framer self) (cx_env c) = After t1 (Done (Some (Ok p1), fr1) w1)" "t1 < 5000"
      "rp_id p1 = sp_id (lp_start K)" "sp_read (lp_start K) (rp_payload p1) = Ok login"
    and key: "\<not> mp_waits (lib_mpsc E) (srv_sender (la_server self)) w1"
      "server_ask (lib_mpsc E) (la_server self) CertificatePublicDer w1 = (Ok rx0, w2)"
      "rand_token (lib_reply E) w2 = (token, w3)" "recv_bytes (lib_reply E) rx0 w3 = Done (Some der) w4"
    and request: "serialize_bytes (cp_write (lp_request K)) (request_for der token) = Ok b1"
      "fl_send (lib_mc E) b1 fr1 w4 = Done (r1, fr2) w5"
    and response: "fl_next (lib_mc E) fr2 w5 = After t2 (Done (Some (Ok p2), fr3) w6)" "t2 < 5000"
      "rp_id p2 = sp_id (lp_response K)" "sp_read (lp_response K) (rp_payload p2) = Ok resp"
    and asks: "\<not> mp_waits (lib_mpsc E) (srv_sender (la_server self)) w6"
      "server_ask (lib_mpsc E) (la_server self) (Decrypt (er_verify_token resp)) w6 = (Ok rx1, w7)"
      "\<not> mp_waits (lib_mpsc E) (srv_sender (la_server self)) w7"
      "server_ask (lib_mpsc E) (la_server self) (Decrypt (er_shared_secret resp)) w7 = (Ok rx2, w8)"
    and replies: "recv_bytes (lib_reply E) rx1 w8 = Done (Some token) w9"
      "recv_bytes (lib_reply E) rx2 w9 = Done (Some secret) w10" "16 \<le> length secret"
    and switch: "prepare_encryption (lib_cipher E) (take 16 secret) = Ok (d, e)" "fr_io fr3 = Cleartext tcp"
    and success: "serialize_bytes (cp_write (lp_success K)) (success_for login) = Ok b2"
      "fl_send (lib_mc E) b2 (FramedParts_new (Encrypted tcp d e None) (fr_codec fr3)) w10 = Done (r2, fr4) w11"
    and ack: "fl_next (lib_mc E) fr4 w11 = After t3 (Done (Some (Ok p3), fr5) w12)" "t3 < 5000"
      "rp_id p3 = lp_acknowledged K"
  shows "\<exists>a c1. login_run E K self c = Done (Some a) c1 \<and> ca_framer a = fr5 \<and> ca_profile a = profile_of login \<and>
    sents (cx_trace c1) = sents (cx_trace c) @ [(fr_io fr1, b1), (Encrypted tcp d e None, b2)]"
  using assms unfolding request_for_def success_for_def
  by (simp add: login_run_def handle_login_start_def handle_encryption_response_def Let_def task_eval
      perform_def lift_run_def read_empty_def read_def read_custom_def next_frame_with_timeout_def
      next_frame_def await_bytes_def send_def send_bytes_def asks_def configuration_spawn_def
      login_stream_def login_encrypt_def slice_to_def profile_of_def FramedParts_new_def cong: task_congs)

theorem honest_client_logs_in_witness:
  "\<exists>a c1. login_run script_env script_login script_login_actor (start_in (script_login_world key7)) = Done (Some a) c1 \<and>
     ca_profile a = profile_of \<lparr>ls_name = ''Steve'', ls_uuid = 7\<rparr> \<and>
     sents (cx_trace c1) = [(Cleartext (), [1, 2, 3, 4, 30, 31]), (Encrypted () (key7, key7) (key7, key7) None, [2])]"
proof -
  let ?w = "\<lambda>fs bs ts ms n. script_world0\<lparr>sw_frames := fs, sw_bytes := bs, sw_tokens := ts, sw_mailbox := ms, sw_next := n\<rparr>"
  let ?f = "[packet_in 1 [8], packet_in 3 []]" and ?b = "[Some [1, 2, 3, 4], Some key7]"
    and ?m = "[CertificatePublicDer 0]" and ?t = "[[1, 2, 3, 4]] :: bytes list"
  show ?thesis
    using honest_client_logs_in [where E = script_env and K = script_login and self = script_login_actor and
        c = "start_in (script_login_world key7)" and ?t1.0 = 10 and ?t2.0 = 10 and ?t3.0 = 10 and
        ?p1.0 = "\<lparr>rp_id = 0, rp_payload = []\<rparr>" and ?p2.0 = "\<lparr>rp_id = 1, rp_payload = [8]\<rparr>" and
        ?p3.0 = "\<lparr>rp_id = 3, rp_payload = []\<rparr>" and login = "\<lparr>ls_name = ''Steve'', ls_uuid = 7\<rparr>" and
        resp = "\<lparr>er_shared_secret = [8], er_verify_token = [9]\<rparr>" and
        ?fr1.0 = "FramedParts_new (Cleartext ()) MCCodec_new" and ?fr2.0 = "FramedParts_new (Cleartext ()) MCCodec_new" and
        ?fr3.0 = "FramedParts_new (Cleartext ()) MCCodec_new" and
        ?fr4.0 = "FramedParts_new (Encrypted () (key7, key7) (key7, key7) None) MCCodec_new" and
        ?fr5.0 = "FramedParts_new (Encrypted () (key7, key7) (key7, key7) None) MCCodec_new" and
        ?rx0.0 = 0 and ?rx1.0 = 1 and ?rx2.0 = 2 and token = "[1, 2, 3, 4]" and der = "[30, 31]" and secret = key7 and
        d = "(key7, key7)" and e = "(key7, key7)" and tcp = "()" and ?b1.0 = "[1, 2, 3, 4, 30, 31]" and ?b2.0 = "[2]" and
        ?r1.0 = "Ok ()" and ?r2.0 = "Ok ()" and
        ?w1.0 = "?w ?f (Some [30, 31] # ?b) ?t [] 0" and ?w2.0 = "?w ?f (Some [30, 31] # ?b) ?t ?m 1" and
        ?w3.0 = "?w ?f (Some [30, 31] # ?b) [] ?m 1" and ?w4.0 = "?w ?f ?b [] ?m 1" and ?w5.0 = "?w ?f ?b [] ?m 1" and
        ?w6.0 = "?w (tl ?f) ?b [] ?m 1" and ?w7.0 = "?w (tl ?f) ?b [] (?m @ [Decrypt [9] 1]) 2" and
        ?w8.0 = "?w (tl ?f) ?b [] (?m @ [Decrypt [9] 1, Decrypt [8] 2]) 3" and
        ?w9.0 = "?w (tl ?f) (tl ?b) [] (?m @ [Decrypt [9] 1, Decrypt [8] 2]) 3" and
        ?w10.0 = "?w (tl ?f) [] [] (?m @ [Decrypt [9] 1, Decrypt [8] 2]) 3" and
        ?w11.0 = "?w (tl ?f) [] [] (?m @ [Decrypt [9] 1, Decrypt [8] 2]) 3" and
        ?w12.0 = "?w [] [] [] (?m @ [Decrypt [9] 1, Decrypt [8] 2]) 3"]
    by (simp add: script_framed_def script_mpsc_def script_reply_def script_env_def script_world0_def start_in_def
        packet_in_def server_ask_def server_send_def ask_def serialize_bytes_def script_login_def
        script_login_actor_def script_login_world_def login_actor_def FramedParts_new_def MCSocket_new_def
        prepare_encryption_def cfb_lib_def key7_def request_for_def success_for_def) blast
qed

text \<open>
  C28: The one way the login's own code panics, in every environment: the client's response was received,
  its token was decrypted to the one drawn, and then the very last thing the actor saw is the reply to
  its question about the shared secret of that response, and this reply has fewer than 16 bytes. Neither
  the unwrap of the token nor that of the profile can fail. (A panic inside a call of a library or of the
  framed stream is not one of the login's own code.)
\<close>

theorem login_panics_only_on_short_secret:
  assumes "cx_trace c = []" and "login_run E K self c = Panicked (Panic_at place) c1"
  shows "place = ''shared_secret[..16]'' \<and> secret_too_short K (cx_trace c1)"
  using safe_cases(2) [OF login_run_safe assms] by (simp add: short_secret_def)

theorem login_panics_only_on_short_secret_witness:
  "\<exists>c1. login_run script_env script_login script_login_actor (start_in (script_login_world [1, 2, 3])) =
      Panicked (Panic_at ''shared_secret[..16]'') c1 \<and>
    secret_too_short script_login (cx_trace c1) \<and> last (cx_trace c1) = Reply_bytes 2 (Some [1, 2, 3]) \<and>
    Asked (Decrypt [8] 2) 2 \<in> set (cx_trace c1)"
  using login_outcome_short
    login_panics_only_on_short_secret [of "start_in (script_login_world [1, 2, 3])" script_env script_login script_login_actor]
  by fastforce

text \<open>
  What the encryption response comes to, given what the server decrypts: another token than the
  one sent, or none, ends the login; so does a secret that does not decrypt; a secret of fewer than
  16 bytes panics the task; otherwise the key is its first 16 bytes. The mailbox then holds the two
  requests, in this order.
\<close>

theorem encryption_response_result:
  assumes "la_verify_token self = Some expected"
    and "\<not> mp_waits (lib_mpsc E) (srv_sender (la_server self)) (cx_env c)"
    and "server_ask (lib_mpsc E) (la_server self) (Decrypt (er_verify_token resp)) (cx_env c) = (Ok rx1, w1)"
    and "\<not> mp_waits (lib_mpsc E) (srv_sender (la_server self)) w1"
    and "server_ask (lib_mpsc E) (la_server self) (Decrypt (er_shared_secret resp)) w1 = (Ok rx2, w2)"
    and "recv_bytes (lib_reply E) rx1 w2 = Done token w3"
    and "recv_bytes (lib_reply E) rx2 w3 = Done secret w4"
  shows "\<exists>c1. handle_encryption_response E resp self c =
    (if token \<noteq> Some expected then Done None c1
     else case secret of
         None \<Rightarrow> Done None c1
       | Some s \<Rightarrow> if length s < 16 then Panicked (Panic_at ''shared_secret[..16]'') c1
                   else Done (Some (take 16 s)) c1)"
  using assms
  by (cases token; cases secret)
    (simp_all add: handle_encryption_response_def asks_def await_bytes_def task_eval perform_def
      lift_run_def slice_to_def Let_def not_le)

theorem encryption_response_result_witness:
  "\<exists>c1. handle_encryption_response script_env \<lparr>er_shared_secret = [8], er_verify_token = [9]\<rparr>
      (script_login_actor\<lparr>la_verify_token := Some [1, 2, 3, 4]\<rparr>)
      (start_in (script_world0\<lparr>sw_bytes := [Some [1, 2, 3, 4], Some [5, 6]]\<rparr>)) =
    Panicked (Panic_at ''shared_secret[..16]'') c1"
  using encryption_response_result [of "script_login_actor\<lparr>la_verify_token := Some [1, 2, 3, 4]\<rparr>" "[1, 2, 3, 4]"
      script_env "start_in (script_world0\<lparr>sw_bytes := [Some [1, 2, 3, 4], Some [5, 6]]\<rparr>)"
      "\<lparr>er_shared_secret = [8], er_verify_token = [9]\<rparr>" 0
      "script_world0\<lparr>sw_bytes := [Some [1, 2, 3, 4], Some [5, 6]], sw_mailbox := [Decrypt [9] 0], sw_next := 1\<rparr>" 1
      "script_world0\<lparr>sw_bytes := [Some [1, 2, 3, 4], Some [5, 6]],
         sw_mailbox := [Decrypt [9] 0, Decrypt [8] 1], sw_next := 2\<rparr>"
      "Some [1, 2, 3, 4]"
      "script_world0\<lparr>sw_bytes := [Some [5, 6]], sw_mailbox := [Decrypt [9] 0, Decrypt [8] 1], sw_next := 2\<rparr>"
      "Some [5, 6]"
      "script_world0\<lparr>sw_bytes := [], sw_mailbox := [Decrypt [9] 0, Decrypt [8] 1], sw_next := 2\<rparr>"]
  by (simp add: login_eval Let_def)

text \<open>
  C31: A client that sends its login start together with the handshake is not served. The decoder
  delivers the handshake and leaves the bytes of the login start in the read buffer of the stream;
  the login actor is made from the socket and the codec alone, so it starts with an empty buffer and
  its decoder has nothing to deliver.
\<close>

theorem pipelined_login_start_lost:
  assumes "net_ok L" and "fits_frame L handshake"
    and "length (frame_bytes L handshake @ frame_bytes L start) \<le> decode_limit"
  shows "\<exists>codec rest. decode L MCCodec_new (frame_bytes L handshake @ frame_bytes L start) =
      Ret (Ok (Some handshake), codec, rest) \<and> rest = frame_bytes L start \<and> rest \<noteq> [] \<and>
    (\<forall>io out i addr tracker server. let actor =
        login_actor i addr \<lparr>fr_io = io, fr_codec = codec, fr_read_buf = rest, fr_write_buf = out\<rparr> tracker server in
      fr_read_buf (la_framer actor) = [] \<and>
      decode L (fr_codec (la_framer actor)) (fr_read_buf (la_framer actor)) = Ret (Ok None, codec, []))"
proof -
  have "decode L MCCodec_new (frame_bytes L handshake @ frame_bytes L start) =
      Ret (Ok (Some handshake), MCCodec_new, frame_bytes L start)"
    by (rule decode_frame [OF assms])
  moreover have "1 \<le> length (frame_bytes L start)"
    using varint_bytes_len(1) [OF assms(1)] by (simp add: frame_bytes_def trans_le_add1)
  then have "frame_bytes L start \<noteq> []" by auto
  ultimately show ?thesis
    by (auto simp: login_actor_def FramedParts_new_def decode_def decode_head_def MCCodec_new_def)
qed

theorem pipelined_login_start_lost_witness:
  "\<exists>codec rest. decode leb_lib MCCodec_new
       (frame_bytes leb_lib \<lparr>rp_id = 0, rp_payload = [2]\<rparr> @ frame_bytes leb_lib \<lparr>rp_id = 0, rp_payload = [65]\<rparr>) =
      Ret (Ok (Some \<lparr>rp_id = 0, rp_payload = [2]\<rparr>), codec, rest) \<and> rest \<noteq> []"
  using pipelined_login_start_lost [OF net_ok_leb, of "\<lparr>rp_id = 0, rp_payload = [2]\<rparr>" "\<lparr>rp_id = 0, rp_payload = [65]\<rparr>"]
  by (simp add: leb_eval) (elim exE conjE, intro exI conjI, assumption, simp)

end
