(* ===== verification/Connection.thy ===== *)
theory Connection
  imports Connection_Theorems Login_Theorems
begin

text \<open>
  A whole connection: the tasks of the handshake, status, login and configuration states, each spawned
  by the one before it as its last action, run one after the other.
\<close>

section \<open>The task of a connection\<close>

definition next_run :: "('t, 'd, 'e, 'tx, 'rx, 'x, 'w) conn_lib \<Rightarrow> 'x status_packets \<Rightarrow> 'x login_packets \<Rightarrow>
    ('t, 'd, 'e, 'tx) next_actor option \<Rightarrow> (unit, ('t, 'd, 'e) MCSocket event, 'w) task" where
  "next_run E S K next_state =
     (case next_state of
        None \<Rightarrow> ret ()
      | Some n \<Rightarrow>
          (case n of
             To_status a \<Rightarrow> status_run E S a
           | To_login a \<Rightarrow> bind_task (login_run E K a) (\<lambda>res. case res of
                 None \<Rightarrow> ret ()
               | Some ca \<Rightarrow> configuration_run E ca)))"

definition connection_run :: "('t, 'd, 'e, 'tx, 'rx, 'x, 'w) conn_lib \<Rightarrow> (SHandShake, 'x) server_packet \<Rightarrow>
    'x status_packets \<Rightarrow> 'x login_packets \<Rightarrow> ('t, 'tx) HandshakeActor \<Rightarrow>
    (unit, ('t, 'd, 'e) MCSocket event, 'w) task" where
  "connection_run E H S K self = bind_task (handshake_run E H self) (next_run E S K)"

section \<open>The states do not look at the trace\<close>

lemma oblivious_handlers [oblivious_rules]:
  "oblivious (handle_login_start E K login la)" "oblivious (handle_encryption_response E resp la)"
  "oblivious (handle_status_request E S ta)" "oblivious (handle_ping_request E S ping ta)"
  unfolding handle_login_start_def handle_encryption_response_def handle_status_request_def
    handle_ping_request_def Let_def
  by (intro oblivious_rules)+

lemma oblivious_states [oblivious_rules]:
  "oblivious (login_run E K la)" "oblivious (status_run E S ta)" "oblivious (configuration_run E ca)"
  unfolding login_run_def status_run_def configuration_run_def configuration_spawn_def Let_def
  by (intro oblivious_rules)+

section \<open>What a connection may send\<close>

text \<open>
  Nothing, or the frames of the state that the first packet asked for, justified by what was seen
  after that packet.
\<close>

definition status_part :: "'x status_packets \<Rightarrow> ('t, 'd, 'e) MCSocket event list \<Rightarrow>
    (('t, 'd, 'e) MCSocket \<times> bytes) list \<Rightarrow> bool" where
  "status_part S tail fs \<longleftrightarrow> (\<exists>s rx k u. tail = [Asked (GetStatus s) rx, Spawned k Status_task] @ u \<and>
     status_frames_ok S rx u fs)"

definition login_part :: "('t, 'd, 'e, 'tx, 'rx, 'x, 'w) conn_lib \<Rightarrow> 'x login_packets \<Rightarrow>
    ('t, 'd, 'e) MCSocket event list \<Rightarrow> (('t, 'd, 'e) MCSocket \<times> bytes) list \<Rightarrow> bool" where
  "login_part E K tail fs \<longleftrightarrow> (\<exists>k u. tail = Spawned k Login_task # u \<and> login_frames_ok E K u fs)"

definition connection_ok :: "('t, 'd, 'e, 'tx, 'rx, 'x, 'w) conn_lib \<Rightarrow> (SHandShake, 'x) server_packet \<Rightarrow>
    'x status_packets \<Rightarrow> 'x login_packets \<Rightarrow> ('t, 'd, 'e) MCSocket event list \<Rightarrow> bool" where
  "connection_ok E H S K tr \<longleftrightarrow> sents tr = [] \<or>
     (\<exists>p hs tail. tr = Received p # tail \<and> parsed (sp_id H) (sp_read H) p = Some hs \<and>
        (hs_next_state hs = Status_state \<and> status_part S tail (sents tr) \<or>
         hs_next_state hs = Login_state \<and> login_part E K tail (sents tr)))"

lemma connection_ok_silent: "sents tr = [] \<Longrightarrow> connection_ok E H S K tr"
  by (simp add: connection_ok_def)

lemma connection_ok_status:
  "parsed (sp_id H) (sp_read H) p = Some hs \<Longrightarrow> hs_next_state hs = Status_state \<Longrightarrow>
    status_frames_ok S rx u (sents u) \<Longrightarrow>
    connection_ok E H S K ([Received p, Asked (GetStatus s) rx, Spawned k Status_task] @ u)"
  unfolding connection_ok_def status_part_def by auto

lemma connection_ok_login:
  "parsed (sp_id H) (sp_read H) p = Some hs \<Longrightarrow> hs_next_state hs = Login_state \<Longrightarrow>
    login_frames_ok E K u (sents u) \<Longrightarrow> connection_ok E H S K ([Received p, Spawned k Login_task] @ u)"
  unfolding connection_ok_def login_part_def by auto

text \<open>The login and what follows it, as one task.\<close>

lemma login_tail_safe:
  "safe (bind_task (login_run E K a) (\<lambda>res. case res of None \<Rightarrow> ret () | Some ca \<Rightarrow> configuration_run E ca)) []
     (\<lambda>_. login_safe E K) (\<lambda>p t. login_safe E K t \<and> short_secret K p t) (login_safe E K)"
proof -
  have "safe (case res of None \<Rightarrow> ret () | Some ca \<Rightarrow> configuration_run E ca) t
      (\<lambda>_. login_safe E K) (\<lambda>p t. login_safe E K t \<and> short_secret K p t) (login_safe E K)"
    if "login_safe E K t" for res and t :: "('a, 'b, 'c) MCSocket event list"
    using that by (intro safe_case_option safe_ret configuration_run_safe) (simp_all add: login_safe_quiet)
  then show ?thesis by (intro safe_bind safe_mono [OF login_run_safe]) auto
qed

lemma secret_too_short_mono: "secret_too_short K u \<Longrightarrow> secret_too_short K (tr @ u)"
  unfolding secret_too_short_def
proof (elim exE, goal_cases)
  case (1 v p resp token s1 rx1 s2 rx2 secret)
  then show ?case
    by (intro exI [of _ "tr @ v"] exI [of _ p] exI [of _ resp] exI [of _ token] exI [of _ s1] exI [of _ rx1]
        exI [of _ s2] exI [of _ rx2] exI [of _ secret]) auto
qed

lemma short_secret_mono: "short_secret K p u \<Longrightarrow> short_secret K p (tr @ u)"
  by (simp add: short_secret_def secret_too_short_mono split: panic.splits)

lemma next_run_safe:
  assumes "dispatched H self p st n tr"
  shows "safe (next_run E S K n) tr (\<lambda>_. connection_ok E H S K)
    (\<lambda>p t. connection_ok E H S K t \<and> short_secret K p t) (connection_ok E H S K)"
  using assms
proof cases
  case (dispatched_status hs rx s)
  then show ?thesis
    by (auto simp: next_run_def status_run_safe intro!: connection_ok_status
        safe_extend [OF oblivious_states(2) status_run_safe [of _ rx]])
next
  case (dispatched_login hs)
  then show ?thesis
    by (auto simp: next_run_def login_safe_def intro!: connection_ok_login short_secret_mono oblivious_rules
        safe_extend [OF _ login_tail_safe])
qed (auto simp: next_run_def connection_ok_silent)

lemma connection_run_safe:
  "safe (connection_run E H S K self) [] (\<lambda>_. connection_ok E H S K)
    (\<lambda>p t. connection_ok E H S K t \<and> short_secret K p t) (connection_ok E H S K)"
  unfolding connection_run_def
  by (intro safe_bind safe_mono [OF handshake_run_safe])
    (auto intro: next_run_safe connection_ok_silent)

section \<open>How a connection ends\<close>

text \<open>A rule for statements about finished tasks alone.\<close>

abbreviation always :: "('a, 'c, 'w) task \<Rightarrow> 'c list \<Rightarrow> ('a \<Rightarrow> 'c list \<Rightarrow> bool) \<Rightarrow> bool" where
  "always m tr Q \<equiv> safe m tr Q (\<lambda>_ _. True) (\<lambda>_. True)"

lemma always_then: "(\<And>x t. always (f x) t Q) \<Longrightarrow> always (bind_task m f) tr Q"
  by (intro safe_bind) (auto simp: safe_def split: outcome.split)

definition shut_down :: "('t, 'd, 'e) MCSocket event list \<Rightarrow> bool" where
  "shut_down tr \<longleftrightarrow> (\<exists>io. tr \<noteq> [] \<and> last tr = Stream_shut io)"

lemma login_stops: "always (bind_task (shutdown (lib_mc E) login_stream self) (\<lambda>_. ret None)) tr
    (\<lambda>res t. res = None \<longrightarrow> shut_down t)"
  by (intro safe_bind la.shutdown_self) (simp_all add: shut_down_def)

lemma login_run_ends: "always (login_run E K self) tr (\<lambda>res t. res = None \<longrightarrow> shut_down t)"
  unfolding login_run_def Let_def
  by (rule login_stops always_then safe_case_option safe_case_prod safe_if | simp)+

text \<open>Of the trace of a handshake and what follows it: shut down, or a status question not taken.\<close>

definition unresponsive :: "(SHandShake, 'x) server_packet \<Rightarrow> 's event list \<Rightarrow> bool" where
  "unresponsive H tr \<longleftrightarrow> (\<exists>p hs. tr = [Received p] \<and> parsed (sp_id H) (sp_read H) p = Some hs \<and>
     hs_next_state hs = Status_state)"

lemma next_run_ends:
  assumes "dispatched H self p st n tr"
  shows "always (next_run E S K n) tr (\<lambda>_ t. shut_down t \<or> unresponsive H t)"
proof (cases n)
  case None
  with assms show ?thesis
    by cases (auto simp: next_run_def shut_down_def unresponsive_def)
next
  case (Some a)
  have status: "always (status_run E S ta) tr (\<lambda>_. shut_down)" for ta
    unfolding status_run_def
    by (rule always_then, intro safe_bind ta.shutdown_self) (simp_all add: shut_down_def)
  have config: "always (configuration_run E ca) t (\<lambda>_. shut_down)" for ca t
    by (rule configuration_run_safe) (simp_all add: shut_down_def)
  have "always (next_run E S K n) tr (\<lambda>_. shut_down)"
    unfolding next_run_def Some
    by (cases a) (auto intro!: status safe_bind safe_mono [OF login_run_ends] safe_case_option config)
  then show ?thesis by (rule safe_mono) auto
qed

lemma connection_run_ends:
  "always (connection_run E H S K self) [] (\<lambda>_ t. shut_down t \<or> unresponsive H t)"
  unfolding connection_run_def
  by (intro safe_bind safe_mono [OF handshake_run_safe]) (auto intro: next_run_ends)

section \<open>Properties\<close>

definition script_client :: "(nat \<times> item) list \<Rightarrow>
    ((unit, bytes \<times> bytes, bytes \<times> bytes) MCSocket event, script_world) ctx" where
  "script_client frames_in = start_in ((script_login_world key7)\<lparr>sw_frames := frames_in\<rparr>)"

lemma script_client_trace [simp]: "cx_trace (script_client fs) = []"
  by (simp add: script_client_def)

text \<open>A client whose response decrypts to a secret of three bytes.\<close>

definition short_client ::
    "((unit, bytes \<times> bytes, bytes \<times> bytes) MCSocket event, script_world) ctx" where
  "short_client = start_in ((script_login_world [1, 2, 3])\<lparr>sw_frames := [packet_in 0 [2], packet_in 0 [], packet_in 1 [8]]\<rparr>)"

lemma short_client_trace [simp]: "cx_trace short_client = []"
  by (simp add: short_client_def)

text \<open>
  C7: A connection speaks the protocol of the state it was asked for. Over its whole life, through the
  handshake and the tasks that follow it, in every environment and however it ends, a connection
  sends no frame at all or the frames of the state that its first packet asked for: those of the
  status with the receiver of the one question asked for it, or those of the login, justified by
  packets received after the handshake. If it panics, then inside a call it makes of a library or of its
  framed stream (which runs the repository's codec on the bytes it reads; when the decoder panics is a
  property of \<open>Net_Correct\<close>), or else at the slice of a shared secret: the last thing it saw is then the
  reply to its question about the secret of the response it received, and the reply is too short.
\<close>

theorem connection_speaks_protocol:
  assumes "cx_trace c = []"
  shows "connection_ok E H S K (trace_of (connection_run E H S K self c)) \<and>
    (\<forall>p c1. connection_run E H S K self c = Panicked p c1 \<longrightarrow> short_secret K p (cx_trace c1))"
proof -
  note run = safe_cases [OF connection_run_safe [of E H S K self] assms]
  from run(1,3) show ?thesis
    by (cases "connection_run E H S K self c") (auto dest: run(2))
qed

theorem connection_speaks_protocol_witness:
  "connection_ok script_env script_handshake script_status script_login
     (trace_of (connection_run script_env script_handshake script_status script_login script_handshake_actor
       (script_client [packet_in 0 [2], packet_in 0 [], packet_in 1 [8], packet_in 3 []]))) \<and>
   (\<exists>c1. connection_run script_env script_handshake script_status script_login script_handshake_actor short_client =
      Panicked (Panic_at ''shared_secret[..16]'') c1 \<and> secret_too_short script_login (cx_trace c1))"
proof -
  have "\<exists>c1. connection_run script_env script_handshake script_status script_login script_handshake_actor short_client =
      Panicked (Panic_at ''shared_secret[..16]'') c1"
    by (simp add: short_client_def connection_run_def next_run_def handshake_eval login_eval Let_def)
  then show ?thesis
    using connection_speaks_protocol [of short_client script_env script_handshake script_status script_login
        script_handshake_actor]
      connection_speaks_protocol [OF script_client_trace, of script_env script_handshake script_status script_login
        script_handshake_actor]
    by (fastforce simp: short_secret_def)
qed

text \<open>
  C21: A connection that finishes has shut its stream down as its last action, in whichever state it
  stopped. The one exception: a client that asks for the status of a server whose mailbox is closed;
  its stream is only dropped.
\<close>

theorem connection_ends_shut_down:
  assumes "cx_trace c = []" and "connection_run E H S K self c = Done u c1"
  shows "shut_down (cx_trace c1) \<or> unresponsive H (cx_trace c1)"
  using safe_cases(1) [OF connection_run_ends assms] .

theorem connection_ends_shut_down_witness:
  "(\<exists>c1. connection_run script_env script_handshake script_status script_login script_handshake_actor
       (script_client [packet_in 0 [2], packet_in 0 [], packet_in 1 [8], packet_in 3 []]) = Done () c1 \<and>
     (shut_down (cx_trace c1) \<or> unresponsive script_handshake (cx_trace c1)) \<and>
     last (cx_trace c1) = Stream_shut (Encrypted () (key7, key7) (key7, key7) None))"
proof -
  let ?c = "script_client [packet_in 0 [2], packet_in 0 [], packet_in 1 [8], packet_in 3 []]"
  have "\<exists>c1. connection_run script_env script_handshake script_status script_login script_handshake_actor ?c =
      Done () c1 \<and> last (cx_trace c1) = Stream_shut (Encrypted () (key7, key7) (key7, key7) None)"
    by (simp add: script_client_def connection_run_def next_run_def configuration_run_def
        configuration_stream_def handshake_eval login_eval key7_def Let_def)
  then show ?thesis using connection_ends_shut_down [OF script_client_trace] by blast
qed

end
