(* ===== verification/Net_Correct.thy ===== *)
theory Net_Correct
  imports Leb128
begin

text \<open>
  The properties of the wire codec of \<open>proxy/src/client_actor/net.rs\<close>, over the definitions of
  the theory Net and under the library laws \<open>net_ok\<close> alone; each witness evaluates its property
  with the concrete variable-length integers of the theory Leb128.
\<close>

lemma encode_packet_data:
  assumes "net_ok L" and "length dst + length (frame_bytes L p) \<le> isize_max"
  shows "encode L (packet_data L p) dst = Ret (Ok (), dst @ frame_bytes L p)"
proof -
  note wr = net_okD(1) [OF assms(1)]
  let ?n = "of_nat (length (packet_data L p)) :: usize"
  have "can_reserve L (length dst) (unat (vi_len (vi_from L ?n)) + length (packet_data L p))"
    using assms by (intro can_reserveI net_okD) (simp_all add: unat_vi_len_from [OF wr] frame_bytes_def)
  then show ?thesis
    by (simp add: encode_def Let_def vi_write_from [OF wr] frame_bytes_def)
qed

text \<open>
  C15: Round trip of the codec. Encoding the data of a packet appends its frame to the output
  buffer, and decoding that frame from the start state, whatever bytes follow it, gives the packet
  back, leaves exactly the bytes that follow and returns the decoder to its start state.
\<close>

theorem encode_decode_roundtrip:
  assumes "net_ok L" and "fits_frame L p" and "length dst + length (frame_bytes L p) \<le> isize_max"
  shows "\<exists>w. encode L (packet_data L p) dst = Ret (Ok (), dst @ w) \<and>
    (\<forall>rest. length (w @ rest) \<le> decode_limit \<longrightarrow>
       decode L MCCodec_new (w @ rest) = Ret (Ok (Some p), MCCodec_new, rest))"
  using assms encode_packet_data decode_frame by blast

theorem encode_decode_roundtrip_witness:
  "\<exists>w. encode leb_lib (packet_data leb_lib \<lparr>rp_id = 1, rp_payload = [7, 8]\<rparr>) [9] = Ret (Ok (), [9] @ w) \<and>
    (\<forall>rest. length (w @ rest) \<le> decode_limit \<longrightarrow>
       decode leb_lib MCCodec_new (w @ rest) =
         Ret (Ok (Some \<lparr>rp_id = 1, rp_payload = [7, 8]\<rparr>), MCCodec_new, rest))"
  by (rule encode_decode_roundtrip [OF net_ok_leb])
    (simp_all add: leb_eval)

text \<open>
  C5: The network may cut the byte stream anywhere. For a stream that is the concatenation of
  frames, and for every way \<open>cs\<close> of splitting it into the chunks that arrive (empty ones, single
  bytes and chunks holding several frames included), driving the decoder over the chunks delivers
  exactly the packets of the frames, in order, and ends in the start state with an empty buffer.
\<close>

theorem codec_chunks_irrelevant:
  assumes "net_ok L" and "\<forall>p \<in> set ps. fits_frame L p"
    and "concat cs = concat (map (frame_bytes L) ps)" and "length (concat cs) \<le> decode_limit"
  shows "frames (decode L) MCCodec_new [] cs qs c b \<longleftrightarrow> qs = ps \<and> c = MCCodec_new \<and> b = []"
  using mc.chunks_irrelevant [OF assms] by simp

theorem codec_chunks_irrelevant_witness:
  "\<forall>qs c b. frames (decode leb_lib) MCCodec_new [] [[2], [0, 5, 1], [], [3]] qs c b \<longleftrightarrow>
     qs = [\<lparr>rp_id = 0, rp_payload = [5]\<rparr>, \<lparr>rp_id = 3, rp_payload = []\<rparr>] \<and> c = MCCodec_new \<and> b = []"
  by (intro allI, rule codec_chunks_irrelevant [OF net_ok_leb])
    (simp_all add: leb_eval)

text \<open>
  C25: Waiting loses nothing. Whatever the input, well-formed or not, when the decoder answers that
  it needs more bytes, calling it again with the bytes that arrived appended gives the result it
  would have given on all the bytes at once.
\<close>

theorem decode_wait_resumes:
  assumes "net_ok L" and "decode L c src = Ret (Ok None, c1, src1)"
    and "length (src @ zs) \<le> decode_limit"
  shows "decode L c1 (src1 @ zs) = decode L c (src @ zs)"
  using assms by (rule decode_resume)

theorem decode_wait_resumes_witness:
  "decode leb_lib MCCodec_new [2, 0] = Ret (Ok None, \<lparr>mc_state = Data 2\<rparr>, [0]) \<and>
   decode leb_lib \<lparr>mc_state = Data 2\<rparr> ([0] @ [5]) = decode leb_lib MCCodec_new ([2, 0] @ [5])"
proof -
  have wait: "decode leb_lib MCCodec_new [2, 0] = Ret (Ok None, \<lparr>mc_state = Data 2\<rparr>, [0])"
    by (simp add: decode_def decode_head_def decode_data_wait leb_lib_def leb_eval
        slice_from_def i32_as_usize_def)
  then show ?thesis
    using decode_wait_resumes [OF net_ok_leb wait, of "[5]"]
    by (simp add: decode_limit_def isize_max_def)
qed

lemma decode_data_SomeD:
  assumes "net_ok L" and "decode_data L n src = Ret (Ok (Some p), c1, src1)"
  shows "c1 = MCCodec_new \<and> (\<exists>i. src = i @ rp_payload p @ src1 \<and> 1 \<le> length i \<and> length i \<le> 5 \<and>
    unat n = length i + length (rp_payload p))"
proof -
  from assms(2) obtain v r where rd: "vi_read L src = (Ok v, r)" and le: "vi_len v \<le> n"
    and k: "unat (n - vi_len v) \<le> length r"
    and p: "p = \<lparr>rp_id = vi_val v, rp_payload = take (unat (n - vi_len v)) r\<rparr>"
    and src1: "src1 = drop (unat (n - vi_len v)) r" and c1: "c1 = MCCodec_new"
    by (auto simp: decode_data_Ret_iff decode_body_Ret_iff split: if_splits)
  note v = varint_readsD [OF net_okD(2) [OF assms(1)] rd]
  have "r = rp_payload p @ src1" by (simp add: p src1)
  then have "src = take (unat (vi_len v)) src @ rp_payload p @ src1"
    using v(4) by (metis append_take_drop_id)
  moreover have "unat n = unat (vi_len v) + length (rp_payload p)"
    using le k by (simp add: p unat_usize_sub word_le_nat_alt)
  ultimately show ?thesis
    using c1 v(1-3) by (intro conjI exI [where x = "take (unat (vi_len v)) src"]) auto
qed

text \<open>
  C26: A delivered packet is exactly the next announced bytes of the input. The bytes before the
  returned rest are a length prefix (absent when the length was read in an earlier call), the one
  to five bytes of the packet id, and the payload; id and payload together have the announced
  length; and the decoder is back in its start state. So every delivery shrinks the buffer by at
  least one byte, and the loop that drives the decoder comes to an end on every buffer.
\<close>

theorem decode_delivers_announced:
  assumes "net_ok L" and "decode L c src = Ret (Ok (Some p), c1, src1)"
  shows "c1 = MCCodec_new \<and> length src1 < length src \<and>
    (\<exists>h i n. src = h @ i @ rp_payload p @ src1 \<and> 1 \<le> length i \<and> length i \<le> 5 \<and>
       unat n = length i + length (rp_payload p) \<and>
       (case mc_state c of Data m \<Rightarrow> h = [] \<and> n = m
        | Len \<Rightarrow> decode_head L src = Ret (Ok (Some n), i @ rp_payload p @ src1)))"
proof (cases "mc_state c")
  case (Data m)
  with assms(2) have "decode_data L m src = Ret (Ok (Some p), c1, src1)"
    by (simp add: decode_Ret_iff)
  from decode_data_SomeD [OF assms(1) this] Data show ?thesis by fastforce
next
  case Len
  with assms(2) obtain n b where hd: "decode_head L src = Ret (Ok (Some n), b)"
    and d: "decode_data L n b = Ret (Ok (Some p), c1, src1)"
    by (auto simp: decode_Ret_iff)
  from hd obtain h where h: "src = h @ b"
    by (auto simp: decode_head_def slice_from_def Let_def
        split: if_splits result.splits NetTypesError.splits) (metis append_take_drop_id)
  from decode_data_SomeD [OF assms(1) d] obtain i where i: "b = i @ rp_payload p @ src1"
    "1 \<le> length i" "length i \<le> 5" "unat n = length i + length (rp_payload p)" "c1 = MCCodec_new"
    by blast
  with h hd Len show ?thesis
    by (intro conjI exI [where x = h] exI [where x = i] exI [where x = n]) auto
qed

theorem decode_delivers_announced_witness:
  "decode leb_lib MCCodec_new [2, 3, 8, 9] = Ret (Ok (Some \<lparr>rp_id = 3, rp_payload = [8]\<rparr>), MCCodec_new, [9]) \<and>
   length [9 :: u8] < length [2, 3, 8, 9 :: u8]"
proof -
  have d: "decode leb_lib MCCodec_new (frame_bytes leb_lib \<lparr>rp_id = 3, rp_payload = [8]\<rparr> @ [9]) =
      Ret (Ok (Some \<lparr>rp_id = 3, rp_payload = [8]\<rparr>), MCCodec_new, [9])"
    by (rule decode_frame [OF net_ok_leb]) (simp_all add: leb_eval)
  from decode_delivers_announced [OF net_ok_leb d] d show ?thesis by (simp add: leb_eval)
qed

lemma decode_head_Panic_iff:
  assumes "net_ok L"
  shows "decode_head L src = Panic \<longleftrightarrow> src \<noteq> [] \<and>
    (\<exists>v r. vi_read L src = (Ok v, r) \<and> \<not> can_reserve L (length r) (unat (i32_as_usize (vi_val v))))"
proof (cases "vi_read L src")
  case (Pair o1 r)
  show ?thesis
  proof (cases o1)
    case (Ok v)
    with varint_readsD [OF net_okD(2) [OF assms], of src v r] Pair show ?thesis
      by (simp add: decode_head_def slice_from_def Let_def)
  qed (use Pair in \<open>auto simp: decode_head_def split: NetTypesError.splits\<close>)
qed

lemma decode_data_Panic_iff:
  assumes "net_ok L" and "length src < isize_max"
  shows "decode_data L n src = Panic \<longleftrightarrow>
    unat n \<le> length src \<and> (\<exists>v r. vi_read L src = (Ok v, r) \<and> n < vi_len v)"
proof (cases "vi_read L src")
  case (Pair o1 r)
  show ?thesis
  proof (cases o1)
    case (Ok v)
    note v = varint_readsD [OF net_okD(2) [OF assms(1)], of src v r]
    have split: "unat (n - vi_len v) \<le> length r" if "vi_len v \<le> n" "unat n \<le> length src"
      using that v Pair Ok by (simp add: unat_usize_sub)
    have "can_reserve L (length r - unat (n - vi_len v)) 1"
      using v Pair Ok assms by (intro can_reserveI net_okD) auto
    with split Pair Ok show ?thesis
      by (auto simp: decode_data_def decode_body_def usize_sub_def slice_to_def not_less)
  qed (use Pair in \<open>auto simp: decode_data_def decode_body_def\<close>)
qed

text \<open>
  C27: Exactly which input makes the decoder panic. With a length read earlier, it panics when the
  announced bytes are there and the packet id takes more bytes than were announced; at the start of
  a frame, also when the announced length, taken as a \<open>usize\<close>, cannot be reserved.
\<close>

theorem decode_panics_iff:
  assumes "net_ok L" and "length src < isize_max"
  shows "decode L c src = Panic \<longleftrightarrow>
    (case mc_state c of
       Data n \<Rightarrow> unat n \<le> length src \<and> (\<exists>v r. vi_read L src = (Ok v, r) \<and> n < vi_len v)
     | Len \<Rightarrow> src \<noteq> [] \<and> (\<exists>v b. vi_read L src = (Ok v, b) \<and>
         (let n = i32_as_usize (vi_val v) in
            \<not> can_reserve L (length b) (unat n) \<or>
            (unat n \<le> length b \<and> (\<exists>w r. vi_read L b = (Ok w, r) \<and> n < vi_len w)))))"
proof (cases "mc_state c")
  case (Data n)
  with assms show ?thesis by (simp add: decode_def decode_data_Panic_iff)
next
  case Len
  show ?thesis
  proof (cases "src \<noteq> [] \<and> (\<exists>v. fst (vi_read L src) = Ok v)")
    case True
    then obtain v b where rd: "vi_read L src = (Ok v, b)" by (cases "vi_read L src") auto
    note v = varint_readsD [OF net_okD(2) [OF assms(1)] rd]
    have "length b < isize_max" using v(4) assms(2) by simp
    with True Len rd v assms(1) show ?thesis
      by (simp add: decode_def decode_head_def slice_from_def Let_def decode_data_Panic_iff)
  next
    case False
    then have "decode_head L src \<noteq> Panic \<and> (\<forall>n b. decode_head L src \<noteq> Ret (Ok (Some n), b))"
      by (auto simp: decode_head_def split: result.splits NetTypesError.splits)
    then have "decode L c src \<noteq> Panic"
      using Len by (auto simp: decode_def bind_run_Panic_iff split: result.splits option.splits prod.splits)
    with False Len show ?thesis by (auto simp: Let_def)
  qed
qed

theorem decode_panics_iff_witness:
  "decode leb_lib \<lparr>mc_state = Data 0\<rparr> [5] = Panic"
  by (subst decode_panics_iff [OF net_ok_leb]) (simp_all add: leb_eval leb_lib_def)

text \<open>
  A frame that announces a length of zero takes the connection down. As soon as one complete
  packet id follows the zero length, the decoder panics (it subtracts the length of the id from
  zero), although every other malformed input is answered with an error value.
\<close>

theorem zero_length_frame_panics:
  assumes "net_ok L" and "length rest < decode_limit"
  shows "decode L MCCodec_new (varint_bytes L 0 @ varint_bytes L m @ rest) = Panic"
proof -
  note wr = net_okD(1) [OF assms(1)]
  have "decode_head L (varint_bytes L (of_nat 0) @ varint_bytes L m @ rest) =
      Ret (Ok (Some (of_nat 0)), varint_bytes L m @ rest)"
    using assms varint_bytes_len(2) [OF assms(1), of m]
    by (simp add: decode_head_bytes usize_as_i32_def i32_as_usize_def can_reserveI
        net_okD(3) decode_limit_def isize_max_def)
  moreover have "decode_data L 0 (varint_bytes L m @ rest) = Panic"
  proof -
    have "vi_len (vi_from L m) \<noteq> 0"
      using varint_bytes_len(1) [OF assms(1), of m] unat_vi_len_from [OF wr, of m] by auto
    then show ?thesis
      by (simp add: decode_data_def decode_body_def vi_read_bytes [OF wr] usize_sub_def)
  qed
  ultimately show ?thesis by (simp add: decode_def)
qed

theorem zero_length_frame_panics_witness:
  "decode leb_lib MCCodec_new [0, 5] = Panic"
  using zero_length_frame_panics [OF net_ok_leb, of "[]" 5]
  by (simp add: varint_bytes_leb usize_as_i32_def leb_eval)

text \<open>
  A negative length takes the connection down as well. A length prefix whose 32-bit value is
  negative becomes, as a \<open>usize\<close>, larger than any allocation, and reserving it panics before any
  byte of the frame is looked at.
\<close>

theorem negative_length_panics:
  assumes "net_ok L" and "sint (usize_as_i32 n) < 0"
  shows "decode L MCCodec_new (varint_bytes L n @ rest) = Panic"
  using assms by (simp add: decode_def decode_head_bytes not_can_reserveI i32_as_usize_negative net_okD(3))

theorem negative_length_panics_witness:
  "sint (usize_as_i32 4294967295) < 0 \<and> decode leb_lib MCCodec_new (varint_bytes leb_lib 4294967295 @ []) = Panic"
proof -
  have "sint (usize_as_i32 4294967295) < 0" by (simp add: usize_as_i32_def)
  with negative_length_panics [OF net_ok_leb this, of "[]"] show ?thesis by simp
qed

end
