(* ===== verification/Wire.thy ===== *)
theory Wire
  imports Net_Correct Mc_Socket_Correct
begin

text \<open>
  Codec and encrypted socket together, as a framed stream over an encrypted socket uses them: packets
  are encoded into a buffer, the buffer is written through the encrypting socket of one side, and the
  other side decrypts what arrives and decodes it.
\<close>

section \<open>Encoding several packets\<close>

fun encode_all :: "net_lib \<Rightarrow> bytes list \<Rightarrow> bytes \<Rightarrow> ((unit, NetTypesError) result \<times> bytes) run" where
  "encode_all L [] dst = Ret (Ok (), dst)"
| "encode_all L (d # ds) dst =
     bind_run (encode L d dst) (\<lambda>(r, dst1). case r of
         Ok _ \<Rightarrow> encode_all L ds dst1
       | Err e \<Rightarrow> Ret (Err e, dst1))"

lemma encode_all_frames:
  assumes "net_ok L" and "length (dst @ concat (map (frame_bytes L) ps)) \<le> isize_max"
  shows "encode_all L (map (packet_data L) ps) dst = Ret (Ok (), dst @ concat (map (frame_bytes L) ps))"
  using assms(2)
proof (induction ps arbitrary: dst)
  case (Cons p ps)
  then have "encode L (packet_data L p) dst = Ret (Ok (), dst @ frame_bytes L p)"
    by (intro encode_packet_data assms(1)) simp
  with Cons show ?case by (simp add: run_simps)
qed simp

section \<open>Properties\<close>

text \<open>
  C4: Packets cross the encrypted wire. One side encodes packets and writes the bytes through its
  encrypted socket, in writes split in any way; the other, keyed alike, has read some of the ciphertext,
  in reads split in any way, and drives its decoder over what it decrypts. The decoder never panics
  and never fails; it delivers a first part of the packets sent, unchanged and in order, and among
  them every packet whose bytes have all arrived.
\<close>

theorem packets_cross_encrypted_wire:
  assumes "net_ok L" and "\<forall>p \<in> set ps. fits_frame L p"
    and "writes_ok IO wrote" and "reads_ok IO got" and "ciphers_ok C in_step" and "length key = 16"
    and "prepare_encryption C key = Ok (d, e)"
    and "encode_all L (map (packet_data L) ps) [] = Ret (Ok (), wire)"
    and "length (concat (map (frame_bytes L) ps)) \<le> decode_limit"
    and "sink_run C IO (Encrypted t dw e None) sw written unsent" and "prefix written wire"
    and "source_run C IO (Encrypted r d er None) sr (concat chunks)"
    and "wrote t = []" and "got r = []"
    and "prefix (got (sock_stream sr)) (wrote (sock_stream sw))"
  shows "\<exists>delivered c b. frames (decode L) MCCodec_new [] chunks delivered c b \<and> prefix delivered ps \<and>
    (\<forall>k \<le> length ps. length (concat (map (frame_bytes L) (take k ps))) \<le> length (concat chunks) \<longrightarrow>
       k \<le> length delivered)"
proof -
  have "length (concat (map (frame_bytes L) ps)) \<le> isize_max"
    using assms(9) by (simp add: decode_limit_def)
  then have "wire = concat (map (frame_bytes L) ps)"
    using encode_all_frames [OF assms(1), of "[]" ps] assms(8) by simp
  moreover have "prefix (concat chunks) written"
    by (rule encrypted_delivery [OF assms(3-7,10,12-15)])
  ultimately have "prefix (concat chunks) (concat (map (frame_bytes L) ps))"
    using assms(11) by (simp add: prefix_order.trans)
  from mc.partial_stream [OF assms(1,2) this assms(9)] show ?thesis by auto
qed

text \<open>Two packets; the reader has the bytes of the first and the beginning of the second.\<close>

definition two_packets :: "RawPacket list" where
  "two_packets = [\<lparr>rp_id = 1, rp_payload = []\<rparr>, \<lparr>rp_id = 3, rp_payload = [7]\<rparr>]"

abbreviation sink_end :: "(mem_stream, bytes \<times> bytes, bytes \<times> bytes) MCSocket" where
  "sink_end \<equiv> sock_at [20, 20, 23, 22, 18] [] [5, 5, 5, 5, 5, 5, 5, 5, 5, 5, 5, 20, 20, 23, 22, 18] None"

lemma sink_run_packets:
  "sink_run cfb_lib mem_io (sock_at [] [Some 5] key16 None) sink_end [1, 1, 2, 3, 7] []"
proof -
  have poll: "poll_write cfb_lib mem_io (sock_at [] [Some 5] key16 None) [1, 1, 2, 3, 7] = Ret (Ready (Ok 5), sink_end)"
    by (simp add: poll_write_def mem_eval)
  have "sink_run cfb_lib mem_io (sock_at [] [Some 5] key16 None) (sock_at [] [Some 5] key16 None)
      [1, 1, 2, 3, 7] [1, 1, 2, 3, 7]"
    using sink_append [OF sink_start, of cfb_lib mem_io _ "[1, 1, 2, 3, 7]"] by simp
  from sink_ready [OF this poll] show ?thesis by simp
qed

abbreviation source_start_at :: "(mem_stream, bytes \<times> bytes, bytes \<times> bytes) MCSocket" where
  "source_start_at \<equiv> Encrypted \<lparr>taken = [], handed = [], inbox = [20, 20, 23, 22, 18], script = [Some 3]\<rparr>
     (key16, key16) (key16, key16) None"

abbreviation source_end :: "(mem_stream, bytes \<times> bytes, bytes \<times> bytes) MCSocket" where
  "source_end \<equiv> Encrypted \<lparr>taken = [], handed = [20, 20, 23], inbox = [22, 18], script = []\<rparr>
     (key16, [5, 5, 5, 5, 5, 5, 5, 5, 5, 5, 5, 5, 5, 20, 20, 23]) (key16, key16) None"

lemma source_run_packets: "source_run cfb_lib mem_io source_start_at source_end (concat [[1], [1, 2]])"
proof -
  have "poll_read cfb_lib mem_io source_start_at \<lparr>filled = [], room = 8\<rparr> =
      Ret (Ready (Ok ()), source_end, \<lparr>filled = [1, 1, 2], room = 8\<rparr>)"
    by (simp add: poll_read_def mem_eval)
  from source_ready [OF source_start this] show ?thesis by simp
qed

theorem packets_cross_encrypted_wire_witness:
  "\<exists>delivered c b. frames (decode leb_lib) MCCodec_new [] [[1], [1, 2]] delivered c b \<and>
     prefix delivered two_packets \<and> 1 \<le> length delivered"
proof -
  have "\<exists>delivered c b. frames (decode leb_lib) MCCodec_new [] [[1], [1, 2]] delivered c b \<and>
      prefix delivered two_packets \<and>
      (\<forall>k \<le> length two_packets. length (concat (map (frame_bytes leb_lib) (take k two_packets))) \<le>
         length (concat [[1 :: u8], [1, 2]]) \<longrightarrow> k \<le> length delivered)"
  proof (rule packets_cross_encrypted_wire [OF net_ok_leb _ writes_ok_mem reads_ok_mem ciphers_ok_cfb _ _ _ _
        sink_run_packets _ source_run_packets])
    show "length key16 = 16" by simp
    show "prepare_encryption cfb_lib key16 = Ok ((key16, key16), (key16, key16))"
      by (simp add: prepare_encryption_def cfb_lib_def)
    show "encode_all leb_lib (map (packet_data leb_lib) two_packets) [] = Ret (Ok (), [1, 1, 2, 3, 7])"
      using encode_all_frames [OF net_ok_leb, of "[]" two_packets] by (simp add: two_packets_def leb_eval)
  qed (simp_all add: two_packets_def leb_eval)
  then obtain delivered c b where run: "frames (decode leb_lib) MCCodec_new [] [[1], [1, 2]] delivered c b"
    and some: "prefix delivered two_packets"
    and all: "\<forall>k \<le> length two_packets. length (concat (map (frame_bytes leb_lib) (take k two_packets))) \<le>
         length (concat [[1 :: u8], [1, 2]]) \<longrightarrow> k \<le> length delivered"
    by blast
  from all [THEN spec [of _ 1]] have "1 \<le> length delivered" by (simp add: two_packets_def leb_eval)
  with run some show ?thesis by blast
qed

end
