(* ===== verification/Login_Wire.thy ===== *)
theory Login_Wire
  imports Connection Wire
begin

text \<open>
  What the network sees of a login: the bytes that the TCP stream takes, for the frames that the actor
  hands to its framed stream.
\<close>

section \<open>The streams an operation can leave\<close>

definition stream_read :: "('io, 'x, 'w) framed_lib \<Rightarrow> 'io Framed \<Rightarrow> 'io Framed \<Rightarrow> bool" where
  "stream_read S fr fr1 \<longleftrightarrow> (\<exists>w. (\<exists>t r w1. fl_next S fr w = After t (Done (r, fr1) w1)) \<or>
     (\<exists>w1. fl_cancel S 5000 fr w = (fr1, w1)))"

definition stream_sent :: "('io, 'x, 'w) framed_lib \<Rightarrow> bytes \<Rightarrow> 'io Framed \<Rightarrow> 'io Framed \<Rightarrow> bool" where
  "stream_sent S bs fr fr1 \<longleftrightarrow> (\<exists>w r w1. fl_send S bs fr w = Done (r, fr1) w1)"

lemma select_sleep_Some: "select_sleep ms f = Some x \<Longrightarrow> \<exists>t. f = After t x"
  by (cases f) (auto split: if_splits)

context stream_actor
begin

lemma next_always:
  assumes "\<And>p st1. stream_read S (sa_get A self) st1 \<Longrightarrow> Q (p, sa_put A st1 self) (tr @ [Received p])"
  shows "always (next_frame_with_timeout S A self) tr Q"
proof -
  let ?f = "\<lambda>w. case select_sleep 5000 (next_frame S A self w) of
          None \<Rightarrow> (let (st, w1) = fl_cancel S 5000 (sa_get A self) w in Done (None, st) w1)
        | Some res \<Rightarrow> res"
  have "stream_read S (sa_get A self) st" if "?f w = Done (some, st) w1" for w some st w1
    using that select_sleep_Some [of 5000 "next_frame S A self w"]
    by (auto simp: stream_read_def next_frame_def split: option.splits prod.splits)
  then show ?thesis
    unfolding next_frame_with_timeout_def Let_def
    by (intro safe_bind safe_perform_call) (auto intro!: safe_rules assms)
qed

lemma read_custom_always:
  assumes "\<And>p st1. stream_read S (sa_get A self) st1 \<Longrightarrow>
      Q (parsed packet_id rd p, sa_put A st1 self) (tr @ [Received p])"
  shows "always (read_custom S A packet_id rd self) tr Q"
  unfolding read_custom_def
proof (intro safe_bind next_always)
  fix p st1
  assume "stream_read S (sa_get A self) st1"
  from assms [OF this, of p] show "always
      (case (p, sa_put A st1 self) of (some, self1) \<Rightarrow> case some of
         Some packet \<Rightarrow>
           if rp_id packet = packet_id
           then (case rd (rp_payload packet) of Ok p \<Rightarrow> ret (Some p, self1) | Err e \<Rightarrow> ret (None, self1))
           else ret (None, self1)
       | None \<Rightarrow> ret (None, self1)) (tr @ [Received p]) Q"
    by (auto simp: parsed_def split: option.splits result.splits if_splits)
qed

lemma send_always:
  assumes "\<And>bs st1. serialize_bytes (cp_write pk) p = Ok bs \<Longrightarrow> stream_sent S bs (sa_get A self) st1 \<Longrightarrow>
      Q (True, sa_put A st1 self) (tr @ [Sent (sa_socket A (fr_io (sa_get A self))) bs])"
    and "\<And>e. serialize_bytes (cp_write pk) p = Err e \<Longrightarrow> Q (False, self) tr"
  shows "always (send S A pk p self) tr Q"
proof (cases "serialize_bytes (cp_write pk) p")
  case (Ok bs)
  have "Q (True, sa_put A st1 self) (tr @ [Sent (sa_socket A (fr_io (sa_get A self))) bs])"
    if "fl_send S bs (sa_get A self) w = Done (r, st1) w1" for w r st1 w1
    by (rule assms(1) [OF Ok]) (use that in \<open>auto simp: stream_sent_def\<close>)
  then show ?thesis
    unfolding send_def send_bytes_def Ok result.case
    by (intro safe_bind safe_emit safe_perform_call) auto
next
  case (Err e)
  with assms(2) show ?thesis by (simp add: send_def send_bytes_def)
qed

end

section \<open>What a framed stream over the socket does\<close>

text \<open>The frame of the data of a packet, as the encoder appends it.\<close>

definition frame_of :: "net_lib \<Rightarrow> bytes \<Rightarrow> bytes \<Rightarrow> bool" where
  "frame_of L bs f \<longleftrightarrow> (\<exists>dst. encode L bs dst = Ret (Ok (), dst @ f))"

definition frame_part :: "net_lib \<Rightarrow> bytes \<Rightarrow> bytes \<Rightarrow> bool" where
  "frame_part L bs w \<longleftrightarrow> w = [] \<or> (\<exists>f. frame_of L bs f \<and> prefix w f)"

text \<open>The side of a socket that writes is left alone.\<close>

fun same_sink :: "('t \<Rightarrow> bytes) \<Rightarrow> ('t, 'd, 'e) MCSocket \<Rightarrow> ('t, 'd, 'e) MCSocket \<Rightarrow> bool" where
  "same_sink wrote (Cleartext t) (Cleartext t1) = (wrote t1 = wrote t)"
| "same_sink wrote (Encrypted t d e p) (Encrypted t1 d1 e1 p1) = (wrote t1 = wrote t \<and> e1 = e \<and> p1 = p)"
| "same_sink wrote s s1 = False"

text \<open>
  \<open>Framed\<close> as documented: reading writes nothing; sending encodes the item behind what is still
  unwritten and writes the buffer through \<open>poll_write\<close>, a poll at a time, until nothing is left or a
  poll fails, and flushes the socket. An item that is not encoded (a write before it failed, or the
  encoder did) adds nothing.
\<close>

definition framed_ok :: "net_lib \<Rightarrow> ('d, 'e) cipher_lib \<Rightarrow> ('t, 'x) io_lib \<Rightarrow> ('t \<Rightarrow> bytes) \<Rightarrow>
    (('t, 'd, 'e) MCSocket, 'y, 'w) framed_lib \<Rightarrow> bool" where
  "framed_ok L C IO wrote S \<longleftrightarrow>
     (\<forall>fr fr1. stream_read S fr fr1 \<longrightarrow>
        fr_write_buf fr1 = fr_write_buf fr \<and> same_sink wrote (fr_io fr) (fr_io fr1)) \<and>
     (\<forall>bs fr fr1. stream_sent S bs fr fr1 \<longrightarrow>
        (\<exists>f s u s1. (f = [] \<or> frame_of L bs f) \<and> sink_run C IO (fr_io fr) s (fr_write_buf fr @ f) u \<and>
           (s1 = s \<or> (\<exists>x. poll_write C IO s u = Ret (Ready (Err x), s1))) \<and>
           same_sink wrote s1 (fr_io fr1)))"

text \<open>What a send puts on the stream: in clear text the frame, through ciphers its ciphertext, or a first part.\<close>

lemma sink_run_clear:
  assumes "writes_ok IO wrote" and "sink_run C IO (Cleartext t) s ps u"
  shows "\<exists>t1 w. s = Cleartext t1 \<and> ps = w @ u \<and> wrote t1 = wrote t @ w"
  using assms(2)
proof (induction rule: sink_run.induct)
  case (sink_ready s ps u n s')
  then obtain t1 w where s: "s = Cleartext t1" "ps = w @ u" "wrote t1 = wrote t @ w" by blast
  obtain p t2 where io: "io_write IO t1 u = (p, t2)" by (cases "io_write IO t1 u")
  with writes_okD [OF assms(1) io] sink_ready.hyps(2) s show ?case
    by (auto simp: poll_write_def intro!: exI [of _ "w @ take n u"])
next
  case (sink_pending s ps u s')
  then obtain t1 w where s: "s = Cleartext t1" "ps = w @ u" "wrote t1 = wrote t @ w" by blast
  obtain p t2 where io: "io_write IO t1 u = (p, t2)" by (cases "io_write IO t1 u")
  with writes_okD [OF assms(1) io] sink_pending.hyps(2) s show ?case
    by (auto simp: poll_write_def)
qed auto

lemma poll_write_fails:
  assumes "writes_ok IO wrote" and "poll_write C IO s u = Ret (Ready (Err x), s1)"
  shows "wrote (sock_stream s1) = wrote (sock_stream s)"
  using assms(2)
  by (cases s) (auto simp: poll_write_def Let_def slice_from_def dest: writes_okD [OF assms(1)]
    split: prod.splits poll.splits result.splits option.splits if_splits)

text \<open>What the wrapped stream has taken after a send.\<close>

lemma same_sink_stream: "same_sink wrote s s1 \<Longrightarrow> wrote (sock_stream s1) = wrote (sock_stream s)"
  by (cases "(wrote, s, s1)" rule: same_sink.cases) auto

lemma same_sink_Cleartext: "same_sink wrote (Cleartext t) s \<longleftrightarrow> (\<exists>t1. s = Cleartext t1 \<and> wrote t1 = wrote t)"
  by (cases s) auto

lemma stream_sentD:
  assumes "writes_ok IO wrote" and "framed_ok L C IO wrote S" and "stream_sent S bs fr fr1" and "fr_write_buf fr = []"
  shows "\<exists>f s u s1. (f = [] \<or> frame_of L bs f) \<and> sink_run C IO (fr_io fr) s f u \<and>
    (s1 = s \<or> (\<exists>x. poll_write C IO s u = Ret (Ready (Err x), s1))) \<and>
    same_sink wrote s1 (fr_io fr1) \<and> wrote (sock_stream (fr_io fr1)) = wrote (sock_stream s)"
proof -
  from assms(2,3) have "\<exists>f s u s1. (f = [] \<or> frame_of L bs f) \<and> sink_run C IO (fr_io fr) s (fr_write_buf fr @ f) u \<and>
      (s1 = s \<or> (\<exists>x. poll_write C IO s u = Ret (Ready (Err x), s1))) \<and> same_sink wrote s1 (fr_io fr1)"
    unfolding framed_ok_def by blast
  then obtain f s u s1 where "f = [] \<or> frame_of L bs f" "sink_run C IO (fr_io fr) s f u"
    and last: "s1 = s \<or> (\<exists>x. poll_write C IO s u = Ret (Ready (Err x), s1))" and same: "same_sink wrote s1 (fr_io fr1)"
    unfolding assms(4) append_Nil by blast
  moreover have "wrote (sock_stream (fr_io fr1)) = wrote (sock_stream s)"
    using last same_sink_stream [OF same] poll_write_fails [OF assms(1)] by auto
  ultimately show ?thesis by blast
qed

lemma frame_part_prefix: "f = [] \<or> frame_of L bs f \<Longrightarrow> f = w @ u \<Longrightarrow> frame_part L bs w"
  by (auto simp: frame_part_def)

lemma sent_clear:
  assumes "writes_ok IO wrote" and "framed_ok L C IO wrote S" and "stream_sent S bs fr fr1"
    and "fr_io fr = Cleartext t" and "fr_write_buf fr = []"
  shows "\<exists>t1 w. fr_io fr1 = Cleartext t1 \<and> frame_part L bs w \<and> wrote t1 = wrote t @ w"
proof -
  from stream_sentD [OF assms(1-3,5), unfolded assms(4)] obtain f s u s1 where f: "f = [] \<or> frame_of L bs f"
    and run: "sink_run C IO (Cleartext t) s f u"
    and last: "s1 = s \<or> (\<exists>x. poll_write C IO s u = Ret (Ready (Err x), s1))"
    and same: "same_sink wrote s1 (fr_io fr1)" and out: "wrote (sock_stream (fr_io fr1)) = wrote (sock_stream s)"
    by blast
  from sink_run_clear [OF assms(1) run] obtain t1 w where s: "s = Cleartext t1" "f = w @ u" "wrote t1 = wrote t @ w"
    by blast
  from last s(1) have "\<exists>t2. s1 = Cleartext t2" by (auto simp: poll_write_def split: prod.splits)
  with same out s frame_part_prefix [OF f] show ?thesis by (auto simp: same_sink_Cleartext)
qed

lemma sent_encrypted:
  assumes "writes_ok IO wrote" and "framed_ok L C IO wrote S" and "stream_sent S bs fr fr1"
    and "fr_io fr = Encrypted t d e None" and "fr_write_buf fr = []"
  shows "\<exists>w. frame_part L bs w \<and> wrote (sock_stream (fr_io fr1)) = wrote t @ fst (cipher_bytes (enc_byte C) e w)"
proof -
  from stream_sentD [OF assms(1-3,5), unfolded assms(4)] obtain f s u where f: "f = [] \<or> frame_of L bs f"
    and run: "sink_run C IO (Encrypted t d e None) s f u"
    and out: "wrote (sock_stream (fr_io fr1)) = wrote (sock_stream s)"
    by blast
  have "\<exists>w. f = w @ u \<and> wrote (sock_stream s) = wrote t @ fst (cipher_bytes (enc_byte C) e w)"
    using sink_run_inv [OF assms(1) run] unfolding sink_inv_def by (auto simp: cipher_bytes_append)
  with out frame_part_prefix [OF f] show ?thesis by auto
qed

lemma read_keeps:
  assumes "framed_ok L C IO wrote S" and "stream_read S fr fr1"
  shows "fr_write_buf fr1 = fr_write_buf fr"
    and "wrote (sock_stream (fr_io fr1)) = wrote (sock_stream (fr_io fr))"
    and "fr_io fr = Cleartext t \<Longrightarrow> \<exists>t1. fr_io fr1 = Cleartext t1 \<and> wrote t1 = wrote t"
proof -
  from assms have b: "fr_write_buf fr1 = fr_write_buf fr" and s: "same_sink wrote (fr_io fr) (fr_io fr1)"
    unfolding framed_ok_def by blast+
  from b show "fr_write_buf fr1 = fr_write_buf fr" .
  from same_sink_stream [OF s] show "wrote (sock_stream (fr_io fr1)) = wrote (sock_stream (fr_io fr))" .
  from s show "\<exists>t1. fr_io fr1 = Cleartext t1 \<and> wrote t1 = wrote t" if "fr_io fr = Cleartext t"
    using that by (simp add: same_sink_Cleartext)
qed

section \<open>The login\<close>

lemma stop_always: "always (bind_task (shutdown (lib_mc E) login_stream self) (\<lambda>_. ret None)) tr
    (\<lambda>res t. \<forall>a. res = Some a \<longrightarrow> Q a t)"
  by (rule always_then) simp

lemma response_quiet: "always (handle_encryption_response E resp self) tr (\<lambda>_ t. sents t = sents tr)"
  unfolding handle_encryption_response_def
  by (intro safe_rules asks_safe await_bytes_safe) simp_all

text \<open>What the wrapped stream of an actor's framed stream has taken.\<close>

abbreviation taken_by :: "('t \<Rightarrow> bytes) \<Rightarrow> ('t, 'd, 'e) MCSocket Framed \<Rightarrow> bytes" where
  "taken_by wrote fr \<equiv> wrote (sock_stream (fr_io fr))"

definition clear_stream :: "('t, 'd, 'e) MCSocket Framed \<Rightarrow> bool" where
  "clear_stream fr \<longleftrightarrow> (\<exists>t. fr_io fr = Cleartext t)"

lemma request_wire:
  assumes "writes_ok IO wrote" and "framed_ok L C IO wrote (lib_mc E)"
    and "clear_stream (la_framer self)" and "fr_write_buf (la_framer self) = []"
  shows "always (handle_login_start E K login self) tr (\<lambda>(started, self1) tr1. started \<longrightarrow>
    clear_stream (la_framer self1) \<and>
    (\<exists>t b w. frame_part L b w \<and> sents tr1 = sents tr @ [(Cleartext t, b)] \<and>
       taken_by wrote (la_framer self1) = taken_by wrote (la_framer self) @ w))"
proof -
  from assms(3) obtain t where t: "fr_io (la_framer self) = Cleartext t" by (auto simp: clear_stream_def)
  have sent: "clear_stream st1 \<and> (\<exists>w. frame_part L bs w \<and> taken_by wrote st1 = wrote t @ w)"
    if "stream_sent (lib_mc E) bs (la_framer self) st1" for bs st1
    using sent_clear [OF assms(1,2) that t assms(4)] by (auto simp: clear_stream_def)
  show ?thesis
    unfolding handle_login_start_def Let_def
    by (intro safe_rules asks_safe await_bytes_safe la.send_always) (auto simp: t dest!: sent)
qed

lemma login_encrypt_clear:
  "login_encrypt E key self = (self1, res) \<Longrightarrow> is_ok res \<Longrightarrow> clear_stream (la_framer self) \<Longrightarrow>
    (\<exists>t d e. fr_io (la_framer self1) = Encrypted t d e None) \<and> fr_write_buf (la_framer self1) = [] \<and>
    taken_by wrote (la_framer self1) = taken_by wrote (la_framer self)"
  by (auto simp: login_encrypt_def FramedParts_new_def clear_stream_def split: result.splits prod.splits)

text \<open>After the switch: the ciphertext of the success, or of a first part of it, or nothing when it was not written.\<close>

definition success_part :: "net_lib \<Rightarrow> ('d, 'e) cipher_lib \<Rightarrow> bytes \<Rightarrow> (('t, 'd, 'e) MCSocket \<times> bytes) list \<Rightarrow> bool" where
  "success_part L C out fs \<longleftrightarrow>
     (fs = [] \<and> out = [] \<or>
      (\<exists>t d e b w. fs = [(Encrypted t d e None, b)] \<and> frame_part L b w \<and>
         out = fst (cipher_bytes (enc_byte C) e w)))"

lemma success_wire:
  assumes "writes_ok IO wrote" and "framed_ok L C IO wrote (lib_mc E)"
    and "\<exists>t d e. fr_io (la_framer self) = Encrypted t d e None" and "fr_write_buf (la_framer self) = []"
  shows "always
    (bind_task (send (lib_mc E) login_stream (lp_success K) p self) (\<lambda>(_, self6).
     bind_task (read_custom (lib_mc E) login_stream i rd self6) (\<lambda>(ack, self7).
     case ack of
       Some _ \<Rightarrow>
         bind_task (configuration_spawn (la_id self7) (la_client_address self7) (la_framer self7)
           (la_tracker self7) (la_server self7) profile) (\<lambda>a. ret (Some a))
     | None \<Rightarrow> bind_task (shutdown (lib_mc E) login_stream self7) (\<lambda>_. ret None)))) tr
    (\<lambda>res t1. \<forall>a. res = Some a \<longrightarrow> (\<exists>rest out. sents t1 = sents tr @ rest \<and> success_part L C out rest \<and>
       taken_by wrote (ca_framer a) = taken_by wrote (la_framer self) @ out))"
proof -
  from assms(3) obtain t d e where t: "fr_io (la_framer self) = Encrypted t d e None" by blast
  have sent: "\<exists>w. frame_part L bs w \<and> taken_by wrote st1 = wrote t @ fst (cipher_bytes (enc_byte C) e w)"
    if "stream_sent (lib_mc E) bs (la_framer self) st1" for bs st1
    using sent_encrypted [OF assms(1,2) that t assms(4)] .
  show ?thesis
    unfolding configuration_spawn_def Let_def
    by (intro stop_always safe_bind la.send_always la.read_custom_always safe_case_prod safe_case_option safe_emit)
      (auto simp: t success_part_def read_keeps(2) [OF assms(2)] dest!: sent)
qed

definition login_wire :: "net_lib \<Rightarrow> ('d, 'e) cipher_lib \<Rightarrow> bytes \<Rightarrow> bytes \<Rightarrow>
    (('t, 'd, 'e) MCSocket \<times> bytes) list \<Rightarrow> bool" where
  "login_wire L C clear sealed fs \<longleftrightarrow>
     (\<exists>t b rest. fs = (Cleartext t, b) # rest \<and> frame_part L b clear \<and> success_part L C sealed rest)"

text \<open>What a client makes of the sealed part, with the decryptor of the key it sent.\<close>

definition client_reads :: "net_lib \<Rightarrow> ('d, 'e) cipher_lib \<Rightarrow> bytes \<Rightarrow> (('t, 'd, 'e) MCSocket \<times> bytes) list \<Rightarrow> bool" where
  "client_reads L C sealed fs \<longleftrightarrow>
     (\<forall>t d e b. (Encrypted t d e None, b) \<in> set fs \<longrightarrow> frame_part L b (fst (cipher_bytes (dec_byte C) d sealed)))"

lemma client_reads_login:
  assumes "ciphers_ok (lib_cipher E) in_step" and "login_frames_ok E K tr fs"
    and "login_wire L (lib_cipher E) clear sealed fs"
  shows "client_reads L (lib_cipher E) sealed fs"
  unfolding client_reads_def
proof (intro allI impI)
  fix t d e b
  assume in_fs: "(Encrypted t d e None, b) \<in> set fs"
  with assms(3) obtain t1 b1 w where fs: "fs = [(Cleartext t1, b1), (Encrypted t d e None, b)]"
    and w: "frame_part L b w" "sealed = fst (cipher_bytes (enc_byte (lib_cipher E)) e w)"
    by (auto simp: login_wire_def success_part_def)
  from assms(2) have "success_ok E K tr (Encrypted t d e None, b)" by (simp add: fs)
  then obtain key where "length key = 16" "prepare_encryption (lib_cipher E) key = Ok (d, e)"
    unfolding success_ok_def key_agreed_def by force
  with assms(1) have "in_step d e"
    unfolding ciphers_ok_def prepare_encryption_def by force
  with w show "frame_part L b (fst (cipher_bytes (dec_byte (lib_cipher E)) d sealed))"
    by (simp add: cipher_bytes_inverse [OF assms(1)])
qed

lemma read_clear:
  assumes "framed_ok L C IO wrote S" and "stream_read S fr fr1" and "clear_stream fr"
  shows "clear_stream fr1" and "taken_by wrote fr1 = taken_by wrote fr"
  using assms read_keeps(2,3) [OF assms(1,2)] by (auto simp: clear_stream_def)

lemma switch_wire:
  assumes "framed_ok L C IO wrote (lib_mc E)" and "stream_read (lib_mc E) (la_framer self) st"
    and "clear_stream (la_framer self)" and "login_encrypt E key (sa_put login_stream st self) = (self1, res)"
    and "is_ok res"
  shows "\<exists>t d e. fr_io (la_framer self1) = Encrypted t d e None" and "fr_write_buf (la_framer self1) = []"
    and "taken_by wrote (la_framer self1) = taken_by wrote (la_framer self)"
  using login_encrypt_clear [OF assms(4,5), where wrote = wrote] read_clear [OF assms(1-3)]
  by (simp_all add: login_stream_def)

lemma login_run_wire:
  assumes "writes_ok IO wrote" and "framed_ok L C IO wrote (lib_mc E)"
    and "clear_stream (la_framer self)" and "fr_write_buf (la_framer self) = []"
  shows "always (login_run E K self) [] (\<lambda>res tr. \<forall>a. res = Some a \<longrightarrow>
    (\<exists>clear sealed. taken_by wrote (ca_framer a) = taken_by wrote (la_framer self) @ clear @ sealed \<and>
       login_wire L C clear sealed (sents tr)))"
  unfolding login_run_def Let_def read_def read_empty_def
  by (intro stop_always safe_mono [OF success_wire [OF assms(1,2)]]
      safe_mono [OF request_wire [OF assms(1,2)]] safe_mono [OF response_quiet]
      safe_bind la.read_custom_always safe_case_prod safe_case_option safe_if safe_lift_run)
    (auto simp: read_clear [OF assms(2)] read_keeps(1) [OF assms(2)] assms(3,4) login_wire_def
      switch_wire [OF assms(2)], blast)

section \<open>Properties\<close>

text \<open>
  C3: What the network sees of a login. The login starts on a stream in clear text that has
  everything written. When it hands over to the configuration state, the bytes that the TCP stream has
  taken from it are: in clear text the frame of the encryption request, or a first part of it when the
  stream failed; and, when the success could be serialised, the ciphertext of its frame, or of a first
  part of it, under the encryptor that was made from the agreed secret, from its initial state. No
  other byte was written, none in clear text after the switch; and a client that decrypts the second
  part with the same key gets the frame of the success, or a first part of it.
\<close>

theorem login_bytes_on_wire:
  assumes "writes_ok IO wrote" and "framed_ok L (lib_cipher E) IO wrote (lib_mc E)"
    and "ciphers_ok (lib_cipher E) in_step"
    and "fr_io (la_framer self) = Cleartext t" and "fr_write_buf (la_framer self) = []"
    and "cx_trace c = []" and "login_run E K self c = Done (Some a) c1"
  shows "\<exists>clear sealed. wrote (sock_stream (fr_io (ca_framer a))) = wrote t @ clear @ sealed \<and>
    login_frames_ok E K (cx_trace c1) (sents (cx_trace c1)) \<and>
    login_wire L (lib_cipher E) clear sealed (sents (cx_trace c1)) \<and>
    client_reads L (lib_cipher E) sealed (sents (cx_trace c1))"
proof -
  have "safe (login_run E K self) [] (\<lambda>_. login_safe E K) (\<lambda>_. login_safe E K) (login_safe E K)"
    by (rule safe_mono [OF login_run_safe]) auto
  from safe_cases(1) [OF this assms(6,7)] have frames: "login_frames_ok E K (cx_trace c1) (sents (cx_trace c1))"
    by (simp add: login_safe_def)
  from assms(4) have "clear_stream (la_framer self)" by (simp add: clear_stream_def)
  from safe_cases(1) [OF login_run_wire [OF assms(1,2) this assms(5)] assms(6,7)] assms(4)
  obtain clear sealed where "wrote (sock_stream (fr_io (ca_framer a))) = wrote t @ clear @ sealed"
    "login_wire L (lib_cipher E) clear sealed (sents (cx_trace c1))"
    by auto
  with frames client_reads_login [OF assms(3)] show ?thesis by blast
qed

text \<open>A framed stream that writes through the socket, over a TCP stream that takes all it is given.\<close>

definition wire_framed :: "((mem_stream, bytes \<times> bytes, bytes \<times> bytes) MCSocket, unit, script_world) framed_lib" where
  "wire_framed = \<lparr>
     fl_next = fl_next script_framed, fl_cancel = fl_cancel script_framed,
     fl_send = (\<lambda>bs fr w. case encode leb_lib bs (fr_write_buf fr) of
         Ret (Ok _, buf) \<Rightarrow> (case poll_write cfb_lib mem_io (fr_io fr) buf of
             Ret (Ready (Ok n), s) \<Rightarrow> Done (Ok (), fr\<lparr>fr_io := s, fr_write_buf := drop n buf\<rparr>) w
           | _ \<Rightarrow> Waiting w)
       | _ \<Rightarrow> Waiting w),
     fl_shutdown = fl_shutdown script_framed\<rparr>"

lemma encode_appends: "encode L bs dst = Ret (Ok u, buf) \<Longrightarrow> \<exists>f. buf = dst @ f"
  by (auto simp: encode_def Let_def split: prod.splits result.splits if_splits)

lemma wire_framed_sends:
  assumes "fl_send wire_framed bs fr w = Done (r, fr1) w1"
  shows "\<exists>buf n s. encode leb_lib bs (fr_write_buf fr) = Ret (Ok (), buf) \<and>
    poll_write cfb_lib mem_io (fr_io fr) buf = Ret (Ready (Ok n), s) \<and> fr_io fr1 = s"
proof -
  from assms obtain buf where buf: "encode leb_lib bs (fr_write_buf fr) = Ret (Ok (), buf)"
    by (cases "encode leb_lib bs (fr_write_buf fr)") (auto simp: wire_framed_def split: prod.split_asm result.split_asm)
  with assms show ?thesis
    by (cases "poll_write cfb_lib mem_io (fr_io fr) buf")
      (auto simp: wire_framed_def split: prod.split_asm poll.split_asm result.split_asm)
qed

lemma framed_ok_wire: "framed_ok leb_lib cfb_lib mem_io taken wire_framed"
  unfolding framed_ok_def
proof (intro conjI allI impI)
  fix fr fr1 :: "(mem_stream, bytes \<times> bytes, bytes \<times> bytes) MCSocket Framed"
  have same: "same_sink taken s s" for s by (cases s) simp_all
  show "fr_write_buf fr1 = fr_write_buf fr" "same_sink taken (fr_io fr) (fr_io fr1)" if "stream_read wire_framed fr fr1"
    using that by (auto simp: stream_read_def wire_framed_def script_framed_def same neq_Nil_conv split: list.splits)
  fix bs
  assume "stream_sent wire_framed bs fr fr1"
  then obtain buf n s where buf: "encode leb_lib bs (fr_write_buf fr) = Ret (Ok (), buf)"
    and poll: "poll_write cfb_lib mem_io (fr_io fr) buf = Ret (Ready (Ok n), s)" and s: "fr_io fr1 = s"
    unfolding stream_sent_def using wire_framed_sends by blast
  from encode_appends [OF buf] obtain f where f: "buf = fr_write_buf fr @ f" by blast
  have "sink_run cfb_lib mem_io (fr_io fr) (fr_io fr) buf buf"
    using sink_append [OF sink_start, of cfb_lib mem_io "fr_io fr" buf] by simp
  from sink_ready [OF this poll] have "sink_run cfb_lib mem_io (fr_io fr) s (fr_write_buf fr @ f) (drop n buf)"
    by (simp add: f)
  moreover have "frame_of leb_lib bs f"
    using buf f by (auto simp: frame_of_def)
  ultimately show "\<exists>f s u s1. (f = [] \<or> frame_of leb_lib bs f) \<and>
      sink_run cfb_lib mem_io (fr_io fr) s (fr_write_buf fr @ f) u \<and>
      (s1 = s \<or> (\<exists>x. poll_write cfb_lib mem_io s u = Ret (Ready (Err x), s1))) \<and> same_sink taken s1 (fr_io fr1)"
    using same s by blast
qed

definition wire_env :: "(mem_stream, bytes \<times> bytes, bytes \<times> bytes, unit, unit, unit, script_world) conn_lib" where
  "wire_env = \<lparr>lib_tcp = script_framed, lib_mc = wire_framed, lib_cipher = cfb_lib,
     lib_mpsc = script_mpsc, lib_reply = script_reply,
     lib_set_nodelay = (\<lambda>_ _ w. (if sw_open w then Ok () else Err (), w))\<rparr>"

definition wire_login_actor :: "(mem_stream, bytes \<times> bytes, bytes \<times> bytes, unit) LoginActor" where
  "wire_login_actor = login_actor 5 ''peer'' (FramedParts_new (mem_at [] [Some 9, Some 9]) MCCodec_new) 1 \<lparr>srv_sender = ()\<rparr>"

lemma encode_script_frames:
  "encode leb_lib [1, 2, 3, 4, 30, 31] [] = Ret (Ok (), [6, 1, 2, 3, 4, 30, 31])"
  "encode leb_lib [2] [] = Ret (Ok (), [1, 2])"
  using encode_packet_data [OF net_ok_leb, of "[]" "\<lparr>rp_id = 1, rp_payload = [2, 3, 4, 30, 31]\<rparr>"]
    encode_packet_data [OF net_ok_leb, of "[]" "\<lparr>rp_id = 2, rp_payload = []\<rparr>"]
  by (simp_all add: leb_eval)

lemma wire_login_eval:
  "\<exists>a c1. login_run wire_env script_login wire_login_actor (start_in (script_login_world key7)) = Done (Some a) c1 \<and>
     taken (sock_stream (fr_io (ca_framer a))) = [6, 1, 2, 3, 4, 30, 31, 28, 31]"
  by (simp add: login_eval wire_env_def wire_login_actor_def wire_framed_def key7_def encode_script_frames
     poll_write_def mem_io_def key_byte_def shift_in_def leftover_def slice_from_def Let_def)
    (simp add: eval_nat_numeral)

theorem login_bytes_on_wire_witness:
  "\<exists>a c1 clear sealed. login_run wire_env script_login wire_login_actor (start_in (script_login_world key7)) =
      Done (Some a) c1 \<and>
    clear @ sealed = [6, 1, 2, 3, 4, 30, 31, 28, 31] \<and> login_wire leb_lib cfb_lib clear sealed (sents (cx_trace c1))"
proof -
  from wire_login_eval obtain a c1 where run: "login_run wire_env script_login wire_login_actor
      (start_in (script_login_world key7)) = Done (Some a) c1"
    and out: "taken (sock_stream (fr_io (ca_framer a))) = [6, 1, 2, 3, 4, 30, 31, 28, 31]"
    by blast
  have "\<exists>clear sealed. taken (sock_stream (fr_io (ca_framer a))) = taken (mem_at [] [Some 9, Some 9]) @ clear @ sealed \<and>
      login_frames_ok wire_env script_login (cx_trace c1) (sents (cx_trace c1)) \<and>
      login_wire leb_lib (lib_cipher wire_env) clear sealed (sents (cx_trace c1)) \<and>
      client_reads leb_lib (lib_cipher wire_env) sealed (sents (cx_trace c1))"
    by (rule login_bytes_on_wire [where in_step = "(=)", OF writes_ok_mem _ _ _ _ _ run])
      (simp_all add: wire_env_def framed_ok_wire ciphers_ok_cfb wire_login_actor_def login_actor_def
        FramedParts_new_def MCSocket_new_def)
  then obtain clear sealed where "clear @ sealed = [6, 1, 2, 3, 4, 30, 31, 28, 31]"
    "login_wire leb_lib cfb_lib clear sealed (sents (cx_trace c1))"
    using out by (auto simp: wire_env_def)
  with run show ?thesis by blast
qed

end
