(* ===== verification/Server_Config_Correct.thy ===== *)
theory Server_Config_Correct
  imports Server_Config
begin

text \<open>
  The properties of the configuration reducers of the SpacetimeDB module, with a table held as a
  list of rows for the witnesses.
\<close>

section \<open>A concrete table\<close>

abbreviation list_rows :: "BasicConfiguration list \<Rightarrow> u8 \<Rightarrow> BasicConfiguration option" where
  "list_rows \<equiv> rows_by cfg_id"

definition list_table :: "BasicConfiguration list config_table" where
  "list_table = \<lparr>ct_count = length,
     ct_insert = (\<lambda>r db. if cfg_id r \<in> cfg_id ` set db then Panic else Ret (r, r # db)),
     ct_find = (\<lambda>i db. list_rows db i),
     ct_update = (\<lambda>r db. if cfg_id r \<in> cfg_id ` set db then Ret (r, replace_row cfg_id r db) else Panic)\<rparr>"

lemma list_table_ok: "config_table_ok list_table list_rows"
  unfolding config_table_ok_def
proof (intro allI conjI impI)
  fix db :: "BasicConfiguration list" and i r
  show "ct_count list_table db = 0 \<longleftrightarrow> list_rows db = Map.empty"
    by (cases db) (auto simp: list_table_def fun_eq_iff)
  show "ct_find list_table i db = list_rows db i" by (simp add: list_table_def)
  show "cfg_id r = i" if "list_rows db i = Some r"
    using that by (auto dest: rows_by_SomeD)
  show "\<exists>db1. ct_insert list_table r db = Ret (r, db1) \<and> list_rows db1 = (list_rows db)(cfg_id r \<mapsto> r)"
    if "list_rows db (cfg_id r) = None"
    using that unfolding rows_by_None_iff by (simp add: list_table_def)
  show "\<exists>db1. ct_update list_table r db = Ret (r, db1) \<and> list_rows db1 = (list_rows db)(cfg_id r \<mapsto> r)"
    if "list_rows db (cfg_id r) \<noteq> None"
    using that rows_by_None_iff [of cfg_id db "cfg_id r"] rows_by_replace [of cfg_id r db]
    by (simp add: list_table_def)
qed

section \<open>Calls of the module\<close>

text \<open>The reducers the database can run on the configuration, and a sequence of calls.\<close>

datatype config_call = Call_init | Call_connected | Call_disconnected | Call_update_motd string

fun run_config_call :: "'db config_table \<Rightarrow> config_call \<Rightarrow> 'db \<Rightarrow> ((unit, string) result \<times> 'db) run" where
  "run_config_call T Call_init db = bind_run (reducer_init T db) (\<lambda>db1. Ret (Ok (), db1))"
| "run_config_call T Call_connected db = Ret (Ok (), client_connected db)"
| "run_config_call T Call_disconnected db = Ret (Ok (), client_disconnected db)"
| "run_config_call T (Call_update_motd m) db = update_motd T m db"

fun run_config_calls :: "'db config_table \<Rightarrow> config_call list \<Rightarrow> 'db \<Rightarrow> ((unit, string) result list \<times> 'db) run" where
  "run_config_calls T [] db = Ret ([], db)"
| "run_config_calls T (c # cs) db =
     bind_run (run_config_call T c db) (\<lambda>(r, db1).
     bind_run (run_config_calls T cs db1) (\<lambda>(rs, db2). Ret (r # rs, db2)))"

fun last_motd :: "string \<Rightarrow> config_call list \<Rightarrow> string" where
  "last_motd m [] = m"
| "last_motd m (Call_update_motd n # cs) = last_motd n cs"
| "last_motd m (c # cs) = last_motd m cs"

lemma run_config_calls_one_row:
  assumes "config_table_ok T rows" and "rows db = [0 \<mapsto> c]"
  shows "\<exists>rs db1. run_config_calls T cs db = Ret (rs, db1) \<and> set rs \<subseteq> {Ok ()} \<and>
    rows db1 = [0 \<mapsto> c\<lparr>motd := last_motd (motd c) cs\<rparr>]"
  using assms(2)
proof (induction cs arbitrary: db c)
  case (Cons a cs)
  have "\<exists>db1. run_config_call T a db = Ret (Ok (), db1) \<and>
      rows db1 = [0 \<mapsto> c\<lparr>motd := last_motd (motd c) [a]\<rparr>]"
  proof (cases a)
    case Call_init
    with server_init_rows [OF assms(1), of db] Cons.prems show ?thesis
      by (auto simp: reducer_init_def fun_eq_iff split: if_splits)
  next
    case (Call_update_motd m)
    with update_motd_rows [OF assms(1), of m db] Cons.prems show ?thesis by (auto simp: fun_eq_iff)
  qed (use Cons.prems in \<open>simp_all add: client_connected_def client_disconnected_def fun_eq_iff\<close>)
  then obtain db1 where one: "run_config_call T a db = Ret (Ok (), db1)"
    and rows1: "rows db1 = [0 \<mapsto> c\<lparr>motd := last_motd (motd c) [a]\<rparr>]" by blast
  from Cons.IH [OF rows1] obtain rs db2 where "run_config_calls T cs db1 = Ret (rs, db2)"
    and "set rs \<subseteq> {Ok ()}"
    and "rows db2 = [0 \<mapsto> c\<lparr>motd := last_motd (motd c) [a]\<rparr>
      \<lparr>motd := last_motd (motd (c\<lparr>motd := last_motd (motd c) [a]\<rparr>)) cs\<rparr>]" by blast
  moreover have "last_motd (last_motd (motd c) [a]) cs = last_motd (motd c) (a # cs)"
    by (cases a) simp_all
  ultimately show ?case by (simp add: one fun_eq_iff)
qed simp

text \<open>
  C23: The configuration row of a fresh module. After the \<open>init\<close> reducer has run on an empty table,
  every sequence of reducer calls (further \<open>init\<close>s, connects, disconnects and changes of the
  message of the day) succeeds without a panic and leaves exactly one row, with key 0: the default
  configuration with the last message of the day that was set.
\<close>

theorem config_row_after_calls:
  assumes "config_table_ok T rows" and "rows db = Map.empty"
  shows "\<exists>db0 rs db1. reducer_init T db = Ret db0 \<and> run_config_calls T cs db0 = Ret (rs, db1) \<and>
    set rs \<subseteq> {Ok ()} \<and>
    rows db1 = [0 \<mapsto> BasicConfiguration_default
      \<lparr>motd := last_motd (motd BasicConfiguration_default) cs\<rparr>]"
proof -
  obtain db0 where "reducer_init T db = Ret db0" and rows0: "rows db0 = [0 \<mapsto> BasicConfiguration_default]"
    using server_init_rows [OF assms(1), of db] assms(2) by (auto simp: reducer_init_def)
  with run_config_calls_one_row [OF assms(1) rows0, of cs] show ?thesis by blast
qed

theorem config_row_after_calls_witness:
  "\<exists>db0 rs db1. reducer_init list_table [] = Ret db0 \<and>
    run_config_calls list_table [Call_update_motd ''a'', Call_init, Call_update_motd ''b''] db0 = Ret (rs, db1) \<and>
    set rs \<subseteq> {Ok ()} \<and>
    list_rows db1 = [0 \<mapsto> BasicConfiguration_default\<lparr>motd := ''b''\<rparr>]"
  using config_row_after_calls [OF list_table_ok, of "[]"
      "[Call_update_motd ''a'', Call_init, Call_update_motd ''b'']"]
  by simp

text \<open>
  Changing the message of the day touches nothing else. The reducer never panics; without a
  row 0 it returns its error and leaves the database alone; with one it succeeds, and the table
  after it differs from the table before only in the \<open>motd\<close> field of row 0.
\<close>

theorem update_motd_only_motd:
  assumes "config_table_ok T rows"
  shows "\<exists>r db1. update_motd T m db = Ret (r, db1) \<and>
    (is_ok r \<longleftrightarrow> rows db 0 \<noteq> None) \<and> (\<not> is_ok r \<longrightarrow> db1 = db) \<and>
    (\<forall>i. i \<noteq> 0 \<longrightarrow> rows db1 i = rows db i) \<and>
    rows db1 0 = map_option (motd_update (\<lambda>_. m)) (rows db 0)"
  using update_motd_rows [OF assms, of m db] by (auto split: option.splits)

theorem update_motd_only_motd_witness:
  "\<exists>r db1. update_motd list_table ''hi'' [BasicConfiguration_default] = Ret (r, db1) \<and>
    is_ok r \<and> list_rows db1 0 = Some (BasicConfiguration_default\<lparr>motd := ''hi''\<rparr>)"
  using update_motd_only_motd [OF list_table_ok, of "''hi''" "[BasicConfiguration_default]"]
  by auto

end
