(* ===== verification/Player_Module.thy ===== *)
theory Player_Module
  imports Prelude
begin

text \<open>
  The player half of the SpacetimeDB module: \<open>server/src/player.rs\<close>, the row \<open>Player\<close> and the reducer
  \<open>add_player\<close>, and \<open>server/src/types_support.rs\<close>, the wrapper \<open>UUID\<close> and its conversions.
  The crate \<open>uuid\<close> and the table are parameters.
\<close>

section \<open>The UUID wrapper\<close>

text \<open>A \<open>uuid::Uuid\<close> is the 128-bit number it stands for.\<close>

datatype UUID = UUID u128

definition UUID_new :: "u128 \<Rightarrow> UUID" where
  "UUID_new u = UUID u"

fun as_u128 :: "UUID \<Rightarrow> u128" where
  "as_u128 (UUID u) = u"

text \<open>
  The wire form in the database is the number itself: \<open>ser\<close> is the serializer's \<open>serialize_u128\<close>,
  \<open>r\<close> the result of \<open>u128::deserialize\<close>.
\<close>

definition UUID_serialize :: "(u128 \<Rightarrow> 'out) \<Rightarrow> UUID \<Rightarrow> 'out" where
  "UUID_serialize ser u = ser (as_u128 u)"

fun UUID_deserialize :: "(u128, 'e) result \<Rightarrow> (UUID, 'e) result" where
  "UUID_deserialize (Ok u) = Ok (UUID u)"
| "UUID_deserialize (Err e) = Err e"

datatype AlgebraicType = U128 | OtherType string

definition UUID_meta_type :: AlgebraicType where
  "UUID_meta_type = U128"

text \<open>
  Parsing and printing are those of the crate: \<open>parse\<close> is \<open>Uuid::from_str\<close> with the error already
  turned into a string, \<open>show_uuid\<close> its \<open>Display\<close>.
\<close>

fun UUID_from_str :: "(string \<Rightarrow> (u128, 'e) result) \<Rightarrow> ('e \<Rightarrow> string) \<Rightarrow> string \<Rightarrow> (UUID, string) result" where
  "UUID_from_str parse err_string s =
     map_err err_string (case parse s of Ok u \<Rightarrow> Ok (UUID_new u) | Err e \<Rightarrow> Err e)"

definition UUID_fmt :: "(u128 \<Rightarrow> string) \<Rightarrow> UUID \<Rightarrow> string" where
  "UUID_fmt show_uuid u = show_uuid (as_u128 u)"

section \<open>Players\<close>

text \<open>A \<open>Timestamp\<close> is a number of microseconds.\<close>

record Player =
  entity_id :: u32
  last_known_username :: "string option"
  profile_id :: u128
  online :: bool
  last_seen :: i64

definition Player_new :: "string \<Rightarrow> u128 \<Rightarrow> i64 \<Rightarrow> Player" where
  "Player_new username pid now = \<lparr>entity_id = 0, last_known_username = Some username,
     profile_id = pid, online = False, last_seen = now\<rparr>"

text \<open>
  The table \<open>player\<close>: \<open>pt_find\<close> looks a row up by its unique \<open>profile_id\<close>, \<open>pt_update\<close> replaces the row
  with the same \<open>entity_id\<close>, \<open>pt_insert\<close> adds one, giving it the next \<open>entity_id\<close> when it has 0.
\<close>

record 'db player_table =
  pt_find :: "u128 \<Rightarrow> 'db \<Rightarrow> Player option"
  pt_update :: "Player \<Rightarrow> 'db \<Rightarrow> (Player \<times> 'db) run"
  pt_insert :: "Player \<Rightarrow> 'db \<Rightarrow> (Player \<times> 'db) run"

text \<open>The reducer, on the time of the call and the database.\<close>

definition add_player :: "(string \<Rightarrow> (u128, 'e) result) \<Rightarrow> ('e \<Rightarrow> string) \<Rightarrow> 'db player_table \<Rightarrow> i64 \<Rightarrow>
    string \<Rightarrow> string \<Rightarrow> 'db \<Rightarrow> ((unit, string) result \<times> 'db) run" where
  "add_player parse err_string T now username profile_id_str db =
     (case UUID_from_str parse err_string profile_id_str of
        Err e \<Rightarrow> Ret (Err e, db)
      | Ok u \<Rightarrow>
          (let pid = as_u128 u in
           bind_run
             (case pt_find T pid db of
                Some player \<Rightarrow>
                  pt_update T (player\<lparr>last_known_username := Some username, last_seen := now\<rparr>) db
              | None \<Rightarrow> pt_insert T (Player_new username pid now) db)
             (\<lambda>(player, db1). Ret (Ok (), db1))))"

section \<open>What the table promises\<close>

text \<open>
  \<open>valid\<close> are the states the database can be in, \<open>rows\<close> the table as a map from the primary key,
  and \<open>ids_left\<close> says that the sequence of entity ids is not used up. In a valid state the rows have
  their keys and no two rows share a profile.
\<close>

definition player_table_wf :: "(u32 \<Rightarrow> Player option) \<Rightarrow> bool" where
  "player_table_wf m \<longleftrightarrow> (\<forall>e r. m e = Some r \<longrightarrow> entity_id r = e) \<and>
     (\<forall>e1 e2 r1 r2. m e1 = Some r1 \<longrightarrow> m e2 = Some r2 \<longrightarrow> profile_id r1 = profile_id r2 \<longrightarrow> e1 = e2)"

definition has_profile :: "(u32 \<Rightarrow> Player option) \<Rightarrow> u128 \<Rightarrow> bool" where
  "has_profile m p \<longleftrightarrow> (\<exists>e r. m e = Some r \<and> profile_id r = p)"

definition player_table_ok :: "'db player_table \<Rightarrow> ('db \<Rightarrow> bool) \<Rightarrow> ('db \<Rightarrow> bool) \<Rightarrow>
    ('db \<Rightarrow> u32 \<Rightarrow> Player option) \<Rightarrow> bool" where
  "player_table_ok T valid ids_left rows \<longleftrightarrow> (\<forall>db. valid db \<longrightarrow>
     player_table_wf (rows db) \<and>
     (\<forall>p r. pt_find T p db = Some r \<longrightarrow> rows db (entity_id r) = Some r \<and> profile_id r = p) \<and>
     (\<forall>p. pt_find T p db = None \<longrightarrow> \<not> has_profile (rows db) p) \<and>
     (\<forall>r old. rows db (entity_id r) = Some old \<longrightarrow> profile_id r = profile_id old \<longrightarrow>
        (\<exists>db1. pt_update T r db = Ret (r, db1) \<and> valid db1 \<and> rows db1 = (rows db)(entity_id r \<mapsto> r))) \<and>
     (\<forall>r. entity_id r = 0 \<longrightarrow> ids_left db \<longrightarrow> \<not> has_profile (rows db) (profile_id r) \<longrightarrow>
        (\<exists>e db1. pt_insert T r db = Ret (r\<lparr>entity_id := e\<rparr>, db1) \<and> valid db1 \<and>
           rows db e = None \<and> rows db1 = (rows db)(e \<mapsto> r\<lparr>entity_id := e\<rparr>))))"

lemma player_table_okD:
  assumes "player_table_ok T valid ids_left rows" and "valid db"
  shows "player_table_wf (rows db)"
    and "pt_find T p db = Some r \<Longrightarrow> rows db (entity_id r) = Some r \<and> profile_id r = p"
    and "pt_find T p db = None \<Longrightarrow> \<not> has_profile (rows db) p"
    and "rows db (entity_id r) = Some old \<Longrightarrow> profile_id r = profile_id old \<Longrightarrow>
      \<exists>db1. pt_update T r db = Ret (r, db1) \<and> valid db1 \<and> rows db1 = (rows db)(entity_id r \<mapsto> r)"
    and "entity_id r = 0 \<Longrightarrow> ids_left db \<Longrightarrow> \<not> has_profile (rows db) (profile_id r) \<Longrightarrow>
      \<exists>e db1. pt_insert T r db = Ret (r\<lparr>entity_id := e\<rparr>, db1) \<and> valid db1 \<and>
        rows db e = None \<and> rows db1 = (rows db)(e \<mapsto> r\<lparr>entity_id := e\<rparr>)"
  using assms unfolding player_table_ok_def by blast+

lemma player_table_wf_profile:
  "player_table_wf m \<Longrightarrow> m e1 = Some r1 \<Longrightarrow> m e2 = Some r2 \<Longrightarrow> profile_id r1 = profile_id r2 \<Longrightarrow> e1 = e2"
  unfolding player_table_wf_def by blast

text \<open>The two ways a call with a readable profile id ends.\<close>

lemma add_player_known:
  assumes "player_table_ok T valid ids_left rows" and "valid db"
    and "parse ps = Ok p" and "pt_find T p db = Some old"
  shows "\<exists>db1. add_player parse es T now u ps db = Ret (Ok (), db1) \<and> valid db1 \<and>
    rows db1 = (rows db)(entity_id old \<mapsto> old\<lparr>last_known_username := Some u, last_seen := now\<rparr>)"
proof -
  let ?new = "old\<lparr>last_known_username := Some u, last_seen := now\<rparr>"
  have "rows db (entity_id ?new) = Some old"
    using player_table_okD(2) [OF assms(1,2,4)] by simp
  from player_table_okD(4) [OF assms(1,2) this] obtain db1 where
    "pt_update T ?new db = Ret (?new, db1)" "valid db1" "rows db1 = (rows db)(entity_id old \<mapsto> ?new)"
    by auto
  then show ?thesis by (simp add: add_player_def UUID_new_def assms(3,4))
qed

lemma add_player_unknown:
  assumes "player_table_ok T valid ids_left rows" and "valid db" and "ids_left db"
    and "parse ps = Ok p" and "pt_find T p db = None"
  shows "\<exists>e db1. add_player parse es T now u ps db = Ret (Ok (), db1) \<and> valid db1 \<and>
    rows db e = None \<and> rows db1 = (rows db)(e \<mapsto> (Player_new u p now)\<lparr>entity_id := e\<rparr>)"
proof -
  have "\<not> has_profile (rows db) (profile_id (Player_new u p now))"
    using player_table_okD(3) [OF assms(1,2,5)] by (simp add: Player_new_def)
  from player_table_okD(5) [OF assms(1,2) _ assms(3) this] obtain e db1 where
    "pt_insert T (Player_new u p now) db = Ret ((Player_new u p now)\<lparr>entity_id := e\<rparr>, db1)"
    "valid db1" "rows db e = None" "rows db1 = (rows db)(e \<mapsto> (Player_new u p now)\<lparr>entity_id := e\<rparr>)"
    by (auto simp: Player_new_def)
  then show ?thesis by (auto simp: add_player_def UUID_new_def assms(4,5))
qed

end
