(* ===== verification/Player_Correct.thy ===== *)
theory Player_Correct
  imports Player_Module
begin

text \<open>
  The properties of the reducer \<open>add_player\<close> of the SpacetimeDB module, with a table held as a list
  of rows and a counter of entity ids for the witnesses.
\<close>

section \<open>A concrete table\<close>

type_synonym player_db = "nat \<times> Player list"

definition pdb_valid :: "player_db \<Rightarrow> bool" where
  "pdb_valid db \<longleftrightarrow> distinct (map profile_id (snd db)) \<and> distinct (map entity_id (snd db)) \<and>
     (\<forall>r \<in> set (snd db). unat (entity_id r) < fst db)"

definition pdb_ids_left :: "player_db \<Rightarrow> bool" where
  "pdb_ids_left db \<longleftrightarrow> fst db < 2 ^ 32"

definition pdb_rows :: "player_db \<Rightarrow> u32 \<Rightarrow> Player option" where
  "pdb_rows db = rows_by entity_id (snd db)"

definition pdb_table :: "player_db player_table" where
  "pdb_table = \<lparr>
     pt_find = (\<lambda>p db. rows_by profile_id (snd db) p),
     pt_update = (\<lambda>r db. if entity_id r \<in> entity_id ` set (snd db)
        then Ret (r, (fst db, replace_row entity_id r (snd db))) else Panic),
     pt_insert = (\<lambda>r db. if profile_id r \<in> profile_id ` set (snd db) then Panic
        else let new = r\<lparr>entity_id := of_nat (fst db)\<rparr> in Ret (new, (Suc (fst db), new # snd db)))\<rparr>"

lemma pdb_has_profile:
  "pdb_valid db \<Longrightarrow> has_profile (pdb_rows db) p \<longleftrightarrow> p \<in> profile_id ` set (snd db)"
  by (auto simp: has_profile_def pdb_rows_def pdb_valid_def rows_by_Some_iff)

lemma pdb_update_valid:
  assumes "pdb_valid db" and "old \<in> set (snd db)" and "entity_id old = entity_id r"
    and "profile_id old = profile_id r"
  shows "pdb_valid (fst db, replace_row entity_id r (snd db))"
proof -
  have "x = old" if "x \<in> set (snd db)" "entity_id x = entity_id r" for x
    using that assms by (metis pdb_valid_def distinct_map inj_onD)
  with assms(4) have "map profile_id (replace_row entity_id r (snd db)) = map profile_id (snd db)"
    and "map entity_id (replace_row entity_id r (snd db)) = map entity_id (snd db)"
    by (auto intro: map_replace_row)
  moreover have "\<forall>x \<in> set (replace_row entity_id r (snd db)). unat (entity_id x) < fst db"
    using assms set_replace_row [of entity_id r "snd db"] by (fastforce simp: pdb_valid_def)
  ultimately show ?thesis using assms(1) by (simp add: pdb_valid_def)
qed

lemma pdb_insert_valid:
  assumes "pdb_valid db" and "pdb_ids_left db" and "profile_id r \<notin> profile_id ` set (snd db)"
  shows "pdb_valid (Suc (fst db), r\<lparr>entity_id := of_nat (fst db)\<rparr> # snd db)"
    and "pdb_rows db (of_nat (fst db)) = None"
proof -
  have n: "unat (of_nat (fst db) :: u32) = fst db"
    using assms(2) by (simp add: pdb_ids_left_def unat_of_nat)
  then have new: "of_nat (fst db) \<notin> entity_id ` set (snd db)"
    using assms(1) by (force simp: pdb_valid_def)
  then show "pdb_rows db (of_nat (fst db)) = None"
    by (simp add: pdb_rows_def rows_by_None_iff)
  show "pdb_valid (Suc (fst db), r\<lparr>entity_id := of_nat (fst db)\<rparr> # snd db)"
    using assms(1,3) n new by (auto simp: pdb_valid_def less_SucI)
qed

lemma pdb_table_ok: "player_table_ok pdb_table pdb_valid pdb_ids_left pdb_rows"
  unfolding player_table_ok_def
proof (intro allI conjI impI)
  fix db p r old
  assume v: "pdb_valid db"
  then have dp: "distinct (map profile_id (snd db))" and de: "distinct (map entity_id (snd db))"
    by (simp_all add: pdb_valid_def)
  show "player_table_wf (pdb_rows db)"
    using dp de unfolding player_table_wf_def pdb_rows_def
    by (auto simp: rows_by_Some_iff distinct_map inj_on_def)
  show "pdb_rows db (entity_id r) = Some r" and "profile_id r = p" if "pt_find pdb_table p db = Some r"
    using that dp de by (simp_all add: pdb_table_def pdb_rows_def rows_by_Some_iff)
  show "\<not> has_profile (pdb_rows db) p" if "pt_find pdb_table p db = None"
    using that v by (simp add: pdb_table_def rows_by_None_iff pdb_has_profile)
  show "\<exists>db1. pt_update pdb_table r db = Ret (r, db1) \<and> pdb_valid db1 \<and>
      pdb_rows db1 = (pdb_rows db)(entity_id r \<mapsto> r)"
    if "pdb_rows db (entity_id r) = Some old" "profile_id r = profile_id old"
  proof -
    from that(1) have old: "old \<in> set (snd db)" "entity_id old = entity_id r"
      by (auto simp: pdb_rows_def dest: rows_by_SomeD)
    then have mem: "entity_id r \<in> entity_id ` set (snd db)" by (metis imageI)
    then show ?thesis
      using pdb_update_valid [OF v old] that(2) rows_by_replace [OF mem]
      by (simp add: pdb_table_def pdb_rows_def)
  qed
  show "\<exists>e db1. pt_insert pdb_table r db = Ret (r\<lparr>entity_id := e\<rparr>, db1) \<and> pdb_valid db1 \<and>
      pdb_rows db e = None \<and> pdb_rows db1 = (pdb_rows db)(e \<mapsto> r\<lparr>entity_id := e\<rparr>)"
    if "pdb_ids_left db" "\<not> has_profile (pdb_rows db) (profile_id r)"
  proof -
    from that(2) v have "profile_id r \<notin> profile_id ` set (snd db)" by (simp add: pdb_has_profile)
    from pdb_insert_valid [OF v that(1) this] this show ?thesis
      by (auto simp: pdb_table_def Let_def pdb_rows_def)
  qed
qed

section \<open>Properties\<close>

text \<open>
  What the reducer does on every branch. A profile id that cannot be read gives its error and
  leaves the database alone. Otherwise the call succeeds without a panic and changes exactly one
  row, the one of that profile: it holds the new name and the time of the call; if the profile was
  known the row keeps its entity id and its online flag, else it is a new row, offline.
\<close>

theorem add_player_upserts:
  assumes "player_table_ok T valid ids_left rows" and "valid db" and "ids_left db"
  shows "case parse ps of
      Err x \<Rightarrow> add_player parse es T now u ps db = Ret (Err (es x), db)
    | Ok p \<Rightarrow> (\<exists>db1 e r. add_player parse es T now u ps db = Ret (Ok (), db1) \<and> valid db1 \<and>
        rows db1 = (rows db)(e \<mapsto> r) \<and> entity_id r = e \<and> profile_id r = p \<and>
        last_known_username r = Some u \<and> last_seen r = now \<and>
        (case rows db e of
           Some old \<Rightarrow> profile_id old = p \<and> online r = online old
         | None \<Rightarrow> \<not> has_profile (rows db) p \<and> \<not> online r))"
proof (cases "parse ps")
  case (Err x)
  then show ?thesis by (simp add: add_player_def)
next
  case (Ok p)
  show ?thesis
  proof (cases "pt_find T p db")
    case (Some old)
    from add_player_known [where parse = parse and ps = ps, OF assms(1,2) Ok Some] player_table_okD(2) [OF assms(1,2) Some] Ok
    show ?thesis by force
  next
    case None
    from add_player_unknown [where parse = parse and ps = ps, OF assms Ok None] player_table_okD(3) [OF assms(1,2) None] Ok
    show ?thesis by (force simp: Player_new_def)
  qed
qed

abbreviation read_hex :: "string \<Rightarrow> (u128, nat) result" where
  "read_hex s \<equiv> (if s = ''x'' then Err 0 else Ok (of_nat (length s)))"

theorem add_player_upserts_witness:
  "\<exists>db1 e r. add_player read_hex (\<lambda>_. ''bad'') pdb_table 5 ''Alex'' ''abc'' (1, []) = Ret (Ok (), db1) \<and>
    pdb_rows db1 = [e \<mapsto> r] \<and> profile_id r = 3 \<and> last_known_username r = Some ''Alex'' \<and> \<not> online r"
  using add_player_upserts [OF pdb_table_ok, where db = "(1, [])" and parse = read_hex and ps = "''abc''"
      and es = "\<lambda>_. ''bad''" and now = 5 and u = "''Alex''"]
  by (auto simp: pdb_valid_def pdb_ids_left_def pdb_rows_def)

section \<open>Any number of calls\<close>

text \<open>
  The reducer called again and again, in one transaction each: the results, and the database after the
  last of them. The abstract store has one entry per profile: the name, the time it was last seen, and
  whether it is online.
\<close>

type_synonym add_call = "i64 \<times> string \<times> string"
type_synonym profiles = "u128 \<Rightarrow> (string option \<times> i64 \<times> bool) option"

fun add_players :: "(string \<Rightarrow> (u128, 'e) result) \<Rightarrow> ('e \<Rightarrow> string) \<Rightarrow> 'db player_table \<Rightarrow> add_call list \<Rightarrow>
    'db \<Rightarrow> ((unit, string) result list \<times> 'db) run" where
  "add_players parse es T [] db = Ret ([], db)"
| "add_players parse es T ((now, u, ps) # calls) db =
     bind_run (add_player parse es T now u ps db) (\<lambda>(r, db1).
     bind_run (add_players parse es T calls db1) (\<lambda>(rs, db2). Ret (r # rs, db2)))"

text \<open>The sequence of entity ids lasts for all the calls.\<close>

fun ids_last :: "(string \<Rightarrow> (u128, 'e) result) \<Rightarrow> ('e \<Rightarrow> string) \<Rightarrow> 'db player_table \<Rightarrow> ('db \<Rightarrow> bool) \<Rightarrow>
    add_call list \<Rightarrow> 'db \<Rightarrow> bool" where
  "ids_last parse es T ids_left [] db = True"
| "ids_last parse es T ids_left ((now, u, ps) # calls) db =
     (ids_left db \<and> (case add_player parse es T now u ps db of
        Ret (r, db1) \<Rightarrow> ids_last parse es T ids_left calls db1
      | Panic \<Rightarrow> True))"

definition view :: "Player \<Rightarrow> string option \<times> i64 \<times> bool" where
  "view r = (last_known_username r, last_seen r, online r)"

definition represents :: "(u32 \<Rightarrow> Player option) \<Rightarrow> profiles \<Rightarrow> bool" where
  "represents m a \<longleftrightarrow> (\<forall>p v. a p = Some v \<longleftrightarrow> (\<exists>e r. m e = Some r \<and> profile_id r = p \<and> view r = v))"

fun upsert :: "(string \<Rightarrow> (u128, 'e) result) \<Rightarrow> add_call \<Rightarrow> profiles \<Rightarrow> profiles" where
  "upsert parse (now, u, ps) a =
     (case parse ps of
        Err x \<Rightarrow> a
      | Ok p \<Rightarrow> a(p \<mapsto> (Some u, now, case a p of Some (name, seen, on) \<Rightarrow> on | None \<Rightarrow> False)))"

lemma represents_update:
  assumes "represents m a" and "player_table_wf m" and "player_table_wf (m(e \<mapsto> r))"
    and "\<And>old. m e = Some old \<Longrightarrow> profile_id old = profile_id r"
  shows "represents (m(e \<mapsto> r)) (a(profile_id r \<mapsto> view r))"
  unfolding represents_def
proof (intro allI)
  fix p v
  have only: "e' = e" if "(m(e \<mapsto> r)) e' = Some r'" "profile_id r' = profile_id r" for e' r'
    using player_table_wf_profile [OF assms(3) that(1), of e r] that(2) by simp
  have other: "(m(e \<mapsto> r)) e' = Some r' \<longleftrightarrow> m e' = Some r'" if "profile_id r' \<noteq> profile_id r" for e' r'
    using that assms(4) by auto
  show "(a(profile_id r \<mapsto> view r)) p = Some v \<longleftrightarrow>
      (\<exists>e' r'. (m(e \<mapsto> r)) e' = Some r' \<and> profile_id r' = p \<and> view r' = v)" (is "_ \<longleftrightarrow> ?row")
  proof (cases "p = profile_id r")
    case True
    have "?row \<longleftrightarrow> view r = v"
    proof
      assume ?row
      then obtain e' r' where row: "(m(e \<mapsto> r)) e' = Some r'" "profile_id r' = p" "view r' = v" by blast
      with only [OF row(1)] True show "view r = v" by simp
    qed (use True in \<open>auto intro!: exI [of _ e]\<close>)
    with True show ?thesis by simp
  next
    case False
    then have "?row \<longleftrightarrow> (\<exists>e' r'. m e' = Some r' \<and> profile_id r' = p \<and> view r' = v)"
      using other by blast
    moreover have "a p = Some v \<longleftrightarrow> (\<exists>e' r'. m e' = Some r' \<and> profile_id r' = p \<and> view r' = v)"
      using assms(1) unfolding represents_def by blast
    ultimately show ?thesis using False by simp
  qed
qed

lemma add_player_represents:
  assumes "player_table_ok T valid ids_left rows" and "valid db" and "ids_left db" and "represents (rows db) a"
  shows "\<exists>db1. add_player parse es T now u ps db =
      Ret (case parse ps of Err x \<Rightarrow> Err (es x) | Ok p \<Rightarrow> Ok (), db1) \<and> valid db1 \<and>
    represents (rows db1) (upsert parse (now, u, ps) a)"
proof (cases "parse ps")
  case (Err x)
  with assms show ?thesis by (auto simp: add_player_def)
next
  case (Ok p)
  note wf = player_table_okD(1) [OF assms(1)]
  show ?thesis
  proof (cases "pt_find T p db")
    case (Some old)
    let ?new = "old\<lparr>last_known_username := Some u, last_seen := now\<rparr>"
    have old: "rows db (entity_id old) = Some old" "profile_id old = p"
      using player_table_okD(2) [OF assms(1,2) Some] by simp_all
    with assms(4) have "a p = Some (view old)" unfolding represents_def by blast
    then have new: "upsert parse (now, u, ps) a = a(profile_id ?new \<mapsto> view ?new)"
      using Ok old by (simp add: view_def)
    from add_player_known [where parse = parse and ps = ps and es = es and now = now and u = u,
        OF assms(1,2) Ok Some] obtain db1 where
      db1: "add_player parse es T now u ps db = Ret (Ok (), db1)" "valid db1" "rows db1 = (rows db)(entity_id old \<mapsto> ?new)"
      by blast
    with represents_update [OF assms(4) wf [OF assms(2)], of "entity_id old" ?new] wf [OF db1(2)] old Ok show ?thesis
      unfolding new by auto
  next
    case None
    have "a p = None"
      using player_table_okD(3) [OF assms(1,2) None] assms(4) unfolding represents_def has_profile_def
      by (metis not_Some_eq)
    then have new: "upsert parse (now, u, ps) a = a(p \<mapsto> (Some u, now, False))" using Ok by simp
    from add_player_unknown [where parse = parse and ps = ps and es = es and now = now and u = u,
        OF assms(1-3) Ok None] obtain db1 e where
      db1: "add_player parse es T now u ps db = Ret (Ok (), db1)" "valid db1" "rows db e = None"
      "rows db1 = (rows db)(e \<mapsto> (Player_new u p now)\<lparr>entity_id := e\<rparr>)"
      by blast
    with represents_update [OF assms(4) wf [OF assms(2)], of e "(Player_new u p now)\<lparr>entity_id := e\<rparr>"]
      wf [OF db1(2)] Ok show ?thesis
      unfolding new by (auto simp: Player_new_def view_def)
  qed
qed

text \<open>
  C39: The table is a store with one row per profile. However many calls of the reducer are made, as long
  as entity ids are left, none panics, each gives the error of its own profile id or succeeds, and the
  rows are those of the abstract store after the same upserts: for each profile one row, with the name
  and the time of its last call and the online flag it had.
\<close>

theorem players_after_calls:
  assumes "player_table_ok T valid ids_left rows" and "valid db" and "represents (rows db) a"
    and "ids_last parse es T ids_left calls db"
  shows "\<exists>db1. add_players parse es T calls db =
      Ret (map (\<lambda>(now, u, ps). case parse ps of Err x \<Rightarrow> Err (es x) | Ok p \<Rightarrow> Ok ()) calls, db1) \<and>
    represents (rows db1) (fold (upsert parse) calls a) \<and> player_table_wf (rows db1)"
  using assms(2-4)
proof (induction calls arbitrary: db a)
  case Nil
  then show ?case using player_table_okD(1) [OF assms(1)] by simp
next
  case (Cons call calls)
  obtain now u ps where call: "call = (now, u, ps)" by (cases call)
  with Cons.prems(3) have "ids_left db" by simp
  from add_player_represents [OF assms(1) Cons.prems(1) this Cons.prems(2),
      where parse = parse and es = es and now = now and u = u and ps = ps] obtain db1
    where "add_player parse es T now u ps db = Ret (case parse ps of Err x \<Rightarrow> Err (es x) | Ok p \<Rightarrow> Ok (), db1)"
      "valid db1" "represents (rows db1) (upsert parse call a)"
    unfolding call by blast
  with Cons.IH [of db1 "upsert parse call a"] Cons.prems(3) show ?case by (auto simp: call)
qed

theorem players_after_calls_witness:
  "\<exists>db1. add_players read_hex (\<lambda>_. ''bad'') pdb_table
      [(5, ''Alex'', ''abc''), (6, ''Eve'', ''x''), (9, ''Sam'', ''xyz'')] (1, []) = Ret ([Ok (), Err ''bad'', Ok ()], db1) \<and>
    represents (pdb_rows db1) [3 \<mapsto> (Some ''Sam'', 9, False)]"
proof -
  have "represents (pdb_rows (1, [])) (\<lambda>_. None)" by (simp add: represents_def pdb_rows_def)
  moreover have "ids_last read_hex (\<lambda>_. ''bad'') pdb_table pdb_ids_left
      [(5, ''Alex'', ''abc''), (6, ''Eve'', ''x''), (9, ''Sam'', ''xyz'')] (1, [])"
    by (simp add: add_player_def pdb_table_def UUID_new_def Player_new_def pdb_ids_left_def rows_by_def replace_row_def Let_def)
  ultimately show ?thesis
    using players_after_calls [OF pdb_table_ok, of "(1, [])" "\<lambda>_. None" read_hex "\<lambda>_. ''bad''"
        "[(5, ''Alex'', ''abc''), (6, ''Eve'', ''x''), (9, ''Sam'', ''xyz'')]"]
    by (simp add: pdb_valid_def) (erule exE, rule exI, auto)
qed

end
