(* ===== verification/Connection_Cache_Correct.thy ===== *)
theory Connection_Cache_Correct
  imports Connection_Cache
begin

text \<open>
  The properties of the cached answers of \<open>proxy/src/server_actor/connection_cache.rs\<close>.
\<close>

text \<open>The players whose last operation was to be added.\<close>

fun listed_after :: "nat set \<Rightarrow> listing_op list \<Rightarrow> nat set" where
  "listed_after l [] = l"
| "listed_after l (Op_add i # xs) = listed_after (insert i l) xs"
| "listed_after l (Op_remove i # xs) = listed_after (l - {i}) xs"
| "listed_after l (Op_update c # xs) = listed_after l xs"

lemma listing_run_inv:
  assumes "\<forall>r. is_ok (to_json J r)" and "listing_inv J maxp m st"
    and "card (snd st) + length xs < 2 ^ 32"
  shows "\<exists>cs. listing_run checks J xs st = Ret (cs, listed_after (snd st) xs) \<and>
    listing_inv J (fst (last_config (maxp, m) xs)) (snd (last_config (maxp, m) xs))
      (cs, listed_after (snd st) xs)"
  using assms(2,3)
proof (induction xs arbitrary: st maxp m)
  case Nil
  then show ?case by (cases st) simp
next
  case (Cons x xs)
  have "Suc (card (snd st)) < 2 ^ 32" using Cons.prems(2) by simp
  from listing_step_inv [OF assms(1) Cons.prems(1) this, of checks x] obtain st1 where
    step: "listing_step checks J x st = Ret st1" and
    inv1: "listing_inv J (fst (last_config (maxp, m) [x])) (snd (last_config (maxp, m) [x])) st1" and
    card1: "card (snd st1) \<le> Suc (card (snd st))" and
    set1: "snd st1 = (case x of Op_add i \<Rightarrow> insert i (snd st) | Op_remove i \<Rightarrow> snd st - {i}
      | Op_update c \<Rightarrow> snd st)" by blast
  have "card (snd st1) + length xs < 2 ^ 32" using card1 Cons.prems(2) by simp
  from Cons.IH [OF inv1 this] step set1 show ?case by (cases x) simp_all
qed

text \<open>
  C22: The status counts the listed players. From a fresh status, through any sequence of adding
  players, removing players (each also repeatedly, or when not listed) and configuration updates,
  no operation panics, with or without overflow checks; the online count is the number of players
  whose last operation added them, the maximum and the description are those of the last
  configuration, and the cached JSON text is the text of exactly that response.
\<close>

theorem listing_counts_players:
  assumes "\<forall>r. is_ok (to_json J r)" and "CachedStatus_new J maxp m = Ret cs0" and "length xs < 2 ^ 32"
  shows "\<exists>cs l. listing_run checks J xs (cs0, {}) = Ret (cs, l) \<and> l = listed_after {} xs \<and>
    json_in_sync J cs \<and>
    sr_players (status_response cs) = Some \<lparr>pl_max = fst (last_config (maxp, m) xs),
      pl_online = of_nat (card l), pl_sample = []\<rparr> \<and>
    sr_description (status_response cs) = snd (last_config (maxp, m) xs)"
proof -
  have "listing_inv J maxp m (cs0, {})"
    using assms(2) by (auto simp: CachedStatus_new_def with_json_Ret_iff listing_inv_def build_response_def)
  from listing_run_inv [OF assms(1) this, of xs checks] assms(3) show ?thesis
    by (auto simp: listing_inv_def build_response_def)
qed

text \<open>A library whose JSON text is the description, for the witnesses.\<close>

definition text_lib :: "(nat, unit) status_lib" where
  "text_lib = \<lparr>to_json = (\<lambda>r. Ok (sr_description r)), current_protocol = 770\<rparr>"

theorem listing_counts_players_witness:
  "\<exists>cs0 cs l. CachedStatus_new text_lib 20 ''hi'' = Ret cs0 \<and>
    listing_run True text_lib [Op_add 1, Op_add 2, Op_add 1, Op_remove 2] (cs0, {}) = Ret (cs, l) \<and>
    sr_players (status_response cs) = Some \<lparr>pl_max = 20, pl_online = 1, pl_sample = []\<rparr>"
proof -
  obtain cs0 where c: "CachedStatus_new text_lib 20 ''hi'' = Ret cs0"
    by (simp add: CachedStatus_new_def with_json_def text_lib_def)
  have "\<forall>r. is_ok (to_json text_lib r)" by (simp add: text_lib_def)
  moreover have "listed_after {} [Op_add 1, Op_add 2, Op_add 1, Op_remove 2] = {1}" by auto
  ultimately show ?thesis
    using listing_counts_players [OF _ c, of "[Op_add 1, Op_add 2, Op_add 1, Op_remove 2]" True] c
    by (auto simp del: listing_run.simps listed_after.simps)
qed

text \<open>
  Loading the icon, on every branch. The data URL of the icon is returned exactly for non-empty
  data whose header says 64 by 64, and it holds the whole of the data; an unreadable header is
  returned as its error; but an empty input, or a readable header of another size, panics, although
  the function returns a result and its caller prepares for an error.
\<close>

theorem load_icon_from_bytes_cases:
  "case load_icon_from_bytes read_info encode64 png of
     Ret (Ok url) \<Rightarrow> png \<noteq> [] \<and> read_info png = Ok (64, 64) \<and>
       url = ''data:image/png;base64,'' @ encode64 png
   | Ret (Err e) \<Rightarrow> png \<noteq> [] \<and> read_info png = Err e
   | Panic \<Rightarrow> png = [] \<or> (\<exists>w h. read_info png = Ok (w, h) \<and> (w, h) \<noteq> (64, 64))"
  by (auto simp: load_icon_from_bytes_def split: result.splits)

end
