(* ===== verification/Key_Store.thy ===== *)
theory Key_Store
  imports Prelude
begin

text \<open>
  The server's key pair, \<open>proxy/src/server_actor/key_store.rs\<close>. RSA, the DER encoder, SHA-1 and the
  big integers are library parameters.
\<close>

section \<open>Library functions\<close>

text \<open>
  \<open>rsa_new\<close> is \<open>RsaPrivateKey::new\<close> with the randomness of \<open>OsRng\<close> as its first argument, \<open>rsa_n\<close> and
  \<open>rsa_e\<close> the big-endian bytes of modulus and exponent, \<open>rsa_decrypt\<close> the decryption with PKCS#1 v1.5
  padding; \<open>sha_new\<close>, \<open>sha_update\<close> and \<open>sha_finalize\<close> the incremental digest.
\<close>

record ('rng, 'sk, 'x) rsa_lib =
  rsa_new :: "'rng \<Rightarrow> nat \<Rightarrow> ('sk, 'x) result"
  rsa_n :: "'sk \<Rightarrow> bytes"
  rsa_e :: "'sk \<Rightarrow> bytes"
  rsa_decrypt :: "'sk \<Rightarrow> bytes \<Rightarrow> (bytes, 'x) result"
  public_key_to_der :: "bytes \<Rightarrow> bytes \<Rightarrow> bytes"

record 'h sha_lib =
  sha_new :: 'h
  sha_update :: "bytes \<Rightarrow> 'h \<Rightarrow> 'h"
  sha_finalize :: "'h \<Rightarrow> bytes"

record 'i bigint_lib =
  from_signed_bytes_be :: "bytes \<Rightarrow> 'i"
  to_str_radix :: "'i \<Rightarrow> nat \<Rightarrow> string"

datatype EncryptionError = FailedDecrypt | OtherEncryptionError string

section \<open>The key store\<close>

record 'sk KeyStore =
  private_key :: 'sk
  public_key_der :: bytes

definition generate_private_key :: "('rng, 'sk, 'x) rsa_lib \<Rightarrow> 'rng \<Rightarrow> 'sk run" where
  "generate_private_key R rng = unwrap_result (rsa_new R rng 1024)"

definition KeyStore_new :: "('rng, 'sk, 'x) rsa_lib \<Rightarrow> 'rng \<Rightarrow> 'sk KeyStore run" where
  "KeyStore_new R rng = bind_run (generate_private_key R rng) (\<lambda>sk.
     Ret \<lparr>private_key = sk, public_key_der = public_key_to_der R (rsa_n R sk) (rsa_e R sk)\<rparr>)"

definition get_public_der :: "'sk KeyStore \<Rightarrow> bytes" where
  "get_public_der ks = public_key_der ks"

definition decrypt :: "('rng, 'sk, 'x) rsa_lib \<Rightarrow> 'sk KeyStore \<Rightarrow> bytes \<Rightarrow> (bytes, EncryptionError) result" where
  "decrypt R ks dat = map_err (\<lambda>_. FailedDecrypt) (rsa_decrypt R (private_key ks) dat)"

definition auth_digest :: "'i bigint_lib \<Rightarrow> bytes \<Rightarrow> string" where
  "auth_digest B bs = to_str_radix B (from_signed_bytes_be B bs) 16"

definition get_digest :: "'h sha_lib \<Rightarrow> 'i bigint_lib \<Rightarrow> 'sk KeyStore \<Rightarrow> bytes \<Rightarrow> string" where
  "get_digest S B ks secret =
     auth_digest B (sha_finalize S (sha_update S (public_key_der ks) (sha_update S secret (sha_new S))))"

lemma KeyStore_new_Ret_iff:
  "KeyStore_new R rng = Ret ks \<longleftrightarrow>
     rsa_new R rng 1024 = Ok (private_key ks) \<and>
     public_key_der ks = public_key_to_der R (rsa_n R (private_key ks)) (rsa_e R (private_key ks))"
  by (cases ks) (auto simp: KeyStore_new_def generate_private_key_def run_simps)

lemma decrypt_Ok_iff [simp]: "decrypt R ks dat = Ok p \<longleftrightarrow> rsa_decrypt R (private_key ks) dat = Ok p"
  by (simp add: decrypt_def)

end
