(* ===== verification/Server_Actor.thy ===== *)
theory Server_Actor
  imports Server_Handle Connection_Cache Key_Store Task
begin

text \<open>
  The server actor, \<open>proxy/src/server_actor/actor.rs\<close> from line 73 on without its listener: the state,
  its construction, the handling of each message and the loop over the mailbox.
\<close>

section \<open>Libraries\<close>

text \<open>What an answer on a reply channel carries.\<close>

datatype answer = Status_text string | Der bytes | Plaintext bytes

text \<open>
  \<open>sl_client\<close> builds the HTTP client with a connect and a read timeout, \<open>sl_fetch_keys\<close> is
  \<open>fetch_mojang_public_keys\<close>; \<open>sl_recv\<close> and \<open>sl_close\<close> are those of the message receiver, \<open>sl_reply\<close> is
  \<open>send\<close> on a reply channel, whose result the code ignores; the \<open>sl_tracker\<close> fields are those of a
  \<open>TaskTracker\<close>, which the model names by a number.
\<close>

record ('rng, 'sk, 's, 'cl, 'k, 'tx, 'rx, 'x, 'w) server_lib =
  sl_status :: "('s, 'x) status_lib"
  sl_rsa :: "('rng, 'sk, 'x) rsa_lib"
  sl_rng :: "'w \<Rightarrow> 'rng \<times> 'w"
  sl_mpsc :: "('tx, 'rx, ServerMessage, 'w) mpsc_lib"
  sl_connect_timeout :: u32
  sl_read_timeout :: u32
  sl_client :: "nat \<Rightarrow> nat \<Rightarrow> ('cl, 'x) result"
  sl_fetch_keys :: "'cl \<Rightarrow> 'w \<Rightarrow> (('k list, 'x) result, 'w) outcome"
  sl_recv :: "'rx \<Rightarrow> 'w \<Rightarrow> (ServerMessage option, 'w) outcome"
  sl_close :: "'rx \<Rightarrow> 'w \<Rightarrow> unit \<times> 'w"
  sl_reply :: "reply_to \<Rightarrow> answer \<Rightarrow> 'w \<Rightarrow> bool \<times> 'w"
  sl_tracker_new :: "'w \<Rightarrow> nat \<times> 'w"
  sl_tracker_close :: "nat \<Rightarrow> 'w \<Rightarrow> unit \<times> 'w"
  sl_tracker_wait :: "nat \<Rightarrow> 'w \<Rightarrow> (unit, 'w) outcome"

text \<open>The trace of the server: messages, answers, reply channels dropped without one, tasks.\<close>

datatype server_event =
    Got ServerMessage
  | Answered reply_to answer
  | Dropped reply_to
  | Task_on nat string reply_to
  | Tracker_closed nat
  | Tracker_done nat
  | Mailbox_closed

section \<open>The actor\<close>

record ('sk, 's, 'cl, 'k, 'tx, 'rx) ServerActor =
  sv_listing :: "'s CachedStatus"
  sv_message_receiver :: 'rx
  sv_auth_client :: "'cl option"
  sv_mojang_public_keys :: "'k list option"
  sv_use_whitelist :: bool
  sv_tasks :: nat
  sv_self_addr :: 'tx
  sv_key_store :: "'sk KeyStore"

definition auth_client :: "('rng, 'sk, 's, 'cl, 'k, 'tx, 'rx, 'x, 'w) server_lib \<Rightarrow> BasicConfiguration \<Rightarrow>
    'cl option run" where
  "auth_client L config =
     (if online_mode config
      then bind_run (unwrap_result (sl_client L (unat (sl_connect_timeout L)) (unat (sl_read_timeout L))))
        (\<lambda>client. Ret (Some client))
      else Ret None)"

definition mojang_pubkeys :: "('rng, 'sk, 's, 'cl, 'k, 'tx, 'rx, 'x, 'w) server_lib \<Rightarrow>
    BasicConfiguration \<Rightarrow> 'cl \<Rightarrow> ('k list option, 'c, 'w) task" where
  "mojang_pubkeys L config client =
     (if allow_chat_reports config
      then bind_task (perform (sl_fetch_keys L client)) (\<lambda>r. case r of
          Ok pub_keys \<Rightarrow> ret (Some pub_keys)
        | Err err \<Rightarrow> ret None)
      else ret None)"

definition ServerActor_new :: "('rng, 'sk, 's, 'cl, 'k, 'tx, 'rx, 'x, 'w) server_lib \<Rightarrow>
    BasicConfiguration \<Rightarrow> 'rx \<Rightarrow> 'tx \<Rightarrow>
    (('sk, 's, 'cl, 'k, 'tx, 'rx) ServerActor, 'c, 'w) task" where
  "ServerActor_new L config message_receiver self_addr =
     bind_task (lift_run ''Failed to to make reqwest client'' (auth_client L config)) (\<lambda>auth.
     bind_task (lift_run ''CachedStatus::from_config'' (from_config (sl_status L) config)) (\<lambda>listing.
     bind_task (case auth of Some client \<Rightarrow> mojang_pubkeys L config client | None \<Rightarrow> ret None) (\<lambda>keys.
     bind_task (perform_now (sl_tracker_new L)) (\<lambda>tasks.
     bind_task (perform_now (sl_rng L)) (\<lambda>rng.
     bind_task (lift_run ''KeyStore::new'' (KeyStore_new (sl_rsa L) rng)) (\<lambda>key_store.
     ret \<lparr>sv_listing = listing, sv_message_receiver = message_receiver, sv_auth_client = auth,
       sv_mojang_public_keys = keys, sv_use_whitelist = white_list config, sv_tasks = tasks,
       sv_self_addr = self_addr, sv_key_store = key_store\<rparr>))))))"

text \<open>\<open>Server::spawn\<close>: the handle, and the actor whose loop is spawned.\<close>

definition Server_spawn :: "('rng, 'sk, 's, 'cl, 'k, 'tx, 'rx, 'x, 'w) server_lib \<Rightarrow>
    BasicConfiguration \<Rightarrow>
    ('tx Server \<times> ('sk, 's, 'cl, 'k, 'tx, 'rx) ServerActor, 'c, 'w) task" where
  "Server_spawn L config =
     bind_task (perform_now (mp_channel (sl_mpsc L) mailbox_capacity)) (\<lambda>(sender, receiver).
     bind_task (ServerActor_new L config receiver sender) (\<lambda>actor.
     ret (\<lparr>srv_sender = sender\<rparr>, actor)))"

text \<open>
  \<open>start_listener\<close> makes a tracker of its own and spawns the listener on it. The listener is a task of
  the theory \<open>Listener\<close> (\<open>run_listener\<close>); here it is the event that it was spawned, and the value of
  \<open>start_listener\<close> are the arguments it was spawned with, its own tracker and the server's address among
  them.
\<close>

record 'tx listener_args =
  listen_address :: string
  listen_tasks :: nat
  listen_self_addr :: 'tx
  listen_death :: reply_to

definition start_listener :: "('rng, 'sk, 's, 'cl, 'k, 'tx, 'rx, 'x, 'w) server_lib \<Rightarrow>
    ('sk, 's, 'cl, 'k, 'tx, 'rx) ServerActor \<Rightarrow> string \<Rightarrow> reply_to \<Rightarrow>
    ('tx listener_args, server_event, 'w) task" where
  "start_listener L self address death =
     bind_task (perform_now (sl_tracker_new L)) (\<lambda>tasks.
     let args = \<lparr>listen_address = address, listen_tasks = tasks, listen_self_addr = sv_self_addr self, listen_death = death\<rparr> in
     bind_task (emit (Task_on tasks (listen_address args) (listen_death args))) (\<lambda>_. ret args))"

text \<open>\<open>close\<close> and \<open>wait\<close> of a tracker, with the events that show which tracker it was.\<close>

definition tracker_close :: "('rng, 'sk, 's, 'cl, 'k, 'tx, 'rx, 'x, 'w) server_lib \<Rightarrow> nat \<Rightarrow>
    (unit, server_event, 'w) task" where
  "tracker_close L tasks = bind_task (perform_now (sl_tracker_close L tasks)) (\<lambda>_. emit (Tracker_closed tasks))"

definition tracker_wait :: "('rng, 'sk, 's, 'cl, 'k, 'tx, 'rx, 'x, 'w) server_lib \<Rightarrow> nat \<Rightarrow>
    (unit, server_event, 'w) task" where
  "tracker_wait L tasks = bind_task (perform (sl_tracker_wait L tasks)) (\<lambda>_. emit (Tracker_done tasks))"

definition server_shutdown :: "('rng, 'sk, 's, 'cl, 'k, 'tx, 'rx, 'x, 'w) server_lib \<Rightarrow>
    ('sk, 's, 'cl, 'k, 'tx, 'rx) ServerActor \<Rightarrow> (unit, server_event, 'w) task" where
  "server_shutdown L self =
     bind_task (tracker_close L (sv_tasks self)) (\<lambda>_.
     bind_task (tracker_wait L (sv_tasks self)) (\<lambda>_.
     bind_task (perform_now (sl_close L (sv_message_receiver self))) (\<lambda>_.
     emit Mailbox_closed)))"

definition reply :: "('rng, 'sk, 's, 'cl, 'k, 'tx, 'rx, 'x, 'w) server_lib \<Rightarrow> reply_to \<Rightarrow> answer \<Rightarrow>
    (unit, server_event, 'w) task" where
  "reply L reply_to a = bind_task (perform_now (sl_reply L reply_to a)) (\<lambda>_. emit (Answered reply_to a))"

definition handle_message :: "('rng, 'sk, 's, 'cl, 'k, 'tx, 'rx, 'x, 'w) server_lib \<Rightarrow>
    ('sk, 's, 'cl, 'k, 'tx, 'rx) ServerActor \<Rightarrow> ServerMessage \<Rightarrow>
    (('sk, 's, 'cl, 'k, 'tx, 'rx) ServerActor, server_event, 'w) task" where
  "handle_message L self msg =
     (case msg of
        Shutdown \<Rightarrow> bind_task (server_shutdown L self) (\<lambda>_. ret self)
      | GetStatus reply_to \<Rightarrow>
          bind_task (reply L reply_to (Status_text (get_status_string (sv_listing self)))) (\<lambda>_. ret self)
      | StartListener address death \<Rightarrow> bind_task (start_listener L self address death) (\<lambda>_. ret self)
      | UpdateConfig config \<Rightarrow>
          bind_task (lift_run ''CachedStatus::from_config'' (from_config (sl_status L) config)) (\<lambda>listing.
            ret (self\<lparr>sv_listing := listing\<rparr>))
      | CertificatePublicDer reply_to \<Rightarrow>
          bind_task (reply L reply_to (Der (get_public_der (sv_key_store self)))) (\<lambda>_. ret self)
      | Decrypt dat reply_to \<Rightarrow>
          (case decrypt (sl_rsa L) (sv_key_store self) dat of
             Ok decrypted \<Rightarrow> bind_task (reply L reply_to (Plaintext decrypted)) (\<lambda>_. ret self)
           | Err e \<Rightarrow> bind_task (emit (Dropped reply_to)) (\<lambda>_. ret self)))"

text \<open>
  The loop. The first argument bounds the number of rounds: every finite part of a run of the server
  is a run with some bound. The second component tells whether the mailbox was closed and empty.
\<close>

fun server_run :: "nat \<Rightarrow> ('rng, 'sk, 's, 'cl, 'k, 'tx, 'rx, 'x, 'w) server_lib \<Rightarrow>
    ('sk, 's, 'cl, 'k, 'tx, 'rx) ServerActor \<Rightarrow>
    (('sk, 's, 'cl, 'k, 'tx, 'rx) ServerActor \<times> bool, server_event, 'w) task" where
  "server_run 0 L self = ret (self, False)"
| "server_run (Suc n) L self =
     bind_task (perform (sl_recv L (sv_message_receiver self))) (\<lambda>r. case r of
         Some msg \<Rightarrow>
           bind_task (emit (Got msg)) (\<lambda>_.
           bind_task (handle_message L self msg) (\<lambda>self1. server_run n L self1))
       | None \<Rightarrow> ret (self, True))"

end
