(* ===== verification/Server_Actor_Correct.thy ===== *)
theory Server_Actor_Correct
  imports Server_Actor
begin

text \<open>
  What the server promises its askers: an abstract server that maps the messages it gets to their
  answers, and the lemma that every run of the actor answers as it does.
\<close>

section \<open>The abstract server\<close>

fun config_text :: "('s, 'x) status_lib \<Rightarrow> string \<Rightarrow> BasicConfiguration \<Rightarrow> string" where
  "config_text J old c =
     (case to_json J (build_response J (max_players c) (motd c)) of Ok t \<Rightarrow> t | Err _ \<Rightarrow> old)"

text \<open>The status text after a message, and the answer a message gets: none when its channel is dropped.\<close>

fun next_text :: "('s, 'x) status_lib \<Rightarrow> string \<Rightarrow> ServerMessage \<Rightarrow> string" where
  "next_text J cur (UpdateConfig c) = config_text J cur c"
| "next_text J cur m = cur"

fun answer_to :: "('rng, 'sk, 'x) rsa_lib \<Rightarrow> 'sk KeyStore \<Rightarrow> string \<Rightarrow> ServerMessage \<Rightarrow>
    (reply_to \<times> answer option) list" where
  "answer_to R ks cur (GetStatus r) = [(r, Some (Status_text cur))]"
| "answer_to R ks cur (CertificatePublicDer r) = [(r, Some (Der (public_key_der ks)))]"
| "answer_to R ks cur (Decrypt dat r) = [(r, map_option Plaintext (ok (rsa_decrypt R (private_key ks) dat)))]"
| "answer_to R ks cur m = []"

fun texts :: "('s, 'x) status_lib \<Rightarrow> string \<Rightarrow> ServerMessage list \<Rightarrow> string" where
  "texts J cur [] = cur"
| "texts J cur (m # ms) = texts J (next_text J cur m) ms"

fun answers :: "('s, 'x) status_lib \<Rightarrow> ('rng, 'sk, 'x) rsa_lib \<Rightarrow> 'sk KeyStore \<Rightarrow> string \<Rightarrow>
    ServerMessage list \<Rightarrow> (reply_to \<times> answer option) list" where
  "answers J R ks cur [] = []"
| "answers J R ks cur (m # ms) = answer_to R ks cur m @ answers J R ks (next_text J cur m) ms"

lemma texts_snoc [simp]: "texts J cur (ms @ [m]) = next_text J (texts J cur ms) m"
  by (induction ms arbitrary: cur) auto

lemma texts_append: "texts J cur (xs @ ys) = texts J (texts J cur xs) ys"
  by (induction xs arbitrary: cur) auto

lemma texts_no_update: "(\<And>c. UpdateConfig c \<notin> set ms) \<Longrightarrow> texts J cur ms = cur"
proof (induction ms arbitrary: cur)
  case (Cons m ms)
  have "next_text J cur m = cur" using Cons.prems by (cases m) (simp_all, metis)
  with Cons.IH [of cur] Cons.prems show ?case by simp
qed simp

lemma answers_snoc [simp]:
  "answers J R ks cur (ms @ [m]) = answers J R ks cur ms @ answer_to R ks (texts J cur ms) m"
  by (induction ms arbitrary: cur) auto

section \<open>Messages and answers of a trace\<close>

fun messages :: "server_event list \<Rightarrow> ServerMessage list" where
  "messages [] = []"
| "messages (Got m # es) = m # messages es"
| "messages (e # es) = messages es"

fun answered :: "server_event list \<Rightarrow> (reply_to \<times> answer option) list" where
  "answered [] = []"
| "answered (Answered r a # es) = (r, Some a) # answered es"
| "answered (Dropped r # es) = (r, None) # answered es"
| "answered (e # es) = answered es"

lemma messages_append [simp]: "messages (xs @ ys) = messages xs @ messages ys"
  by (induction xs rule: messages.induct) auto

lemma answered_append [simp]: "answered (xs @ ys) = answered xs @ answered ys"
  by (induction xs rule: answered.induct) auto

section \<open>One message\<close>

text \<open>Only the listing of the actor ever changes.\<close>

definition same_but_listing :: "('sk, 's, 'cl, 'k, 'tx, 'rx) ServerActor \<Rightarrow>
    ('sk, 's, 'cl, 'k, 'tx, 'rx) ServerActor \<Rightarrow> bool" where
  "same_but_listing a b \<longleftrightarrow> a = b\<lparr>sv_listing := sv_listing a\<rparr>"

lemma same_but_listingD:
  assumes "same_but_listing a b"
  shows "sv_key_store a = sv_key_store b" "sv_tasks a = sv_tasks b" "sv_auth_client a = sv_auth_client b"
    "sv_mojang_public_keys a = sv_mojang_public_keys b" "sv_use_whitelist a = sv_use_whitelist b"
    "sv_message_receiver a = sv_message_receiver b" "sv_self_addr a = sv_self_addr b"
  using assms by (cases a; cases b; simp add: same_but_listing_def)+

lemma same_but_listing_refl [simp]: "same_but_listing a a"
  by (simp add: same_but_listing_def)

lemma same_but_listing_trans: "same_but_listing a b \<Longrightarrow> same_but_listing b c \<Longrightarrow> same_but_listing a c"
  by (cases a; cases b; cases c) (simp add: same_but_listing_def)

lemmas shutdown_defs = server_shutdown_def tracker_close_def tracker_wait_def

lemma from_config_text:
  "from_config J c = Ret cs \<Longrightarrow> get_status_string cs = config_text J old c"
  by (auto simp: from_config_def CachedStatus_new_def with_json_def run_simps get_status_string_def)

lemma handle_message_safe:
  assumes "\<And>self1 evs. same_but_listing self1 self \<Longrightarrow> messages evs = [] \<Longrightarrow>
      answered evs = answer_to (sl_rsa L) (sv_key_store self) (get_status_string (sv_listing self)) msg \<Longrightarrow>
      get_status_string (sv_listing self1) =
        next_text (sl_status L) (get_status_string (sv_listing self)) msg \<Longrightarrow>
      Q self1 (tr @ evs)"
    and "\<And>p evs. answer_to (sl_rsa L) (sv_key_store self) (get_status_string (sv_listing self)) msg = [] \<Longrightarrow>
      messages evs = [] \<Longrightarrow> answered evs = [] \<Longrightarrow> P p (tr @ evs)"
    and "\<And>evs. answer_to (sl_rsa L) (sv_key_store self) (get_status_string (sv_listing self)) msg = [] \<Longrightarrow>
      messages evs = [] \<Longrightarrow> answered evs = [] \<Longrightarrow> W (tr @ evs)"
  shows "safe (handle_message L self msg) tr Q P W"
proof (cases msg)
  case Shutdown
  then show ?thesis unfolding handle_message_def shutdown_defs
    by (auto intro!: safe_bind safe_perform_now safe_perform safe_emit assms)
next
  case (GetStatus r)
  then show ?thesis unfolding handle_message_def reply_def
    by (auto intro!: safe_bind safe_perform_now safe_emit assms)
next
  case (StartListener address death)
  then show ?thesis unfolding handle_message_def start_listener_def Let_def
    by (auto intro!: safe_bind safe_perform_now safe_emit assms)
next
  case (UpdateConfig c)
  show ?thesis unfolding handle_message_def UpdateConfig ServerMessage.case
  proof (intro safe_bind safe_lift_run)
    fix cs assume "from_config (sl_status L) c = Ret cs"
    then have "get_status_string cs = config_text (sl_status L) (get_status_string (sv_listing self)) c"
      by (rule from_config_text)
    then show "safe (ret (self\<lparr>sv_listing := cs\<rparr>)) tr Q P W"
      using assms(1) [of "self\<lparr>sv_listing := cs\<rparr>" "[]"]
      by (simp add: UpdateConfig same_but_listing_def)
  next
    show "P (Panic_at ''CachedStatus::from_config'') tr"
      using assms(2) [of "[]"] by (simp add: UpdateConfig)
  qed
next
  case (CertificatePublicDer r)
  then show ?thesis unfolding handle_message_def reply_def
    by (auto intro!: safe_bind safe_perform_now safe_emit assms simp: get_public_der_def)
next
  case (Decrypt dat r)
  then show ?thesis unfolding handle_message_def reply_def
    by (auto intro!: safe_rules assms simp: decrypt_def map_err_Err_iff)
qed

section \<open>The loop\<close>

definition server_inv :: "('rng, 'sk, 's, 'cl, 'k, 'tx, 'rx, 'x, 'w) server_lib \<Rightarrow>
    ('sk, 's, 'cl, 'k, 'tx, 'rx) ServerActor \<Rightarrow> server_event list \<Rightarrow> bool" where
  "server_inv L self0 tr \<longleftrightarrow>
     answered tr = answers (sl_status L) (sl_rsa L) (sv_key_store self0)
       (get_status_string (sv_listing self0)) (messages tr)"

lemma server_run_safe:
  assumes "server_inv L self0 tr" and "same_but_listing self self0"
    and "get_status_string (sv_listing self) =
      texts (sl_status L) (get_status_string (sv_listing self0)) (messages tr)"
  shows "safe (server_run n L self) tr
    (\<lambda>(self1, _) t. server_inv L self0 t \<and> same_but_listing self1 self0 \<and>
       get_status_string (sv_listing self1) =
         texts (sl_status L) (get_status_string (sv_listing self0)) (messages t))
    (\<lambda>_. server_inv L self0) (server_inv L self0)"
  using assms
proof (induction n arbitrary: self tr)
  case 0
  then show ?case by simp
next
  case (Suc n)
  note same = same_but_listingD [OF Suc.prems(2)]
  have step: "safe (handle_message L self msg) (tr @ [Got msg])
    (\<lambda>self1 t. safe (server_run n L self1) t
      (\<lambda>(self1, _) t. server_inv L self0 t \<and> same_but_listing self1 self0 \<and>
       get_status_string (sv_listing self1) =
         texts (sl_status L) (get_status_string (sv_listing self0)) (messages t))
      (\<lambda>_. server_inv L self0) (server_inv L self0))
    (\<lambda>_. server_inv L self0) (server_inv L self0)" for msg
  proof (rule handle_message_safe, goal_cases)
    case (1 self1 evs)
    with Suc.prems same show ?case
      by (intro Suc.IH) (auto simp: server_inv_def intro: same_but_listing_trans)
  next
    case (2 p evs)
    with Suc.prems same show ?case by (auto simp: server_inv_def)
  next
    case (3 evs)
    with Suc.prems same show ?case by (auto simp: server_inv_def)
  qed
  show ?case
    unfolding server_run.simps
    by (intro safe_bind safe_perform safe_case_option safe_emit step) (use Suc.prems in auto)
qed

lemma server_run_trace:
  assumes "cx_trace c = []"
  shows "server_inv L self (trace_of (server_run n L self c))"
proof -
  have "server_inv L self []" by (simp add: server_inv_def)
  then have "safe (server_run n L self) [] (\<lambda>_. server_inv L self) (\<lambda>_. server_inv L self) (server_inv L self)"
    by (intro safe_weaken [OF server_run_safe [of L self]]) auto
  from safe_trace [OF this assms] show ?thesis .
qed

end
