(* ===== verification/Server_Trackers.thy ===== *)
theory Server_Trackers
  imports Server_Actor_Correct "HOL-Library.Sublist"
begin

text \<open>
  The task trackers of the server: which one a shutdown closes and awaits, and which ones have a listener
  on them. The first is read off the trace; for the second the environment matters as well, since it
  makes the trackers.
\<close>

section \<open>Shutdowns in a trace\<close>

fun shutdown_event :: "server_event \<Rightarrow> bool" where
  "shutdown_event (Got m) = (m = Shutdown)"
| "shutdown_event (Tracker_closed t) = True"
| "shutdown_event (Tracker_done t) = True"
| "shutdown_event Mailbox_closed = True"
| "shutdown_event e = False"

text \<open>What one shutdown does with the tracker \<open>tasks\<close>, and \<open>m\<close> shutdowns, one after the other.\<close>

definition shutdown_round :: "nat \<Rightarrow> server_event list" where
  "shutdown_round tasks = [Got Shutdown, Tracker_closed tasks, Tracker_done tasks, Mailbox_closed]"

primrec shutdown_rounds :: "nat \<Rightarrow> nat \<Rightarrow> server_event list" where
  "shutdown_rounds tasks 0 = []"
| "shutdown_rounds tasks (Suc m) = shutdown_rounds tasks m @ shutdown_round tasks"

definition shutdowns_done :: "nat \<Rightarrow> server_event list \<Rightarrow> bool" where
  "shutdowns_done tasks tr \<longleftrightarrow> (\<exists>m. filter shutdown_event tr = shutdown_rounds tasks m)"

definition shutdowns_begun :: "nat \<Rightarrow> server_event list \<Rightarrow> bool" where
  "shutdowns_begun tasks tr \<longleftrightarrow> (\<exists>m. prefix (filter shutdown_event tr) (shutdown_rounds tasks m))"

lemma shutdowns_begun_done: "shutdowns_done tasks tr \<Longrightarrow> shutdowns_begun tasks tr"
  unfolding shutdowns_done_def shutdowns_begun_def by (metis prefix_order.refl)

lemma shutdowns_done_quiet [simp]:
  "filter shutdown_event evs = [] \<Longrightarrow> shutdowns_done tasks (tr @ evs) = shutdowns_done tasks tr"
  by (simp add: shutdowns_done_def)

lemma shutdowns_done_round:
  assumes "shutdowns_done tasks tr"
  shows "shutdowns_done tasks (tr @ shutdown_round tasks)"
proof -
  from assms obtain m where "filter shutdown_event tr = shutdown_rounds tasks m" by (auto simp: shutdowns_done_def)
  then have "filter shutdown_event (tr @ shutdown_round tasks) = shutdown_rounds tasks (Suc m)"
    by (simp add: shutdown_round_def)
  then show ?thesis unfolding shutdowns_done_def by blast
qed

lemma shutdowns_begun_round:
  assumes "shutdowns_done tasks tr" and "prefix evs (shutdown_round tasks)"
  shows "shutdowns_begun tasks (tr @ evs)"
proof -
  from assms obtain m where m: "filter shutdown_event tr = shutdown_rounds tasks m" by (auto simp: shutdowns_done_def)
  from assms(2) obtain rest where "shutdown_round tasks = evs @ rest" by (auto elim: prefixE)
  then have "filter shutdown_event evs = evs"
    by (intro filter_True) (metis (mono_tags, lifting) Un_iff set_append shutdown_round_def
        list.set_intros(1) set_ConsD shutdown_event.simps(1-4) empty_iff list.set(1))
  with m assms(2) have "prefix (filter shutdown_event (tr @ evs)) (shutdown_rounds tasks (Suc m))" by simp
  then show ?thesis unfolding shutdowns_begun_def by blast
qed

lemma handle_message_shutdowns:
  assumes "shutdowns_done tasks tr" and "sv_tasks self = tasks"
  shows "safe (handle_message L self msg) (tr @ [Got msg])
    (\<lambda>self1 t. sv_tasks self1 = tasks \<and> shutdowns_done tasks t) (\<lambda>_. shutdowns_begun tasks) (shutdowns_begun tasks)"
proof (cases "msg = Shutdown")
  case True
  have begun: "shutdowns_begun tasks (tr @ [Got Shutdown])"
    "shutdowns_begun tasks (tr @ [Got Shutdown, Tracker_closed tasks])"
    by (intro shutdowns_begun_round [OF assms(1)]; simp add: shutdown_round_def)+
  show ?thesis
    unfolding True handle_message_def shutdown_defs ServerMessage.case
    using shutdowns_done_round [OF assms(1)] begun
    by (auto intro!: safe_rules simp: assms(2) shutdown_round_def)
next
  case False
  with assms show ?thesis
    unfolding handle_message_def reply_def start_listener_def Let_def
    by (cases msg) (auto intro!: safe_rules intro: shutdowns_begun_done)
qed

lemma server_run_shutdowns:
  assumes "shutdowns_done tasks tr" and "sv_tasks self = tasks"
  shows "safe (server_run n L self) tr (\<lambda>_. shutdowns_done tasks) (\<lambda>_. shutdowns_begun tasks) (shutdowns_begun tasks)"
  using assms
proof (induction n arbitrary: self tr)
  case (Suc n)
  have "safe (handle_message L self msg) (tr @ [Got msg])
    (\<lambda>self1 t. safe (server_run n L self1) t (\<lambda>_. shutdowns_done tasks) (\<lambda>_. shutdowns_begun tasks) (shutdowns_begun tasks))
    (\<lambda>_. shutdowns_begun tasks) (shutdowns_begun tasks)" for msg
    using Suc.IH by (intro safe_mono [OF handle_message_shutdowns [OF Suc.prems]]) simp_all
  with Suc.prems show ?case
    by (auto intro!: safe_bind safe_perform safe_emit safe_case_option intro: shutdowns_begun_done)
qed simp

section \<open>The trackers that the environment has made\<close>

fun world_of :: "('a, 'w) outcome \<Rightarrow> 'w" where
  "world_of (Done x w) = w"
| "world_of (Panicked p w) = w"
| "world_of (Waiting w) = w"

text \<open>
  With \<open>made\<close> the trackers there are: a new one is none of them and is one of them from then on, and no
  call takes one away. (Other tasks may make trackers at any time.)
\<close>

definition trackers_ok :: "('rng, 'sk, 's, 'cl, 'k, 'tx, 'rx, 'x, 'w) server_lib \<Rightarrow> ('w \<Rightarrow> nat set) \<Rightarrow> bool" where
  "trackers_ok L made \<longleftrightarrow>
     (\<forall>w t w1. sl_tracker_new L w = (t, w1) \<longrightarrow> t \<notin> made w \<and> insert t (made w) \<subseteq> made w1) \<and>
     (\<forall>w. made w \<subseteq> made (snd (sl_rng L w))) \<and>
     (\<forall>rx w. made w \<subseteq> made (world_of (sl_recv L rx w)) \<and> made w \<subseteq> made (snd (sl_close L rx w))) \<and>
     (\<forall>r a w. made w \<subseteq> made (snd (sl_reply L r a w))) \<and>
     (\<forall>t w. made w \<subseteq> made (snd (sl_tracker_close L t w)) \<and> made w \<subseteq> made (world_of (sl_tracker_wait L t w)))"

lemma trackers_okD:
  assumes "trackers_ok L made" and "sl_tracker_new L w = (t, w1)"
  shows "t \<notin> made w" and "insert t (made w) \<subseteq> made w1"
proof -
  from assms(1) have "\<forall>w t w1. sl_tracker_new L w = (t, w1) \<longrightarrow> t \<notin> made w \<and> insert t (made w) \<subseteq> made w1"
    unfolding trackers_ok_def by (rule conjunct1)
  with assms(2) show "t \<notin> made w" and "insert t (made w) \<subseteq> made w1" by metis+
qed

text \<open>The tracker \<open>tasks\<close> exists, and no listener was spawned on it: an invariant of every task of the server.\<close>

definition apart :: "('w \<Rightarrow> nat set) \<Rightarrow> nat \<Rightarrow> (server_event, 'w) ctx \<Rightarrow> bool" where
  "apart made tasks c \<longleftrightarrow> tasks \<in> made (cx_env c) \<and> (\<forall>address death. Task_on tasks address death \<notin> set (cx_trace c))"

definition keeps :: "(('c, 'w) ctx \<Rightarrow> bool) \<Rightarrow> ('a, 'c, 'w) task \<Rightarrow> bool" where
  "keeps I m \<longleftrightarrow> (\<forall>c. I c \<longrightarrow> I (world_of (m c)))"

named_theorems keeps_rules \<open>tasks that keep an invariant of their context, one rule per construct\<close>

lemma keeps_ret [keeps_rules]: "keeps I (ret x)"
  by (simp add: keeps_def ret_def)

lemma keeps_bind [keeps_rules]:
  assumes "keeps I m" and "\<And>x. keeps I (f x)"
  shows "keeps I (bind_task m f)"
  unfolding keeps_def bind_task_def
proof (intro allI impI)
  fix c
  assume "I c"
  with assms show "I (world_of (after (m c) f))"
    by (cases "m c") (auto simp: keeps_def dest: spec [of _ c])
qed

lemma keeps_lift_run [keeps_rules]: "keeps I (lift_run place m)"
  by (simp add: keeps_def lift_run_def split: run.split)

lemma keeps_cases [keeps_rules]:
  "(\<And>x. keeps I (f x)) \<Longrightarrow> (\<And>e. keeps I (g e)) \<Longrightarrow> keeps I (case_result f g r)"
  "keeps I h \<Longrightarrow> (\<And>x. keeps I (f x)) \<Longrightarrow> keeps I (case_option h f o1)"
  by (cases r; cases o1; simp)+

lemma apart_perform: "(\<And>w. made w \<subseteq> made (world_of (f w))) \<Longrightarrow> keeps (apart made tasks) (perform f)"
  by (fastforce simp: keeps_def apart_def perform_def split: outcome.split)

lemma apart_perform_now: "(\<And>w. made w \<subseteq> made (snd (f w))) \<Longrightarrow> keeps (apart made tasks) (perform_now f)"
  unfolding perform_now_def by (rule apart_perform) simp

lemma apart_emit: "(\<And>address death. e \<noteq> Task_on tasks address death) \<Longrightarrow> keeps (apart made tasks) (emit e)"
  by (auto simp: keeps_def apart_def emit_def)

lemma start_listener_apart:
  assumes "trackers_ok L made"
  shows "keeps (apart made tasks) (start_listener L self address death)"
  unfolding keeps_def
proof (intro allI impI)
  fix c
  assume c: "apart made tasks c"
  obtain t w1 where new: "sl_tracker_new L (cx_env c) = (t, w1)" by fastforce
  from trackers_okD [OF assms new] have "t \<notin> made (cx_env c)" and "insert t (made (cx_env c)) \<subseteq> made w1" by simp_all
  moreover have "world_of (start_listener L self address death c) =
      c\<lparr>cx_env := w1, cx_trace := cx_trace c @ [Task_on t address death]\<rparr>"
    by (simp add: start_listener_def task_eval new Let_def)
  ultimately show "apart made tasks (world_of (start_listener L self address death c))"
    using c by (auto simp: apart_def)
qed

lemma handle_message_apart:
  assumes "trackers_ok L made"
  shows "keeps (apart made tasks) (handle_message L self msg)"
proof -
  from assms have calls: "\<And>t w. made w \<subseteq> made (snd (sl_tracker_close L t w))"
    "\<And>t w. made w \<subseteq> made (world_of (sl_tracker_wait L t w))" "\<And>rx w. made w \<subseteq> made (snd (sl_close L rx w))"
    "\<And>r a w. made w \<subseteq> made (snd (sl_reply L r a w))"
    unfolding trackers_ok_def by blast+
  show ?thesis
    unfolding handle_message_def shutdown_defs reply_def
    by (cases msg) (auto intro!: keeps_rules apart_perform apart_perform_now apart_emit calls
        start_listener_apart [OF assms] split: result.split)
qed

lemma server_run_apart:
  assumes "trackers_ok L made"
  shows "keeps (apart made tasks) (server_run n L self)"
proof (induction n arbitrary: self)
  case 0
  then show ?case by (simp add: keeps_ret)
next
  case (Suc n)
  have "\<And>rx w. made w \<subseteq> made (world_of (sl_recv L rx w))" using assms unfolding trackers_ok_def by blast
  then show ?case
    unfolding server_run.simps
    by (intro keeps_rules apart_perform apart_emit handle_message_apart [OF assms] Suc.IH) simp_all
qed

lemma trace_of_world: "trace_of out = cx_trace (world_of out)"
  by (cases out) simp_all

text \<open>The tracker of a server that was spawned exists.\<close>

lemma spawned_server_tracker:
  assumes "trackers_ok L made" and "ServerActor_new L config rx tx c = Done self c1"
  shows "sv_tasks self \<in> made (cx_env c1)"
proof -
  have new: "fst (sl_tracker_new L w) \<in> made (snd (sl_tracker_new L w))" for w
    using trackers_okD(2) [OF assms(1) prod.collapse [symmetric], of w] by simp
  from assms(1) have rng: "\<And>w. made w \<subseteq> made (snd (sl_rng L w))"
    unfolding trackers_ok_def by blast
  from assms(2) obtain w where "sv_tasks self = fst (sl_tracker_new L w)"
    and "cx_env c1 = snd (sl_rng L (snd (sl_tracker_new L w)))"
    by (auto simp: ServerActor_new_def bind_eval perform_now_eval ret_eval lift_run_def
        elim!: after.elims split: run.splits)
  with new [of w] rng show ?thesis by auto
qed

end
