(* ===== verification/Server_Theorems.thy ===== *)
theory Server_Theorems
  imports Server_Trackers
begin

text \<open>The properties of the server actor, with their witnesses on a concrete server.\<close>

section \<open>A concrete server\<close>

text \<open>For the witnesses: a mailbox with the messages to come, numbered trackers, a toy key pair.\<close>

record toy_world =
  tw_mailbox :: "ServerMessage list"
  tw_tracker :: nat

definition toy_status :: "(unit, unit) status_lib" where
  "toy_status = \<lparr>to_json = (\<lambda>r. Ok (sr_description r)), current_protocol = 770\<rparr>"

definition toy_rsa :: "(unit, unit, unit) rsa_lib" where
  "toy_rsa = \<lparr>rsa_new = (\<lambda>_ _. Ok ()), rsa_n = (\<lambda>_. [3]), rsa_e = (\<lambda>_. [5]),
     rsa_decrypt = (\<lambda>_ d. if d = [] then Err () else Ok (rev d)), public_key_to_der = (\<lambda>n e. n @ e)\<rparr>"

definition toy_server :: "(unit, unit, unit, unit, unit, unit, unit, unit, toy_world) server_lib" where
  "toy_server = \<lparr>sl_status = toy_status, sl_rsa = toy_rsa, sl_rng = (\<lambda>w. ((), w)),
     sl_mpsc = \<lparr>mp_channel = (\<lambda>_ w. (((), ()), w)), mp_send = (\<lambda>_ m w. (Ok (), w)),
       mp_try_send = (\<lambda>_ m w. (Ok (), w)), mp_waits = (\<lambda>_ _. False), oneshot_channel = (\<lambda>w. ((0, 0), w))\<rparr>,
     sl_connect_timeout = 5000, sl_read_timeout = 5000, sl_client = (\<lambda>_ _. Ok ()),
     sl_fetch_keys = (\<lambda>_ w. Done (Ok [()]) w),
     sl_recv = (\<lambda>_ w. case tw_mailbox w of [] \<Rightarrow> Done None w | m # ms \<Rightarrow> Done (Some m) (w\<lparr>tw_mailbox := ms\<rparr>)),
     sl_close = (\<lambda>_ w. ((), w)), sl_reply = (\<lambda>_ _ w. (True, w)),
     sl_tracker_new = (\<lambda>w. (Suc (tw_tracker w), w\<lparr>tw_tracker := Suc (tw_tracker w)\<rparr>)),
     sl_tracker_close = (\<lambda>_ w. ((), w)), sl_tracker_wait = (\<lambda>_ w. Done () w)\<rparr>"

definition toy_actor :: "(unit, unit, unit, unit, unit, unit) ServerActor" where
  "toy_actor = \<lparr>
     sv_listing = \<lparr>status_response = build_response toy_status 20 ''old'', status_response_json = ''old''\<rparr>,
     sv_message_receiver = (), sv_auth_client = None, sv_mojang_public_keys = None,
     sv_use_whitelist = False, sv_tasks = 0, sv_self_addr = (),
     sv_key_store = \<lparr>private_key = (), public_key_der = [3, 5]\<rparr>\<rparr>"

definition toy_start :: "ServerMessage list \<Rightarrow> (server_event, toy_world) ctx" where
  "toy_start ms = \<lparr>cx_env = \<lparr>tw_mailbox = ms, tw_tracker = 0\<rparr>, cx_trace = []\<rparr>"

lemma toy_start_trace [simp]: "cx_trace (toy_start ms) = []"
  by (simp add: toy_start_def)

text \<open>The trackers of the concrete server are numbered from 0.\<close>

definition toy_trackers :: "toy_world \<Rightarrow> nat set" where
  "toy_trackers w = {..tw_tracker w}"

lemma toy_trackers_ok: "trackers_ok toy_server toy_trackers"
  by (auto simp: trackers_ok_def toy_server_def toy_trackers_def split: list.split)

lemma toy_actor_tracker: "sv_tasks toy_actor \<in> toy_trackers (cx_env (toy_start ms))"
  by (simp add: toy_actor_def toy_trackers_def)

lemmas server_eval = toy_server_def toy_actor_def toy_start_def toy_status_def toy_rsa_def task_eval
  perform_def lift_run_def handle_message_def reply_def start_listener_def shutdown_defs
  from_config_def CachedStatus_new_def with_json_def build_response_def get_status_string_def
  get_public_der_def decrypt_def

section \<open>Properties\<close>

text \<open>
  C6: The server answers as specified, in order. Whatever the environment does, and however many
  rounds the loop has made, finished or stopped by a panic or an await, the answers given are exactly
  those of the abstract server to the messages received: each status question gets the JSON text of
  the latest configuration, each question for the certificate the public key of the one key pair, each
  decryption the plaintext of the private key, or a dropped channel when it fails; one answer per
  question, and none without.
\<close>

theorem server_answers_as_specified:
  assumes "cx_trace c = []"
  shows "answered (trace_of (server_run n L self c)) =
    answers (sl_status L) (sl_rsa L) (sv_key_store self) (get_status_string (sv_listing self))
      (messages (trace_of (server_run n L self c)))"
  using server_run_trace [OF assms, of L self n] by (simp add: server_inv_def)

definition toy_messages :: "ServerMessage list" where
  "toy_messages = [GetStatus 0, UpdateConfig (BasicConfiguration_default\<lparr>motd := ''new''\<rparr>),
     GetStatus 1, Decrypt [1, 2] 2, Decrypt [] 3, CertificatePublicDer 4]"

theorem server_answers_as_specified_witness:
  "answered (trace_of (server_run 9 toy_server toy_actor (toy_start toy_messages))) =
     answers toy_status toy_rsa \<lparr>private_key = (), public_key_der = [3, 5]\<rparr> ''old''
       (messages (trace_of (server_run 9 toy_server toy_actor (toy_start toy_messages)))) \<and>
   answers toy_status toy_rsa \<lparr>private_key = (), public_key_der = [3, 5]\<rparr> ''old'' toy_messages =
     [(0, Some (Status_text ''old'')), (1, Some (Status_text ''new'')), (2, Some (Plaintext [2, 1])),
      (3, None), (4, Some (Der [3, 5]))]"
  using server_answers_as_specified [of "toy_start toy_messages" 9 toy_server toy_actor]
  by (simp add: toy_messages_def)
    (simp add: toy_server_def toy_actor_def toy_status_def toy_rsa_def get_status_string_def build_response_def)

text \<open>
  C33: A shutdown awaits a tracker that has no listener on it. In every run of the server, every shutdown
  received is followed, before the next message, by the closing of the tracker the server was made
  with, then the end of the wait for that same tracker, then the closing of the mailbox (all of it when
  the run finishes, a first part when it panics or waits for ever); no other tracker is ever closed or
  awaited. And no listener the server starts is spawned on that tracker, as long as the environment does
  not make the same tracker twice: so the connections of the listeners are not what a shutdown waits for.
\<close>

theorem shutdown_awaits_no_listener:
  assumes "cx_trace c = []" and "trackers_ok L made" and "sv_tasks self \<in> made (cx_env c)"
  shows "shutdowns_begun (sv_tasks self) (trace_of (server_run n L self c)) \<and>
    (\<forall>r c1. server_run n L self c = Done r c1 \<longrightarrow> shutdowns_done (sv_tasks self) (cx_trace c1)) \<and>
    (\<forall>address death. Task_on (sv_tasks self) address death \<notin> set (trace_of (server_run n L self c)))"
proof -
  have "shutdowns_done (sv_tasks self) []" unfolding shutdowns_done_def by (intro exI [of _ 0]) simp
  note run = safe_cases [OF server_run_shutdowns [OF this refl] assms(1)]
  have "apart made (sv_tasks self) (world_of (server_run n L self c))"
    using server_run_apart [OF assms(2)] assms(1,3) unfolding keeps_def by (simp add: apart_def)
  then have "\<forall>address death. Task_on (sv_tasks self) address death \<notin> set (trace_of (server_run n L self c))"
    by (simp add: apart_def trace_of_world)
  moreover have "shutdowns_begun (sv_tasks self) (trace_of (server_run n L self c))"
    by (cases "server_run n L self c") (auto intro: shutdowns_begun_done run)
  ultimately show ?thesis using run(1) by blast
qed

theorem shutdown_awaits_no_listener_witness:
  "\<exists>r c1. server_run 3 toy_server toy_actor (toy_start [StartListener ''here'' 7, Shutdown, GetStatus 1]) = Done (r, False) c1 \<and>
     shutdowns_done 0 (cx_trace c1) \<and> Task_on 1 ''here'' 7 \<in> set (cx_trace c1) \<and>
     (\<forall>address death. Task_on 0 address death \<notin> set (cx_trace c1)) \<and>
     filter shutdown_event (cx_trace c1) = shutdown_round 0"
proof -
  have "\<exists>r c1. server_run 3 toy_server toy_actor (toy_start [StartListener ''here'' 7, Shutdown, GetStatus 1]) = Done (r, False) c1 \<and>
     Task_on 1 ''here'' 7 \<in> set (cx_trace c1) \<and> filter shutdown_event (cx_trace c1) = shutdown_round 0"
    by (simp add: server_eval numeral_eq_Suc shutdown_round_def Let_def cong: task_congs)
  moreover have "sv_tasks toy_actor = 0" by (simp add: toy_actor_def)
  ultimately show ?thesis
    using shutdown_awaits_no_listener [OF toy_start_trace toy_trackers_ok toy_actor_tracker]
    by (metis trace_of.simps(1))
qed

text \<open>
  C34: A configuration update takes effect at once, and forgets the players. After the message the
  status shows the new maximum and message of the day, every other field of the actor is as before
  (the whitelist flag and the authentication client included), and the number of players online is 0
  whatever it was; \<open>update_status\<close>, which the handler does not call, would have kept it.
\<close>

theorem update_config_resets_count:
  assumes "handle_message L self (UpdateConfig config) c = Done self1 c1"
  shows "sr_players (status_response (sv_listing self1)) =
      Some \<lparr>pl_max = max_players config, pl_online = 0, pl_sample = []\<rparr> \<and>
    sr_description (status_response (sv_listing self1)) = motd config \<and>
    json_in_sync (sl_status L) (sv_listing self1) \<and> same_but_listing self1 self \<and> cx_trace c1 = cx_trace c \<and>
    (\<forall>cs players. update_status (sl_status L) config (sv_listing self) = Ret cs \<longrightarrow>
       sr_players (status_response (sv_listing self)) = Some players \<longrightarrow>
       (\<exists>p. sr_players (status_response cs) = Some p \<and> pl_online p = pl_online players))"
proof -
  from assms obtain cs where "from_config (sl_status L) config = Ret cs"
    and s: "self1 = self\<lparr>sv_listing := cs\<rparr>" and c: "c1 = c"
    by (auto simp: handle_message_def task_eval lift_run_def split: run.splits)
  then have "status_response cs = build_response (sl_status L) (max_players config) (motd config)"
    and "json_in_sync (sl_status L) cs"
    by (auto simp: from_config_def CachedStatus_new_def with_json_Ret_iff)
  with s c show ?thesis
    by (auto simp: build_response_def same_but_listing_def update_status_def with_json_Ret_iff Let_def)
qed

theorem update_config_resets_count_witness:
  "\<exists>self1 c1. handle_message toy_server toy_actor (UpdateConfig BasicConfiguration_default) (toy_start []) =
      Done self1 c1 \<and>
    sr_players (status_response (sv_listing self1)) = Some \<lparr>pl_max = 100000, pl_online = 0, pl_sample = []\<rparr>"
proof -
  have "\<exists>self1 c1. handle_message toy_server toy_actor (UpdateConfig BasicConfiguration_default) (toy_start []) =
      Done self1 c1" by (simp add: server_eval)
  then show ?thesis
    using update_config_resets_count [of toy_server toy_actor BasicConfiguration_default "toy_start []"]
    by (fastforce simp: BasicConfiguration_default_def)
qed

text \<open>
  The server starts as configured. An actor that is made has an authentication client exactly in
  online mode, Mojang's keys only in online mode with chat reports allowed, the whitelist flag and
  the status of the configuration with nobody online, and a key pair whose public key is the one it
  hands out.
\<close>

theorem server_starts_as_configured:
  fixes c :: "('v, 'w) ctx"
  assumes "ServerActor_new L config rx tx c = Done a c1"
  shows "(sv_auth_client a \<noteq> None \<longleftrightarrow> online_mode config) \<and>
    (sv_mojang_public_keys a \<noteq> None \<longrightarrow> online_mode config \<and> allow_chat_reports config) \<and>
    sv_use_whitelist a = white_list config \<and>
    status_response (sv_listing a) = build_response (sl_status L) (max_players config) (motd config) \<and>
    json_in_sync (sl_status L) (sv_listing a) \<and>
    public_key_der (sv_key_store a) = public_key_to_der (sl_rsa L)
      (rsa_n (sl_rsa L) (private_key (sv_key_store a))) (rsa_e (sl_rsa L) (private_key (sv_key_store a))) \<and>
    sv_message_receiver a = rx \<and> sv_self_addr a = tx"
proof -
  let ?Q = "\<lambda>a (_ :: 'v list). (sv_auth_client a \<noteq> None \<longleftrightarrow> online_mode config) \<and>
    (sv_mojang_public_keys a \<noteq> None \<longrightarrow> online_mode config \<and> allow_chat_reports config) \<and>
    sv_use_whitelist a = white_list config \<and>
    status_response (sv_listing a) = build_response (sl_status L) (max_players config) (motd config) \<and>
    json_in_sync (sl_status L) (sv_listing a) \<and>
    public_key_der (sv_key_store a) = public_key_to_der (sl_rsa L)
      (rsa_n (sl_rsa L) (private_key (sv_key_store a))) (rsa_e (sl_rsa L) (private_key (sv_key_store a))) \<and>
    sv_message_receiver a = rx \<and> sv_self_addr a = tx"
  have "safe (ServerActor_new L config rx tx) (cx_trace c) ?Q (\<lambda>_ _. True) (\<lambda>_. True)"
    unfolding ServerActor_new_def mojang_pubkeys_def
    by (intro safe_rules)
      (auto simp: auth_client_def run_simps KeyStore_new_Ret_iff from_config_def CachedStatus_new_def
        with_json_Ret_iff split: if_splits)
  from safe_cases(1) [OF this refl assms] show ?thesis .
qed

theorem server_starts_as_configured_witness:
  "\<exists>a c1. ServerActor_new toy_server BasicConfiguration_default () () (toy_start []) = Done a c1 \<and>
    sv_auth_client a \<noteq> None \<and> public_key_der (sv_key_store a) = [3, 5]"
proof -
  have "\<exists>a c1. ServerActor_new toy_server BasicConfiguration_default () () (toy_start []) = Done a c1"
    by (simp add: server_eval ServerActor_new_def mojang_pubkeys_def auth_client_def KeyStore_new_def
        generate_private_key_def BasicConfiguration_default_def)
  then show ?thesis
    using server_starts_as_configured [of toy_server BasicConfiguration_default "()" "()" "toy_start []"]
    by (fastforce simp: BasicConfiguration_default_def toy_server_def toy_rsa_def)
qed

section \<open>Panics of the server\<close>

text \<open>The one call that can panic while a message is handled.\<close>

definition update_spoils :: "('s, 'x) status_lib \<Rightarrow> panic \<Rightarrow> ServerMessage list \<Rightarrow> bool" where
  "update_spoils J p ms \<longleftrightarrow> p = Panic_in_library \<or> p = Panic_at ''CachedStatus::from_config'' \<and>
     (\<exists>ms1 config e. ms = ms1 @ [UpdateConfig config] \<and> to_json J (build_response J (max_players config) (motd config)) = Err e)"

lemma from_config_Panic:
  "from_config J config = Panic \<Longrightarrow> \<exists>e. to_json J (build_response J (max_players config) (motd config)) = Err e"
  by (cases "to_json J (build_response J (max_players config) (motd config))")
    (simp_all add: from_config_def CachedStatus_new_def with_json_def)

lemma handle_message_panics:
  assumes "messages tr = ms @ [msg]"
  shows "safe (handle_message L self msg) tr (\<lambda>_ _. True) (\<lambda>p t. update_spoils (sl_status L) p (messages t)) (\<lambda>_. True)"
  unfolding handle_message_def shutdown_defs reply_def start_listener_def Let_def
  by (cases msg) (auto intro!: safe_rules simp: update_spoils_def assms dest: from_config_Panic)

lemma server_run_panics:
  "safe (server_run n L self) tr (\<lambda>_ _. True) (\<lambda>p t. update_spoils (sl_status L) p (messages t)) (\<lambda>_. True)"
proof (induction n arbitrary: self tr)
  case (Suc n)
  have "safe (handle_message L self msg) (tr @ [Got msg])
      (\<lambda>self1 t. safe (server_run n L self1) t (\<lambda>_ _. True) (\<lambda>p t. update_spoils (sl_status L) p (messages t)) (\<lambda>_. True))
      (\<lambda>p t. update_spoils (sl_status L) p (messages t)) (\<lambda>_. True)" for msg
    using handle_message_panics [of "tr @ [Got msg]" "messages tr" msg L self] Suc.IH by (auto elim: safe_mono)
  then show ?case by (auto intro!: safe_bind safe_perform safe_emit safe_case_option simp: update_spoils_def)
qed simp

text \<open>
  C11: No client can stop the server. If the loop of the server panics in code of the proxy, it is on an
  update of the configuration whose status cannot be written as JSON, the last message received: no
  question of a client, whatever bytes it carries, and no other message does it.
\<close>

theorem only_bad_update_stops_server:
  assumes "cx_trace c = []" and "server_run n L self c = Panicked (Panic_at place) c1"
  shows "place = ''CachedStatus::from_config'' \<and>
    (\<exists>ms config e. messages (cx_trace c1) = ms @ [UpdateConfig config] \<and>
       to_json (sl_status L) (build_response (sl_status L) (max_players config) (motd config)) = Err e)"
  using safe_cases(2) [OF server_run_panics assms] by (simp add: update_spoils_def)

text \<open>A server whose library cannot write one text.\<close>

definition fragile_server :: "(unit, unit, unit, unit, unit, unit, unit, unit, toy_world) server_lib" where
  "fragile_server = toy_server\<lparr>sl_status := toy_status\<lparr>to_json := (\<lambda>r. if sr_description r = ''bad'' then Err () else Ok ''good'')\<rparr>\<rparr>"

theorem only_bad_update_stops_server_witness:
  "\<exists>c1 ms config. server_run 3 fragile_server toy_actor
      (toy_start [Decrypt [] 0, UpdateConfig (BasicConfiguration_default\<lparr>motd := ''bad''\<rparr>), GetStatus 1]) =
      Panicked (Panic_at ''CachedStatus::from_config'') c1 \<and>
    messages (cx_trace c1) = ms @ [UpdateConfig config]"
proof -
  have "\<exists>c1. server_run 3 fragile_server toy_actor
      (toy_start [Decrypt [] 0, UpdateConfig (BasicConfiguration_default\<lparr>motd := ''bad''\<rparr>), GetStatus 1]) =
      Panicked (Panic_at ''CachedStatus::from_config'') c1"
    by (simp add: fragile_server_def server_eval numeral_eq_Suc cong: task_congs)
  then show ?thesis using only_bad_update_stops_server [OF toy_start_trace] by metis
qed

end
