(* ===== verification/End_To_End.thy ===== *)
theory End_To_End
  imports Connection Server_Theorems
begin

text \<open>
  A connection and the server together. Both run in environments of their own; what ties them is the
  traffic of the channels, stated over the two traces: the mailbox hands over what it accepted, in
  order, and a reply that is received was sent on the peer of the receiver.
\<close>

section \<open>The channels between them\<close>

text \<open>The sending end of the reply channel that a message carries.\<close>

fun reply_channel :: "ServerMessage \<Rightarrow> reply_to option" where
  "reply_channel Shutdown = None"
| "reply_channel (GetStatus r) = Some r"
| "reply_channel (StartListener address death) = Some death"
| "reply_channel (UpdateConfig c) = None"
| "reply_channel (CertificatePublicDer r) = Some r"
| "reply_channel (Decrypt dat r) = Some r"

text \<open>What an answer is to a receiver of bytes and to a receiver of text.\<close>

fun bytes_of :: "answer \<Rightarrow> bytes option" where
  "bytes_of (Status_text t) = None"
| "bytes_of (Der b) = Some b"
| "bytes_of (Plaintext b) = Some b"

fun text_of :: "answer \<Rightarrow> string option" where
  "text_of (Status_text t) = Some t"
| "text_of (Der b) = None"
| "text_of (Plaintext b) = None"

text \<open>
  \<open>ch_accepted\<close> is all that the mailbox of the server ever accepted, from this connection and from
  others; \<open>ch_peer\<close> is the sending end of a receiving end. The server has received a first part of
  what was accepted. What this connection asked was accepted, with the peer of its receiver inside.
  A sending end is used up by the message it is put in, so no two messages carry the same. A value
  that is received was sent on the peer.
\<close>

record channels =
  ch_accepted :: "ServerMessage list"
  ch_peer :: "receiver \<rightharpoonup> reply_to"

definition channels_ok :: "'z channels_scheme \<Rightarrow> 's event list \<Rightarrow> server_event list \<Rightarrow> bool" where
  "channels_ok C tr st \<longleftrightarrow>
     (\<exists>rest. ch_accepted C = messages st @ rest) \<and>
     (\<forall>m rx. Asked m rx \<in> set tr \<longrightarrow> m \<in> set (ch_accepted C) \<and> ch_peer C rx \<noteq> None \<and> reply_channel m = ch_peer C rx) \<and>
     distinct (List.map_filter reply_channel (ch_accepted C)) \<and>
     (\<forall>rx b. Reply_bytes rx (Some b) \<in> set tr \<longrightarrow>
        (\<exists>r a. ch_peer C rx = Some r \<and> (r, Some a) \<in> set (answered st) \<and> bytes_of a = Some b)) \<and>
     (\<forall>rx t. Reply_string rx (Some t) \<in> set tr \<longrightarrow>
        (\<exists>r a. ch_peer C rx = Some r \<and> (r, Some a) \<in> set (answered st) \<and> text_of a = Some t))"

section \<open>The answer belongs to the question\<close>

lemma answers_split:
  "x \<in> set (answers J R ks cur ms) \<Longrightarrow>
     \<exists>ms1 m ms2. ms = ms1 @ m # ms2 \<and> x \<in> set (answer_to R ks (texts J cur ms1) m)"
proof (induction ms arbitrary: cur)
  case (Cons m ms)
  then consider "x \<in> set (answer_to R ks cur m)" | "x \<in> set (answers J R ks (next_text J cur m) ms)" by auto
  then show ?case
  proof cases
    case 1
    then show ?thesis by (intro exI [of _ "[]"] exI [of _ m] exI [of _ ms]) simp
  next
    case 2
    from Cons.IH [OF this] obtain ms1 m' ms2 where "ms = ms1 @ m' # ms2"
      and "x \<in> set (answer_to R ks (texts J (next_text J cur m) ms1) m')" by blast
    then show ?thesis by (intro exI [of _ "m # ms1"] exI [of _ m'] exI [of _ ms2]) simp
  qed
qed simp

lemma answer_to_channel: "(r, a) \<in> set (answer_to R ks cur m) \<Longrightarrow> reply_channel m = Some r"
  by (cases m) auto

lemma distinct_map_filter:
  assumes "distinct (List.map_filter f xs)" and "m \<in> set xs" "m' \<in> set xs"
    and "f m = Some r" "f m' = Some r"
  shows "m = m'"
  using assms
proof (induction xs)
  case (Cons x xs)
  have "r \<in> set (List.map_filter f xs)" if "m \<in> set xs" "f m = Some r" for m
    using that by (force simp: map_filter_def)
  with Cons show ?case by (auto simp: map_filter_simps split: option.splits)
qed simp

lemma answer_of_question:
  assumes "distinct (List.map_filter reply_channel (messages st @ rest))"
    and "m \<in> set (messages st @ rest)" and "reply_channel m = Some r"
    and "(r, a) \<in> set (answers J R ks cur (messages st))"
  shows "\<exists>ms1 ms2. messages st = ms1 @ m # ms2 \<and> (r, a) \<in> set (answer_to R ks (texts J cur ms1) m)"
proof -
  from assms(4) obtain ms1 m' ms2 where ms: "messages st = ms1 @ m' # ms2"
    and a: "(r, a) \<in> set (answer_to R ks (texts J cur ms1) m')"
    using answers_split by blast
  from a have "reply_channel m' = Some r" by (rule answer_to_channel)
  with assms(1-3) ms have "m' = m"
    by (intro distinct_map_filter [where f = reply_channel and xs = "messages st @ rest"]) auto
  with ms a show ?thesis by blast
qed

text \<open>What a reply to a question of the connection comes from.\<close>

definition linked :: "'z channels_scheme \<Rightarrow> 's event list \<Rightarrow> server_event list \<Rightarrow> ('u, 'x) status_lib \<Rightarrow>
    ('rng, 'sk, 'x) rsa_lib \<Rightarrow> 'sk KeyStore \<Rightarrow> string \<Rightarrow> bool" where
  "linked C tr st J R ks cur \<longleftrightarrow> channels_ok C tr st \<and> answered st = answers J R ks cur (messages st)"

lemma reply_answered:
  assumes "linked C tr st J R ks cur"
    and "Asked m rx \<in> set tr" and "ch_peer C rx = Some r" and "(r, Some a) \<in> set (answered st)"
  shows "\<exists>ms1 ms2. messages st = ms1 @ m # ms2 \<and> (r, Some a) \<in> set (answer_to R ks (texts J cur ms1) m)"
proof -
  from assms(1,2) obtain rest where "ch_accepted C = messages st @ rest"
    and "m \<in> set (ch_accepted C)" "reply_channel m = ch_peer C rx"
    and "distinct (List.map_filter reply_channel (ch_accepted C))"
    unfolding channels_ok_def linked_def by blast
  with assms(1,3,4) show ?thesis
    by (intro answer_of_question [where rest = rest]) (simp_all add: linked_def)
qed

lemma bytes_answered:
  assumes "linked C tr st J R ks cur" and "Asked m rx \<in> set tr" and "Reply_bytes rx (Some b) \<in> set tr"
  shows "\<exists>r a text. bytes_of a = Some b \<and> (r, Some a) \<in> set (answer_to R ks text m)"
proof -
  from assms(1,3) obtain r a where "ch_peer C rx = Some r" "(r, Some a) \<in> set (answered st)" "bytes_of a = Some b"
    unfolding channels_ok_def linked_def by blast
  with reply_answered [OF assms(1,2)] show ?thesis by blast
qed

lemma der_answered:
  "linked C tr st J R ks cur \<Longrightarrow> Asked (CertificatePublicDer s) rx \<in> set tr \<Longrightarrow>
    Reply_bytes rx (Some b) \<in> set tr \<Longrightarrow> b = public_key_der ks"
  using bytes_answered [of C tr st J R ks cur "CertificatePublicDer s" rx b] by auto

lemma decrypt_answered:
  "linked C tr st J R ks cur \<Longrightarrow> Asked (Decrypt dat s) rx \<in> set tr \<Longrightarrow> Reply_bytes rx (Some b) \<in> set tr \<Longrightarrow>
    rsa_decrypt R (private_key ks) dat = Ok b"
  using bytes_answered [of C tr st J R ks cur "Decrypt dat s" rx b]
  by (cases "rsa_decrypt R (private_key ks) dat") auto

lemma status_answered:
  assumes "linked C tr st J R ks cur" and "Asked (GetStatus s) rx \<in> set tr" and "Reply_string rx (Some t) \<in> set tr"
  shows "\<exists>ms1 ms2. messages st = ms1 @ GetStatus s # ms2 \<and> t = texts J cur ms1"
proof -
  from assms(1,3) obtain r a where "ch_peer C rx = Some r" "(r, Some a) \<in> set (answered st)" "text_of a = Some t"
    unfolding channels_ok_def linked_def by blast
  with reply_answered [OF assms(1,2)] show ?thesis by fastforce
qed

section \<open>The frames in terms of the server\<close>

text \<open>The client asked for the state with its first packet.\<close>

definition asked_for :: "(SHandShake, 'x) server_packet \<Rightarrow> ConnectionState \<Rightarrow> 's event list \<Rightarrow> bool" where
  "asked_for H state tr \<longleftrightarrow> (\<exists>p hs tail. tr = Received p # tail \<and> parsed (sp_id H) (sp_read H) p = Some hs \<and>
     hs_next_state hs = state)"

definition served_request :: "'x login_packets \<Rightarrow> 'sk KeyStore \<Rightarrow> 's event list \<Rightarrow> 's \<times> bytes \<Rightarrow> bool" where
  "served_request K ks tr x \<longleftrightarrow> (\<exists>token. Drew token \<in> set tr \<and>
     serialize_bytes (cp_write (lp_request K)) (request_for (public_key_der ks) token) = Ok (snd x))"

text \<open>
  The client proved that it holds the token: it came back encrypted for the server's key, and so did
  the secret that the ciphers are made from.
\<close>

definition served_success :: "('t, 'd, 'e, 'tx, 'rx, 'x, 'w) conn_lib \<Rightarrow> 'x login_packets \<Rightarrow>
    ('rng, 'sk, 'y) rsa_lib \<Rightarrow> 'sk KeyStore \<Rightarrow> ('t, 'd, 'e) MCSocket event list \<Rightarrow>
    ('t, 'd, 'e) MCSocket \<times> bytes \<Rightarrow> bool" where
  "served_success E K R ks tr y \<longleftrightarrow>
     (\<exists>t d e login resp token secret.
        fst y = Encrypted t d e None \<and> login_received K tr login \<and> response_received K tr resp \<and>
        Drew token \<in> set tr \<and> rsa_decrypt R (private_key ks) (er_verify_token resp) = Ok token \<and>
        rsa_decrypt R (private_key ks) (er_shared_secret resp) = Ok secret \<and> 16 \<le> length secret \<and>
        prepare_encryption (lib_cipher E) (take 16 secret) = Ok (d, e) \<and>
        serialize_bytes (cp_write (lp_success K)) (success_for login) = Ok (snd y))"

fun served_login :: "('t, 'd, 'e, 'tx, 'rx, 'x, 'w) conn_lib \<Rightarrow> 'x login_packets \<Rightarrow>
    ('rng, 'sk, 'y) rsa_lib \<Rightarrow> 'sk KeyStore \<Rightarrow> ('t, 'd, 'e) MCSocket event list \<Rightarrow>
    (('t, 'd, 'e) MCSocket \<times> bytes) list \<Rightarrow> bool" where
  "served_login E K R ks tr [] = True"
| "served_login E K R ks tr [x] = served_request K ks tr x"
| "served_login E K R ks tr [x, y] = (served_request K ks tr x \<and> served_success E K R ks tr y)"
| "served_login E K R ks tr (x # y # z # zs) = False"

lemma request_served:
  assumes "linked C tr st J R ks cur" and "set u \<subseteq> set tr" and "request_ok K u x"
  shows "served_request K ks tr x"
  using assms der_answered [OF assms(1)] unfolding request_ok_def served_request_def by (metis subsetD)

lemma success_served:
  assumes "linked C tr st J R ks cur" and "set u \<subseteq> set tr" and "success_ok E K u y"
  shows "served_success E K R ks tr y"
proof -
  from assms(3) obtain t d e login where y: "fst y = Encrypted t d e None" "login_received K u login"
    "serialize_bytes (cp_write (lp_success K)) (success_for login) = Ok (snd y)"
    and agreed: "key_agreed E K u d e"
    unfolding success_ok_def by blast
  from agreed obtain p resp token secret s1 rx1 s2 rx2 where p: "Received p \<in> set u"
      "parsed (sp_id (lp_response K)) (sp_read (lp_response K)) p = Some resp" "Drew token \<in> set u"
    and a: "Asked (Decrypt (er_verify_token resp) s1) rx1 \<in> set u" "Reply_bytes rx1 (Some token) \<in> set u"
      "Asked (Decrypt (er_shared_secret resp) s2) rx2 \<in> set u" "Reply_bytes rx2 (Some secret) \<in> set u"
    and k: "16 \<le> length secret" "prepare_encryption (lib_cipher E) (take 16 secret) = Ok (d, e)"
    unfolding key_agreed_def by blast
  note a = a [THEN subsetD [OF assms(2)]] and p = p(1,3) [THEN subsetD [OF assms(2)]] p(2)
  from p have "response_received K tr resp" by (auto simp: response_received_def)
  moreover from y(2) assms(2) have "login_received K tr login" by (auto simp: login_received_def)
  moreover note decrypt_answered [OF assms(1) a(1,2)] decrypt_answered [OF assms(1) a(3,4)]
  ultimately show ?thesis
    using y(1,3) p(2) k unfolding served_success_def by blast
qed

lemma login_frames_served:
  assumes "linked C tr st J R ks cur" and "set u \<subseteq> set tr" and "login_frames_ok E K u fs"
  shows "served_login E K R ks tr fs"
  using assms(3) request_served [OF assms(1,2)] success_served [OF assms(1,2)]
  by (cases "(E, K, tr, fs)" rule: login_frames_ok.cases) auto

text \<open>A status frame carries the text of the configuration that the server knew when it got the question.\<close>

definition served_text :: "'x status_packets \<Rightarrow> ('u, 'y) status_lib \<Rightarrow> string \<Rightarrow> server_event list \<Rightarrow>
    ('t, 'd, 'e) MCSocket event list \<Rightarrow> ('t, 'd, 'e) MCSocket \<times> bytes \<Rightarrow> bool" where
  "served_text S J cur st tr x \<longleftrightarrow>
     (\<exists>io s rx ms1 ms2. fst x = Cleartext io \<and> Asked (GetStatus s) rx \<in> set tr \<and>
        messages st = ms1 @ GetStatus s # ms2 \<and>
        serialize_bytes (cp_write (kp_status_response S)) (CStatusResponse (texts J cur ms1)) = Ok (snd x))"

text \<open>At most two frames: one of the first kind or of the second, or one of each in this order.\<close>

fun at_most_both :: "('f \<Rightarrow> bool) \<Rightarrow> ('f \<Rightarrow> bool) \<Rightarrow> 'f list \<Rightarrow> bool" where
  "at_most_both P Q [] = True"
| "at_most_both P Q [x] = (P x \<or> Q x)"
| "at_most_both P Q [x, y] = (P x \<and> Q y)"
| "at_most_both P Q (x # y # z # zs) = False"

lemma at_most_both_mono:
  "at_most_both P Q fs \<Longrightarrow> (\<And>x. P x \<Longrightarrow> P' x) \<Longrightarrow> (\<And>x. Q x \<Longrightarrow> Q' x) \<Longrightarrow> at_most_both P' Q' fs"
  by (cases "(P, Q, fs)" rule: at_most_both.cases) auto

lemma status_frames_both:
  "status_frames_ok S rx u fs \<longleftrightarrow> at_most_both (status_frame S rx u) (pong_frame S u) fs"
  by (cases "(S, rx, u, fs)" rule: status_frames_ok.cases) auto

definition served_status :: "'x status_packets \<Rightarrow> ('u, 'y) status_lib \<Rightarrow> string \<Rightarrow> server_event list \<Rightarrow>
    ('t, 'd, 'e) MCSocket event list \<Rightarrow> (('t, 'd, 'e) MCSocket \<times> bytes) list \<Rightarrow> bool" where
  "served_status S J cur st tr fs \<longleftrightarrow> at_most_both (served_text S J cur st tr) (pong_frame S tr) fs"

lemma text_served:
  assumes "linked C tr st J R ks cur" and "set u \<subseteq> set tr" and "Asked (GetStatus s) rx \<in> set tr"
    and "status_frame S rx u x"
  shows "served_text S J cur st tr x"
proof -
  from assms(2,4) obtain io t where x: "fst x = Cleartext io" "Reply_string rx (Some t) \<in> set tr"
    "serialize_bytes (cp_write (kp_status_response S)) (CStatusResponse t) = Ok (snd x)"
    unfolding status_frame_def by blast
  from status_answered [OF assms(1,3) x(2)] x(1,3) assms(3) show ?thesis
    unfolding served_text_def by blast
qed

lemma pong_frame_subset: "set u \<subseteq> set tr \<Longrightarrow> pong_frame S u x \<Longrightarrow> pong_frame S tr x"
  unfolding pong_frame_def by blast

lemma status_frames_served:
  assumes "linked C tr st J R ks cur" and "set u \<subseteq> set tr" and "Asked (GetStatus s) rx \<in> set tr"
    and "status_frames_ok S rx u fs"
  shows "served_status S J cur st tr fs"
  using assms(4) unfolding served_status_def status_frames_both
  by (rule at_most_both_mono) (auto intro: text_served [OF assms(1-3)] pong_frame_subset [OF assms(2)])

section \<open>The two tasks, linked\<close>

lemma connection_trace_ok:
  assumes "cx_trace c = []"
  shows "connection_ok E H S K (trace_of (connection_run E H S K self c))"
proof -
  have "safe (connection_run E H S K self) [] (\<lambda>_. connection_ok E H S K)
      (\<lambda>_. connection_ok E H S K) (connection_ok E H S K)"
    by (rule safe_mono [OF connection_run_safe]) auto
  from safe_trace [OF this assms] show ?thesis .
qed

lemma runs_linked:
  assumes "cx_trace cs = []" and "channels_ok C tr (trace_of (server_run n L sv cs))"
  shows "linked C tr (trace_of (server_run n L sv cs)) (sl_status L) (sl_rsa L) (sv_key_store sv)
    (get_status_string (sv_listing sv))"
  using server_run_trace [OF assms(1), of L sv n] assms(2) by (simp add: linked_def server_inv_def)

lemma asked_for_login:
  assumes "connection_ok E H S K tr" and "asked_for H Login_state tr"
  shows "sents tr = [] \<or> (\<exists>u. set u \<subseteq> set tr \<and> login_frames_ok E K u (sents tr))"
  using assms unfolding connection_ok_def asked_for_def login_part_def by fastforce

lemma asked_for_status:
  assumes "connection_ok E H S K tr" and "asked_for H Status_state tr"
  shows "sents tr = [] \<or> (\<exists>u s rx. set u \<subseteq> set tr \<and> Asked (GetStatus s) rx \<in> set tr \<and>
    status_frames_ok S rx u (sents tr))"
  using assms unfolding connection_ok_def asked_for_def status_part_def by fastforce

lemma login_served:
  assumes "cx_trace c = []" and "cx_trace cs = []"
    and "channels_ok C (trace_of (connection_run E H S K self c)) (trace_of (server_run n L sv cs))"
    and "asked_for H Login_state (trace_of (connection_run E H S K self c))"
  shows "served_login E K (sl_rsa L) (sv_key_store sv) (trace_of (connection_run E H S K self c))
    (sents (trace_of (connection_run E H S K self c)))"
  using asked_for_login [OF connection_trace_ok [OF assms(1)] assms(4)]
    login_frames_served [OF runs_linked [OF assms(2,3)]] by fastforce

lemma status_served:
  assumes "cx_trace c = []" and "cx_trace cs = []"
    and "channels_ok C (trace_of (connection_run E H S K self c)) (trace_of (server_run n L sv cs))"
    and "asked_for H Status_state (trace_of (connection_run E H S K self c))"
  shows "served_status S (sl_status L) (get_status_string (sv_listing sv)) (trace_of (server_run n L sv cs))
    (trace_of (connection_run E H S K self c)) (sents (trace_of (connection_run E H S K self c)))"
  using asked_for_status [OF connection_trace_ok [OF assms(1)] assms(4)]
    status_frames_served [OF runs_linked [OF assms(2,3)]] by (fastforce simp: served_status_def)

end
