(* ===== verification/System.thy ===== *)
theory System
  imports End_To_End
begin

text \<open>
  The running proxy as the channels see it: the events of any number of connections, of the server and
  of those who post to its mailbox (\<open>main\<close> with its callback), interleaved in any order the channels
  allow. The step relation is what \<open>tokio\<close> documents of a bounded \<open>mpsc\<close> channel and of \<open>oneshot\<close>
  channels; that the traffic is as \<open>channels_ok\<close> says is an invariant of it.
\<close>

section \<open>Events and the state of the channels\<close>

datatype 's sys_event =
    Conn nat "'s event"
  | Posted ServerMessage
  | Srv server_event

text \<open>
  Beside what the mailbox accepted and who is whose peer: the messages accepted and not yet received, and
  what was sent on the reply channels, or \<open>None\<close> for one that was dropped.
\<close>

record chan_state = channels +
  ch_queue :: "ServerMessage list"
  ch_replies :: "(reply_to \<times> answer option) list"

definition chan_start :: chan_state where
  "chan_start = \<lparr>ch_accepted = [], ch_peer = (\<lambda>_. None), ch_queue = [], ch_replies = []\<rparr>"

text \<open>
  The mailbox has room for \<open>mailbox_capacity\<close> messages, as the server makes it. A sending end is made with its channel and moved into one
  message, so a message that arrives carries a new one.
\<close>

definition admits :: "chan_state \<Rightarrow> ServerMessage \<Rightarrow> bool" where
  "admits c m \<longleftrightarrow> length (ch_queue c) < mailbox_capacity \<and>
     (case reply_channel m of None \<Rightarrow> True | Some r \<Rightarrow> r \<notin> set (List.map_filter reply_channel (ch_accepted c)))"

definition accept :: "ServerMessage \<Rightarrow> chan_state \<Rightarrow> chan_state" where
  "accept m c = c\<lparr>ch_accepted := ch_accepted c @ [m], ch_queue := ch_queue c @ [m]\<rparr>"

definition replied :: "chan_state \<Rightarrow> (answer \<Rightarrow> 'v option) \<Rightarrow> receiver \<Rightarrow> 'v \<Rightarrow> bool" where
  "replied c proj rx v \<longleftrightarrow> (case ch_peer c rx of None \<Rightarrow> False
     | Some r \<Rightarrow> list_ex (\<lambda>(r', a). r' = r \<and> Option.bind a proj = Some v) (ch_replies c))"

fun conn_step :: "chan_state \<Rightarrow> 's event \<Rightarrow> chan_state option" where
  "conn_step c (Asked m rx) =
     (if admits c m \<and> reply_channel m \<noteq> None \<and> ch_peer c rx = None
      then Some ((accept m c)\<lparr>ch_peer := (ch_peer c)(rx := reply_channel m)\<rparr>) else None)"
| "conn_step c (Reply_bytes rx (Some b)) = (if replied c bytes_of rx b then Some c else None)"
| "conn_step c (Reply_string rx (Some t)) = (if replied c text_of rx t then Some c else None)"
| "conn_step c e = Some c"

fun srv_step :: "chan_state \<Rightarrow> server_event \<Rightarrow> chan_state option" where
  "srv_step c (Got m) =
     (case ch_queue c of [] \<Rightarrow> None | m' # q \<Rightarrow> if m' = m then Some (c\<lparr>ch_queue := q\<rparr>) else None)"
| "srv_step c (Answered r a) = Some (c\<lparr>ch_replies := ch_replies c @ [(r, Some a)]\<rparr>)"
| "srv_step c (Dropped r) = Some (c\<lparr>ch_replies := ch_replies c @ [(r, None)]\<rparr>)"
| "srv_step c e = Some c"

fun chan_step :: "chan_state \<Rightarrow> 's sys_event \<Rightarrow> chan_state option" where
  "chan_step c (Conn i e) = conn_step c e"
| "chan_step c (Posted m) = (if admits c m then Some (accept m c) else None)"
| "chan_step c (Srv e) = srv_step c e"

text \<open>The states that the channels reach, with the events that led there.\<close>

inductive system_run :: "'s sys_event list \<Rightarrow> chan_state \<Rightarrow> bool" where
  system_start: "system_run [] chan_start"
| system_step: "system_run evs c \<Longrightarrow> chan_step c e = Some c1 \<Longrightarrow> system_run (evs @ [e]) c1"

fun chan_steps :: "chan_state \<Rightarrow> 's sys_event list \<Rightarrow> chan_state option" where
  "chan_steps c [] = Some c"
| "chan_steps c (e # es) = (case chan_step c e of None \<Rightarrow> None | Some c1 \<Rightarrow> chan_steps c1 es)"

lemma system_steps: "system_run evs c \<Longrightarrow> chan_steps c es = Some c1 \<Longrightarrow> system_run (evs @ es) c1"
proof (induction es arbitrary: evs c)
  case (Cons e es)
  then obtain c2 where e: "chan_step c e = Some c2" and "chan_steps c2 es = Some c1"
    by (auto split: option.splits)
  with Cons.IH [OF system_step [OF Cons.prems(1) e]] show ?case by simp
qed simp

section \<open>The parts of a run\<close>

fun conn_event :: "nat \<Rightarrow> 's sys_event \<Rightarrow> 's event option" where
  "conn_event i (Conn j e) = (if j = i then Some e else None)"
| "conn_event i e = None"

fun srv_event :: "'s sys_event \<Rightarrow> server_event option" where
  "srv_event (Srv e) = Some e"
| "srv_event e = None"

definition conn_part :: "nat \<Rightarrow> 's sys_event list \<Rightarrow> 's event list" where
  "conn_part i evs = List.map_filter (conn_event i) evs"

definition srv_part :: "'s sys_event list \<Rightarrow> server_event list" where
  "srv_part evs = List.map_filter srv_event evs"

lemma map_filter_append [simp]: "List.map_filter f (xs @ ys) = List.map_filter f xs @ List.map_filter f ys"
  by (simp add: List.map_filter_def)

lemma set_map_filter: "y \<in> set (List.map_filter f xs) \<longleftrightarrow> (\<exists>x \<in> set xs. f x = Some y)"
  by (force simp: List.map_filter_def)

lemma conn_event_Some [simp]: "conn_event i x = Some e \<longleftrightarrow> x = Conn i e"
  by (cases x) auto

lemma in_conn_part: "e \<in> set (conn_part i evs) \<longleftrightarrow> Conn i e \<in> set evs"
  by (auto simp: conn_part_def set_map_filter)

section \<open>The invariant\<close>

text \<open>Of the state: the mailbox is a queue, no sending end was used twice, replies are the server's.\<close>

definition used_once :: "ServerMessage list \<Rightarrow> bool" where
  "used_once ms \<longleftrightarrow> distinct (List.map_filter reply_channel ms)"

definition queue_inv :: "'s sys_event list \<Rightarrow> chan_state \<Rightarrow> bool" where
  "queue_inv evs c \<longleftrightarrow> ch_accepted c = messages (srv_part evs) @ ch_queue c \<and>
     used_once (ch_accepted c) \<and> ch_replies c = answered (srv_part evs)"

text \<open>Of an event of a connection: it is still true of the state.\<close>

fun conn_fact :: "chan_state \<Rightarrow> 's event \<Rightarrow> bool" where
  "conn_fact c (Asked m rx) = (m \<in> set (ch_accepted c) \<and> ch_peer c rx \<noteq> None \<and> reply_channel m = ch_peer c rx)"
| "conn_fact c (Reply_bytes rx (Some b)) = replied c bytes_of rx b"
| "conn_fact c (Reply_string rx (Some t)) = replied c text_of rx t"
| "conn_fact c e = True"

definition grows :: "chan_state \<Rightarrow> chan_state \<Rightarrow> bool" where
  "grows c c1 \<longleftrightarrow> set (ch_accepted c) \<subseteq> set (ch_accepted c1) \<and> set (ch_replies c) \<subseteq> set (ch_replies c1) \<and>
     (\<forall>rx r. ch_peer c rx = Some r \<longrightarrow> ch_peer c1 rx = Some r)"

lemma replied_iff:
  "replied c proj rx v \<longleftrightarrow>
     (\<exists>r a. ch_peer c rx = Some r \<and> (r, Some a) \<in> set (ch_replies c) \<and> proj a = Some v)"
  by (force simp: replied_def list_ex_iff bind_eq_Some_conv split: option.split)

lemma conn_fact_grows: "grows c c1 \<Longrightarrow> conn_fact c e \<Longrightarrow> conn_fact c1 e"
  by (cases "(c, e)" rule: conn_fact.cases) (auto simp: grows_def replied_iff, blast+)

lemma accept_simps [simp]:
  "ch_accepted (accept m c) = ch_accepted c @ [m]" "ch_queue (accept m c) = ch_queue c @ [m]"
  "ch_peer (accept m c) = ch_peer c" "ch_replies (accept m c) = ch_replies c"
  by (simp_all add: accept_def)

lemma chan_step_grows:
  assumes "chan_step c e = Some c1"
  shows "grows c c1"
proof (cases e)
  case (Conn i ev)
  with assms show ?thesis
    by (cases "(c, ev)" rule: conn_step.cases) (auto simp: grows_def split: if_splits)
next
  case (Srv ev)
  with assms show ?thesis
    by (cases "(c, ev)" rule: srv_step.cases) (auto simp: grows_def split: if_splits list.splits)
qed (use assms in \<open>auto simp: grows_def split: if_splits\<close>)

lemma conn_step_fact: "conn_step c e = Some c1 \<Longrightarrow> conn_fact c1 e"
  by (cases "(c, e)" rule: conn_step.cases) (auto split: if_splits)

lemma admits_used_once: "admits c m \<Longrightarrow> used_once (ch_accepted c) \<Longrightarrow> used_once (ch_accepted c @ [m])"
  by (auto simp: admits_def used_once_def split: option.splits)

lemma srv_part_snoc [simp]:
  "srv_part (evs @ [Conn i e]) = srv_part evs" "srv_part (evs @ [Posted m]) = srv_part evs"
  "srv_part (evs @ [Srv ev]) = srv_part evs @ [ev]"
  by (simp_all add: srv_part_def)

lemma queue_inv_accept:
  assumes "queue_inv evs c" and "admits c m" and "srv_part evs1 = srv_part evs"
    and "ch_accepted c1 = ch_accepted c @ [m]" and "ch_queue c1 = ch_queue c @ [m]" and "ch_replies c1 = ch_replies c"
  shows "queue_inv evs1 c1"
  using assms admits_used_once [OF assms(2)] by (auto simp: queue_inv_def)

lemma queue_inv_step:
  assumes "queue_inv evs c" and "chan_step c e = Some c1"
  shows "queue_inv (evs @ [e]) c1"
proof (cases e)
  case (Conn i ev)
  with assms show ?thesis
    by (cases "(c, ev)" rule: conn_step.cases) (auto intro: queue_inv_accept split: if_splits, auto simp: queue_inv_def)
next
  case (Srv ev)
  with assms show ?thesis
    by (cases "(c, ev)" rule: srv_step.cases) (auto simp: queue_inv_def split: if_splits list.splits)
qed (use assms in \<open>auto intro: queue_inv_accept split: if_splits\<close>)

lemma system_inv:
  "system_run evs c \<Longrightarrow> queue_inv evs c \<and> (\<forall>i e. Conn i e \<in> set evs \<longrightarrow> conn_fact c e)"
proof (induction rule: system_run.induct)
  case system_start
  then show ?case by (simp add: queue_inv_def chan_start_def srv_part_def used_once_def)
next
  case (system_step evs c e c1)
  have "conn_fact c1 x" if "Conn i x \<in> set (evs @ [e])" for i x
    using that system_step conn_fact_grows [OF chan_step_grows] conn_step_fact by fastforce
  with system_step queue_inv_step show ?case by blast
qed

text \<open>So the traffic of every connection with the server is as documented.\<close>

lemma system_channels:
  assumes "system_run evs c"
  shows "channels_ok c (conn_part i evs) (srv_part evs)"
proof -
  from system_inv [OF assms] have q: "queue_inv evs c"
    and facts: "\<And>e. e \<in> set (conn_part i evs) \<Longrightarrow> conn_fact c e"
    by (auto simp: in_conn_part)
  from q show ?thesis
    unfolding channels_ok_def queue_inv_def used_once_def using facts by (auto dest: facts simp: replied_iff)
qed

section \<open>The order of the mailbox\<close>

fun accepted_of :: "'s sys_event \<Rightarrow> ServerMessage option" where
  "accepted_of (Conn i (Asked m rx)) = Some m"
| "accepted_of (Posted m) = Some m"
| "accepted_of e = None"

lemma system_accepted: "system_run evs c \<Longrightarrow> ch_accepted c = List.map_filter accepted_of evs"
proof (induction rule: system_run.induct)
  case system_start
  then show ?case by (simp add: chan_start_def)
next
  case (system_step evs c e c1)
  show ?case
  proof (cases e)
    case (Conn i ev)
    with system_step show ?thesis
      by (cases "(c, ev)" rule: conn_step.cases) (auto split: if_splits)
  next
    case (Srv ev)
    with system_step show ?thesis
      by (cases "(c, ev)" rule: srv_step.cases) (auto split: if_splits list.splits)
  qed (use system_step in \<open>auto split: if_splits\<close>)
qed

lemma used_once_position:
  assumes "used_once xs" and "xs = a @ m # b" and "xs = a' @ m # b'" and "reply_channel m \<noteq> None"
  shows "a = a'"
proof -
  have twice: False if "used_once (u @ m # v @ m # w)" for u v w
    using that assms(4) by (auto simp: used_once_def)
  from assms(2,3) consider (same) "a = a'" | (left) v where "a = a' @ m # v" | (right) v where "a' = a @ m # v"
    by (auto simp: append_eq_append_conv2 append_eq_Cons_conv Cons_eq_append_conv)
  then show ?thesis
    using twice [of a' _ b] twice [of a _ b'] assms(1-3) by cases auto
qed

text \<open>
  After an update was posted, a question of a connection that had done nothing before, with no other
  update in between, finds the text of that update.
\<close>

lemma question_after_update:
  assumes run: "system_run (e1 @ Posted (UpdateConfig cfg) # e2) c"
    and new: "\<And>e. Conn i e \<notin> set e1"
    and last: "\<And>cfg1. Posted (UpdateConfig cfg1) \<notin> set e2"
    and ask: "Asked (GetStatus s) rx \<in> set (conn_part i (e1 @ Posted (UpdateConfig cfg) # e2))"
    and ms: "messages (srv_part (e1 @ Posted (UpdateConfig cfg) # e2)) = ms1 @ GetStatus s # ms2"
  shows "texts J cur ms1 = config_text J (texts J cur (List.map_filter accepted_of e1)) cfg"
proof -
  let ?evs = "e1 @ Posted (UpdateConfig cfg) # e2"
  from system_inv [OF run] have q: "queue_inv ?evs c" and facts: "\<And>j e. Conn j e \<in> set ?evs \<Longrightarrow> conn_fact c e"
    by blast+
  have acc: "ch_accepted c = List.map_filter accepted_of e1 @ UpdateConfig cfg # List.map_filter accepted_of e2"
    using system_accepted [OF run] by simp
  have none: "UpdateConfig c1 \<notin> set (List.map_filter accepted_of e2)" for c1
  proof
    assume "UpdateConfig c1 \<in> set (List.map_filter accepted_of e2)"
    then obtain e where "e \<in> set e2" and "accepted_of e = Some (UpdateConfig c1)" by (auto simp: set_map_filter)
    then obtain j x where "Conn j (Asked (UpdateConfig c1) x) \<in> set e2"
      using last by (cases e rule: accepted_of.cases) auto
    then show False using facts [of j "Asked (UpdateConfig c1) x"] by auto
  qed
  from ask new have "Conn i (Asked (GetStatus s) rx) \<in> set e2" by (auto simp: in_conn_part)
  then have "GetStatus s \<in> set (List.map_filter accepted_of e2)" by (force simp: set_map_filter)
  then obtain b1 b2 where b: "List.map_filter accepted_of e2 = b1 @ GetStatus s # b2" by (auto simp: in_set_conv_decomp)
  have "ms1 = List.map_filter accepted_of e1 @ UpdateConfig cfg # b1"
  proof (rule used_once_position)
    show "used_once (ch_accepted c)" using q by (auto simp: queue_inv_def)
    show "ch_accepted c = ms1 @ GetStatus s # ms2 @ ch_queue c" using q ms by (simp add: queue_inv_def)
    show "ch_accepted c = (List.map_filter accepted_of e1 @ UpdateConfig cfg # b1) @ GetStatus s # b2" by (simp add: acc b)
  qed simp
  moreover have "texts J t b1 = t" for t using none b by (intro texts_no_update) auto
  ultimately show ?thesis by (simp add: texts_append)
qed

end
