(* ===== verification/System_Theorems.thy ===== *)
theory System_Theorems
  imports System
begin

text \<open>
  The properties of connections and server under every interleaving that the channels allow, with
  their witnesses.
\<close>

section \<open>Scripted connections and their server\<close>

text \<open>
  A client that logs in or asks for the status, and a server that gets the questions of that client
  and those of another one. The key pair decrypts \<open>[9]\<close> to the token and \<open>[8]\<close> to the secret.
\<close>

definition pair_rsa :: "(unit, unit, unit) rsa_lib" where
  "pair_rsa = toy_rsa\<lparr>rsa_decrypt := (\<lambda>_ d. if d = [9] then Ok [1, 2, 3, 4] else if d = [8] then Ok key7 else Err ())\<rparr>"

definition pair_server :: "(unit, unit, unit, unit, unit, unit, unit, unit, toy_world) server_lib" where
  "pair_server = toy_server\<lparr>sl_rsa := pair_rsa\<rparr>"

definition pair_actor :: "(unit, unit, unit, unit, unit, unit) ServerActor" where
  "pair_actor = toy_actor\<lparr>sv_key_store := \<lparr>private_key = (), public_key_der = [30, 31]\<rparr>\<rparr>"

definition login_questions :: "ServerMessage list" where
  "login_questions = [CertificatePublicDer 0, GetStatus 7, Decrypt [9] 1, Decrypt [8] 2]"

definition status_questions :: "ServerMessage list" where
  "status_questions = [UpdateConfig (BasicConfiguration_default\<lparr>motd := ''new''\<rparr>), GetStatus 0, GetStatus 7]"

definition login_client :: script_world where
  "login_client = (script_login_world key7)\<lparr>sw_frames := [packet_in 0 [2], packet_in 0 [], packet_in 1 [8], packet_in 3 []]\<rparr>"

definition status_client :: script_world where
  "status_client = script_status_world\<lparr>sw_frames := [packet_in 0 [1], packet_in 0 [], packet_in 1 [1, 2]],
     sw_strings := [Some ''new'']\<rparr>"

definition client_trace :: "script_world \<Rightarrow> (unit, bytes \<times> bytes, bytes \<times> bytes) MCSocket event list" where
  "client_trace w = trace_of (connection_run script_env script_handshake script_status script_login
     script_handshake_actor (start_in w))"

definition pair_trace :: "ServerMessage list \<Rightarrow> server_event list" where
  "pair_trace ms = trace_of (server_run 9 pair_server pair_actor (toy_start ms))"

lemma client_trace_login:
  "client_trace login_client =
     [Received (Some \<lparr>rp_id = 0, rp_payload = [2]\<rparr>), Spawned 1 Login_task,
      Received (Some \<lparr>rp_id = 0, rp_payload = []\<rparr>), Asked (CertificatePublicDer 0) 0, Drew [1, 2, 3, 4],
      Reply_bytes 0 (Some [30, 31]), Sent (Cleartext ()) [1, 2, 3, 4, 30, 31],
      Received (Some \<lparr>rp_id = 1, rp_payload = [8]\<rparr>), Asked (Decrypt [9] 1) 1, Asked (Decrypt [8] 2) 2,
      Reply_bytes 1 (Some [1, 2, 3, 4]), Reply_bytes 2 (Some key7),
      Sent (Encrypted () (key7, key7) (key7, key7) None) [2],
      Received (Some \<lparr>rp_id = 3, rp_payload = []\<rparr>), Spawned 1 Configuration_task,
      Stream_shut (Encrypted () (key7, key7) (key7, key7) None)]"
  by (simp add: client_trace_def login_client_def connection_run_def next_run_def configuration_run_def
      configuration_stream_def handshake_eval login_eval key7_def Let_def)

lemma client_trace_status:
  "client_trace status_client =
     [Received (Some \<lparr>rp_id = 0, rp_payload = [1]\<rparr>), Asked (GetStatus 0) 0, Spawned 1 Status_task,
      Received (Some \<lparr>rp_id = 0, rp_payload = []\<rparr>), Reply_string 0 (Some ''new''),
      Sent (Cleartext ()) (map of_char ''new''), Received (Some \<lparr>rp_id = 1, rp_payload = [1, 2]\<rparr>),
      Sent (Cleartext ()) [2], Stream_shut (Cleartext ())]"
  by (simp add: client_trace_def status_client_def connection_run_def next_run_def status_eval handshake_eval Let_def)

lemma server_run_numeral:
  "server_run (numeral k) L self =
     bind_task (perform (sl_recv L (sv_message_receiver self))) (\<lambda>r. case r of
         Some msg \<Rightarrow>
           bind_task (emit (Got msg)) (\<lambda>_.
           bind_task (handle_message L self msg) (\<lambda>self1. server_run (pred_numeral k) L self1))
       | None \<Rightarrow> ret (self, True))"
  by (simp only: numeral_eq_Suc server_run.simps)

lemmas pair_eval = pair_trace_def pair_server_def pair_actor_def pair_rsa_def server_eval
  server_run_numeral key7_def

lemma pair_trace_login:
  "pair_trace login_questions =
     [Got (CertificatePublicDer 0), Answered 0 (Der [30, 31]), Got (GetStatus 7), Answered 7 (Status_text ''old''),
      Got (Decrypt [9] 1), Answered 1 (Plaintext [1, 2, 3, 4]), Got (Decrypt [8] 2), Answered 2 (Plaintext key7)]"
  by (simp add: pair_eval login_questions_def get_status_string_def cong: task_congs)

lemma pair_trace_status:
  "pair_trace status_questions =
     [Got (UpdateConfig (BasicConfiguration_default\<lparr>motd := ''new''\<rparr>)), Got (GetStatus 0),
      Answered 0 (Status_text ''new''), Got (GetStatus 7), Answered 7 (Status_text ''new'')]"
  by (simp add: pair_eval status_questions_def cong: task_congs)

text \<open>The events of connection 0, of another connection that asks for the status, and of the server.\<close>

definition login_events :: "(unit, bytes \<times> bytes, bytes \<times> bytes) MCSocket sys_event list" where
  "login_events =
     (let t = client_trace login_client; s = pair_trace login_questions in
      map (Conn 0) (take 4 t) @ [Conn 1 (Asked (GetStatus 7) 7)] @ map Srv (take 3 s) @
      map (Conn 0) (take 6 (drop 4 t)) @ map Srv (drop 3 s) @ map (Conn 0) (drop 10 t))"

definition status_events :: "(unit, bytes \<times> bytes, bytes \<times> bytes) MCSocket sys_event list" where
  "status_events =
     (let t = client_trace status_client; s = pair_trace status_questions in
      [Posted (UpdateConfig (BasicConfiguration_default\<lparr>motd := ''new''\<rparr>))] @ map (Conn 0) (take 2 t) @
      map Srv (take 2 s) @ [Conn 1 (Asked (GetStatus 7) 7)] @ map Srv (drop 2 s) @ map (Conn 0) (drop 2 t))"

lemma login_events_parts:
  "conn_part 0 login_events = client_trace login_client" "srv_part login_events = pair_trace login_questions"
  by (simp_all add: login_events_def client_trace_login pair_trace_login conn_part_def srv_part_def)

lemma status_events_parts:
  "conn_part 0 status_events = client_trace status_client" "srv_part status_events = pair_trace status_questions"
  by (simp_all add: status_events_def client_trace_status pair_trace_status conn_part_def srv_part_def)

lemma system_run_login: "\<exists>c. system_run login_events c"
proof -
  have "\<exists>c. chan_steps chan_start login_events = Some c"
    by (simp add: login_events_def client_trace_login pair_trace_login chan_start_def admits_def mailbox_capacity_def accept_def replied_def)
  then show ?thesis using system_steps [OF system_start] by fastforce
qed

lemma system_run_status: "\<exists>c. system_run status_events c"
proof -
  have "\<exists>c. chan_steps chan_start status_events = Some c"
    by (simp add: status_events_def client_trace_status pair_trace_status chan_start_def admits_def mailbox_capacity_def accept_def replied_def)
  then show ?thesis using system_steps [OF system_start] by fastforce
qed

lemma asked_for_client:
  "asked_for script_handshake Login_state (client_trace login_client)"
  "asked_for script_handshake Status_state (client_trace status_client)"
  by (auto simp: asked_for_def client_trace_login client_trace_status script_handshake_def parsed_def)

lemma pair_fields:
  "sl_status pair_server = toy_status" "sl_rsa pair_server = pair_rsa"
  "sv_key_store pair_actor = \<lparr>private_key = (), public_key_der = [30, 31]\<rparr>"
  "get_status_string (sv_listing pair_actor) = ''old''"
  by (simp_all add: pair_server_def pair_actor_def toy_server_def toy_actor_def get_status_string_def)

text \<open>A status frame with a given text.\<close>

definition shown_text :: "'x status_packets \<Rightarrow> string \<Rightarrow> ('t, 'd, 'e) MCSocket \<times> bytes \<Rightarrow> bool" where
  "shown_text S text x \<longleftrightarrow> (\<exists>io. fst x = Cleartext io \<and>
     serialize_bytes (cp_write (kp_status_response S)) (CStatusResponse text) = Ok (snd x))"

section \<open>Properties\<close>

text \<open>
  C1: The login is authenticated end to end. Take any interleaving of connections and the server over
  its mailbox and the reply channels, in which one connection and the server do what their code does,
  each in any environment of its own. If the client of that connection asked to log in, the frames
  sent to it are at most two: a request with the public key of the server's key pair and the token drawn,
  and the success for the player who asked. The success is sent only if the private key decrypts
  the client's response to that very token, and it is encrypted under the first 16 bytes of the
  secret that the private key decrypts from the same response. Replies to other questions, or to
  other connections, are never taken for these.
\<close>

theorem login_authenticated_end_to_end:
  assumes "cx_trace c = []" and "cx_trace cs = []" and "system_run evs ch"
    and "conn_part i evs = trace_of (connection_run E H S K self c)"
    and "srv_part evs = trace_of (server_run n L sv cs)"
    and "asked_for H Login_state (conn_part i evs)"
  shows "served_login E K (sl_rsa L) (sv_key_store sv) (conn_part i evs) (sents (conn_part i evs))"
  using login_served [OF assms(1,2)] system_channels [OF assms(3), of i] assms(4-6) by metis

theorem login_authenticated_end_to_end_witness:
  "served_login script_env script_login pair_rsa \<lparr>private_key = (), public_key_der = [30, 31]\<rparr>
     (client_trace login_client) (sents (client_trace login_client)) \<and>
   sents (client_trace login_client) =
     [(Cleartext (), [1, 2, 3, 4, 30, 31]), (Encrypted () (key7, key7) (key7, key7) None, [2])]"
proof -
  obtain ch where run: "system_run login_events ch" using system_run_login by blast
  from login_authenticated_end_to_end [OF cx_trace_start toy_start_trace run
      login_events_parts(1) [unfolded client_trace_def] login_events_parts(2) [unfolded pair_trace_def]]
  show ?thesis
    by (simp add: login_events_parts asked_for_client pair_fields) (simp add: client_trace_login)
qed

text \<open>
  C8: The status is the server's, end to end. Under every interleaving, if the client of a connection
  asked for the status, the frames sent to it are at most a status and a pong, and the text of the
  status is that of the configuration in force when the server received the question of this very
  connection: the last update received before it that could be written as JSON, or else the text
  the server started with.
\<close>

theorem status_served_end_to_end:
  assumes "cx_trace c = []" and "cx_trace cs = []" and "system_run evs ch"
    and "conn_part i evs = trace_of (connection_run E H S K self c)"
    and "srv_part evs = trace_of (server_run n L sv cs)"
    and "asked_for H Status_state (conn_part i evs)"
  shows "served_status S (sl_status L) (get_status_string (sv_listing sv)) (srv_part evs) (conn_part i evs)
    (sents (conn_part i evs))"
  using status_served [OF assms(1,2)] system_channels [OF assms(3), of i] assms(4-6) by metis

theorem status_served_end_to_end_witness:
  "served_status script_status toy_status ''old'' (pair_trace status_questions) (client_trace status_client)
     (sents (client_trace status_client)) \<and>
   sents (client_trace status_client) = [(Cleartext (), map of_char ''new''), (Cleartext (), [2])]"
proof -
  obtain ch where run: "system_run status_events ch" using system_run_status by blast
  from status_served_end_to_end [OF cx_trace_start toy_start_trace run
      status_events_parts(1) [unfolded client_trace_def] status_events_parts(2) [unfolded pair_trace_def]]
  show ?thesis
    by (simp add: status_events_parts asked_for_client pair_fields) (simp add: client_trace_status)
qed

end
