(* ===== verification/Main_Proxy.thy ===== *)
theory Main_Proxy
  imports Server_Theorems
begin

text \<open>
  The proxy's entry point, \<open>proxy/src/main.rs\<close>, and the conversions of
  \<open>proxy/src/module_bindings/mod.rs\<close>: connecting to the database, waiting for the configuration,
  starting the server and its listener, and the callback that forwards configuration updates.
\<close>

section \<open>Bindings\<close>

definition get_world_path :: "BasicConfiguration \<Rightarrow> string" where
  "get_world_path config = ''./'' @ default_level_name config"

text \<open>The game mode of the crate \<open>pumpkin_util\<close>, and the conversion to it.\<close>

datatype PumpkinGameMode = Pumpkin_Survival | Pumpkin_Creative | Pumpkin_Adventure | Pumpkin_Spectator

fun PumpkinGameMode_from :: "GameMode \<Rightarrow> PumpkinGameMode" where
  "PumpkinGameMode_from Survival = Pumpkin_Survival"
| "PumpkinGameMode_from Creative = Pumpkin_Creative"
| "PumpkinGameMode_from Adventure = Pumpkin_Adventure"
| "PumpkinGameMode_from Spectator = Pumpkin_Spectator"

section \<open>The callbacks of the connection\<close>

text \<open>
  The callbacks on the connection and on the subscription, each as the lines it logs; identities and
  errors are given as the texts that print them. None of them ends the program.
\<close>

datatype log_line = Log_info string | Log_error string

definition on_sub_applied :: "log_line list" where
  "on_sub_applied = [Log_info ''Received subs'']"

definition on_sub_error :: "string \<Rightarrow> log_line list" where
  "on_sub_error err = [Log_error (''Subscription failed: '' @ err)]"

definition on_connected :: "string \<Rightarrow> string \<Rightarrow> log_line list" where
  "on_connected identity token = [Log_info (''Connected to database as '' @ identity)]"

definition on_connect_error :: "string \<Rightarrow> log_line list" where
  "on_connect_error err = [Log_error (''Connection error: '' @ err)]"

definition on_disconnected :: "string option \<Rightarrow> log_line list" where
  "on_disconnected err =
     (case err of
        Some e \<Rightarrow> [Log_error (''STDB disconnected with error: '' @ e)]
      | None \<Rightarrow> [Log_info ''STDB disconnected without error.''])"

text \<open>What the builders of a connection and of a subscription have been given.\<close>

record connection_builder =
  cb_on_connect :: "string \<Rightarrow> string \<Rightarrow> log_line list"
  cb_on_connect_error :: "string \<Rightarrow> log_line list"
  cb_on_disconnect :: "string option \<Rightarrow> log_line list"
  cb_module_name :: string
  cb_uri :: string

record subscription_builder =
  sb_on_applied :: "log_line list"
  sb_on_error :: "string \<Rightarrow> log_line list"

section \<open>Libraries\<close>

text \<open>
  \<open>mn_build\<close> connects with what the builder was given; \<open>mn_run_threaded\<close> starts the thread of the database;
  \<open>mn_subscribe\<close> subscribes to queries; \<open>mn_rows\<close> lists the cached rows of the configuration table;
  \<open>mn_on_update\<close> installs the callback on its updates; \<open>mn_death\<close> awaits the listener's death; \<open>mn_join\<close>
  joins the database thread.
\<close>

record ('x, 'w) main_lib =
  mn_build :: "connection_builder \<Rightarrow> 'w \<Rightarrow> (unit, 'x) result \<times> 'w"
  mn_run_threaded :: "'w \<Rightarrow> unit \<times> 'w"
  mn_subscribe :: "subscription_builder \<Rightarrow> string list \<Rightarrow> 'w \<Rightarrow> unit \<times> 'w"
  mn_sleep :: "nat \<Rightarrow> 'w \<Rightarrow> (unit, 'w) outcome"
  mn_rows :: "'w \<Rightarrow> BasicConfiguration list"
  mn_on_update :: "(BasicConfiguration \<Rightarrow> BasicConfiguration \<Rightarrow> 'w \<Rightarrow> 'w) \<Rightarrow> 'w \<Rightarrow> unit \<times> 'w"
  mn_death :: "receiver \<Rightarrow> 'w \<Rightarrow> (unit option, 'w) outcome"
  mn_disconnect :: "'w \<Rightarrow> (unit, 'x) result \<times> 'w"
  mn_join :: "'w \<Rightarrow> ((unit, 'x) result, 'w) outcome"

datatype main_event =
    Connected
  | Subscribed "string list"
  | Configured BasicConfiguration
  | Started string
  | Callback_installed
  | Listener_died
  | Disconnected
  | Joined

section \<open>The program\<close>

definition HOST :: string where
  "HOST = ''http://localhost:3000''"

definition DB_NAME :: string where
  "DB_NAME = ''spacetimemc''"

definition connect_to_db :: "('x, 'w) main_lib \<Rightarrow> (unit, main_event, 'w) task" where
  "connect_to_db MN =
     bind_task (perform_now (mn_build MN \<lparr>cb_on_connect = on_connected, cb_on_connect_error = on_connect_error,
       cb_on_disconnect = on_disconnected, cb_module_name = DB_NAME, cb_uri = HOST\<rparr>)) (\<lambda>r.
     bind_task (lift_run ''Failed to connect'' (unwrap_result r)) (\<lambda>_. emit Connected))"

definition subscribe_to_tables :: "('x, 'w) main_lib \<Rightarrow> (unit, main_event, 'w) task" where
  "subscribe_to_tables MN =
     bind_task (perform_now (mn_subscribe MN \<lparr>sb_on_applied = on_sub_applied, sb_on_error = on_sub_error\<rparr>
       [''SELECT * FROM server_basic_config''])) (\<lambda>_.
       emit (Subscribed [''SELECT * FROM server_basic_config'']))"

text \<open>
  The loop that polls for the configuration every 20 milliseconds, with a bound on its rounds; none
  when the bound is used up.
\<close>

fun wait_for_config :: "nat \<Rightarrow> ('x, 'w) main_lib \<Rightarrow> (BasicConfiguration option, 'c, 'w) task" where
  "wait_for_config 0 MN = ret None"
| "wait_for_config (Suc n) MN =
     bind_task (perform (mn_sleep MN 20)) (\<lambda>_.
     bind_task (perform_now (\<lambda>w. (case mn_rows MN w of [] \<Rightarrow> None | row # _ \<Rightarrow> Some row, w))) (\<lambda>config.
     case config of Some c \<Rightarrow> ret (Some c) | None \<Rightarrow> wait_for_config n MN))"

text \<open>The callback on an updated row; an error of \<open>try_send\<close> is only logged.\<close>

definition on_update :: "('tx, 'rx, ServerMessage, 'w) mpsc_lib \<Rightarrow> 'tx Server \<Rightarrow>
    BasicConfiguration \<Rightarrow> BasicConfiguration \<Rightarrow> 'w \<Rightarrow> 'w" where
  "on_update M server_actor old_row new_row w =
     (if cfg_id new_row = 0
      then (let (r, w1) = server_try_send M server_actor (UpdateConfig new_row) w in w1)
      else w)"

definition main_run :: "nat \<Rightarrow> ('x, 'w) main_lib \<Rightarrow>
    ('rng, 'sk, 's, 'cl, 'k, 'tx, 'rx, 'x, 'w) server_lib \<Rightarrow> (unit, main_event, 'w) task" where
  "main_run n MN L =
     bind_task (connect_to_db MN) (\<lambda>_.
     bind_task (perform_now (mn_run_threaded MN)) (\<lambda>_.
     bind_task (subscribe_to_tables MN) (\<lambda>_.
     bind_task (wait_for_config n MN) (\<lambda>found.
     case found of None \<Rightarrow> ret () | Some config \<Rightarrow>
     bind_task (emit (Configured config)) (\<lambda>_.
     bind_task (Server_spawn L config) (\<lambda>(server_actor, actor).
     bind_task (perform_now (oneshot_channel (sl_mpsc L))) (\<lambda>(death_sender, death_receiver).
     bind_task (Server_start (sl_mpsc L) server_actor (server_address config) death_sender) (\<lambda>_.
     bind_task (emit (Started (server_address config))) (\<lambda>_.
     bind_task (perform_now (mn_on_update MN (on_update (sl_mpsc L) server_actor))) (\<lambda>_.
     bind_task (emit Callback_installed) (\<lambda>_.
     bind_task (perform (mn_death MN death_receiver)) (\<lambda>_.
     bind_task (emit Listener_died) (\<lambda>_.
     bind_task (perform_now (mn_disconnect MN)) (\<lambda>d.
     bind_task (lift_run ''Unable to cleanly disconnect from database.'' (unwrap_result d)) (\<lambda>_.
     bind_task (emit Disconnected) (\<lambda>_.
     bind_task (perform (mn_join MN)) (\<lambda>j.
     bind_task (lift_run ''db_handle.join().unwrap()'' (unwrap_result j)) (\<lambda>_.
     emit Joined))))))))))))))))))"

section \<open>Properties\<close>

text \<open>
  C36: The wait for the configuration ends. When the configuration table has its first rows after
  \<open>k + 1\<close> sleeps, the loop returns the first of them at that moment, having slept \<open>k + 1\<close> times and done
  nothing else.
\<close>

theorem wait_for_config_returns:
  assumes "\<forall>w. mn_sleep MN 20 w = Done () (tick w)"
    and "\<forall>j\<in>{1..k}. mn_rows MN ((tick ^^ j) (cx_env c)) = []"
    and "mn_rows MN ((tick ^^ Suc k) (cx_env c)) = row # rows"
  shows "wait_for_config (Suc k + m) MN c = Done (Some row) (c\<lparr>cx_env := (tick ^^ Suc k) (cx_env c)\<rparr>)"
  using assms(2,3)
proof (induction k arbitrary: c)
  case 0
  with assms(1) show ?case by (simp add: task_eval perform_def)
next
  case (Suc k)
  let ?c1 = "c\<lparr>cx_env := tick (cx_env c)\<rparr>"
  have now: "mn_rows MN (tick (cx_env c)) = []"
    using Suc.prems(1) by (auto dest: bspec [of _ _ 1])
  have shift: "(tick ^^ j) (tick (cx_env c)) = (tick ^^ Suc j) (cx_env c)" for j
    by (simp add: funpow_swap1)
  have "wait_for_config (Suc k + m) MN ?c1 = Done (Some row) (?c1\<lparr>cx_env := (tick ^^ Suc k) (cx_env ?c1)\<rparr>)"
    using Suc.prems by (intro Suc.IH) (auto simp: shift simp del: funpow.simps)
  with assms(1) now show ?case
    by (simp add: task_eval perform_def shift del: funpow.simps)
qed

definition toy_main :: "nat \<Rightarrow> (unit, toy_world) main_lib" where
  "toy_main ready = \<lparr>mn_build = (\<lambda>_ w. (Ok (), w)), mn_run_threaded = (\<lambda>w. ((), w)), mn_subscribe = (\<lambda>_ _ w. ((), w)),
     mn_sleep = (\<lambda>_ w. Done () (w\<lparr>tw_tracker := Suc (tw_tracker w)\<rparr>)),
     mn_rows = (\<lambda>w. if tw_tracker w < ready then [] else [BasicConfiguration_default]),
     mn_on_update = (\<lambda>_ w. ((), w)),
     mn_death = (\<lambda>_ w. Done (Some ()) w), mn_disconnect = (\<lambda>w. (Ok (), w)), mn_join = (\<lambda>w. Done (Ok ()) w)\<rparr>"

definition toy_main_start :: "(main_event, toy_world) ctx" where
  "toy_main_start = \<lparr>cx_env = \<lparr>tw_mailbox = [], tw_tracker = 0\<rparr>, cx_trace = []\<rparr>"

lemma toy_ticks: "((\<lambda>w. w\<lparr>tw_tracker := Suc (tw_tracker w)\<rparr>) ^^ j) w = w\<lparr>tw_tracker := tw_tracker w + j\<rparr>"
  by (induction j) auto

theorem wait_for_config_returns_witness:
  "\<exists>c1. wait_for_config 7 (toy_main 3) toy_main_start = Done (Some BasicConfiguration_default) c1 \<and>
     tw_tracker (cx_env c1) = 3"
  using wait_for_config_returns [of "toy_main 3" "\<lambda>w. w\<lparr>tw_tracker := Suc (tw_tracker w)\<rparr>" 2 toy_main_start
      BasicConfiguration_default "[]" 4]
  by (simp add: toy_main_def toy_main_start_def toy_ticks numeral_eq_Suc del: funpow.simps)

text \<open>
  C24: The program comes up and goes down in order. In every environment, whatever stops it, what it has
  done is a first part of: connect, subscribe, take a configuration, start the listener on the address
  of that configuration, install the update callback, see the listener's death, disconnect, join.
\<close>

theorem main_in_order:
  assumes "cx_trace c = []"
  shows "\<exists>config. prefix (trace_of (main_run n MN L c))
    [Connected, Subscribed [''SELECT * FROM server_basic_config''], Configured config,
     Started (server_address config), Callback_installed, Listener_died, Disconnected, Joined]"
proof -
  let ?I = "\<lambda>t. \<exists>config. prefix t
    [Connected, Subscribed [''SELECT * FROM server_basic_config''], Configured config,
     Started (server_address config), Callback_installed, Listener_died, Disconnected, Joined]"
  have wait: "safe (wait_for_config n MN) t (\<lambda>_ t1. t1 = t) (\<lambda>_ t1. t1 = t) (\<lambda>t1. t1 = t)" for t
    by (induction n) (auto intro!: safe_rules split: list.split)
  have spawn: "safe (Server_spawn L config) t (\<lambda>_ t1. t1 = t) (\<lambda>_ t1. t1 = t) (\<lambda>t1. t1 = t)" for t config
    unfolding Server_spawn_def ServerActor_new_def mojang_pubkeys_def by (intro safe_rules) auto
  have "safe (main_run n MN L) [] (\<lambda>_. ?I) (\<lambda>_. ?I) ?I"
    unfolding main_run_def connect_to_db_def subscribe_to_tables_def Server_start_def
    by (intro safe_rules safe_mono [OF wait] safe_mono [OF spawn]) auto
  from safe_trace [OF this assms] show ?thesis .
qed

theorem main_in_order_witness:
  "\<exists>config. prefix (trace_of (main_run 7 (toy_main 3) toy_server toy_main_start))
    [Connected, Subscribed [''SELECT * FROM server_basic_config''], Configured config,
     Started (server_address config), Callback_installed, Listener_died, Disconnected, Joined]"
  by (rule main_in_order) (simp add: toy_main_start_def)

text \<open>
  Configuration updates are forwarded once. An update of the row with id 0 adds exactly one message
  with the new row to the server's mailbox, or none when the mailbox is full or closed (the update is
  then lost); an update of any other row changes nothing.
\<close>

theorem update_forwarded:
  assumes "mpsc_ok M (srv_sender server) accepted"
  shows "(cfg_id new \<noteq> 0 \<longrightarrow> on_update M server old new w = w) \<and>
    (cfg_id new = 0 \<longrightarrow> accepted (on_update M server old new w) =
      (if is_ok (fst (server_try_send M server (UpdateConfig new) w)) then accepted w @ [UpdateConfig new]
       else accepted w))"
proof -
  obtain r w1 where r: "server_try_send M server (UpdateConfig new) w = (r, w1)" by fastforce
  from server_try_send_inbox [OF assms r] r show ?thesis by (simp add: on_update_def)
qed

theorem update_forwarded_witness:
  "cw_accepted (on_update chan_lib \<lparr>srv_sender = ()\<rparr> BasicConfiguration_default BasicConfiguration_default
     \<lparr>cw_accepted = [Shutdown], cw_taken = 0, cw_capacity = 16, cw_closed = False, cw_next = 4\<rparr>) =
     [Shutdown, UpdateConfig BasicConfiguration_default] \<and>
   cw_accepted (on_update chan_lib \<lparr>srv_sender = ()\<rparr> BasicConfiguration_default BasicConfiguration_default
     \<lparr>cw_accepted = [Shutdown], cw_taken = 0, cw_capacity = 1, cw_closed = False, cw_next = 4\<rparr>) = [Shutdown]"
  using update_forwarded [where M = chan_lib and accepted = cw_accepted and server = "\<lparr>srv_sender = ()\<rparr>" and
      old = BasicConfiguration_default and new = BasicConfiguration_default and
      w = "\<lparr>cw_accepted = [Shutdown], cw_taken = 0, cw_capacity = 16, cw_closed = False, cw_next = 4\<rparr>"]
    update_forwarded [where M = chan_lib and accepted = cw_accepted and server = "\<lparr>srv_sender = ()\<rparr>" and
      old = BasicConfiguration_default and new = BasicConfiguration_default and
      w = "\<lparr>cw_accepted = [Shutdown], cw_taken = 0, cw_capacity = 1, cw_closed = False, cw_next = 4\<rparr>"]
  by (simp add: mpsc_ok_chan) (simp add: chan_lib_def server_try_send_def BasicConfiguration_default_def)

end
