(* ===== verification/Proxy.thy ===== *)
theory Proxy
  imports System_Theorems Main_Proxy
begin

text \<open>
  The whole proxy: \<open>main\<close> with its callback on the configuration row, the listener, the connections and the
  server, as events in any order that their causes allow. It refines \<open>System\<close>: whatever happens in the
  proxy, its channels see a run of \<open>system_run\<close>, in which only \<open>main\<close> and its callback post.
\<close>

section \<open>Events and state\<close>

text \<open>
  An event of \<open>main\<close>, the start message it posts, an update of a row of the configuration table in the
  database, and the events of the listener, of a connection and of the server. Connections count in the
  order in which they are accepted.
\<close>

datatype 's proxy_event =
    Main_event main_event
  | Start_posted string reply_to
  | Row_updated BasicConfiguration BasicConfiguration
  | Listener_event "'s event"
  | Client_event nat "'s event"
  | Server_event server_event

record proxy_state =
  px_chan :: chan_state
  px_config :: "BasicConfiguration option"
  px_callback :: bool
  px_listening :: bool
  px_clients :: nat

definition proxy_start :: proxy_state where
  "proxy_start = \<lparr>px_chan = chan_start, px_config = None, px_callback = False, px_listening = False,
     px_clients = 0\<rparr>"

text \<open>
  The mailbox as the sender's library sees it: \<open>try_send\<close> takes the message when there is room. (Once the
  server is gone it takes none; as no event of the server follows then, that makes no difference.)
\<close>

definition chan_mpsc :: "(unit, unit, ServerMessage, chan_state) mpsc_lib" where
  "chan_mpsc = \<lparr>
     mp_channel = (\<lambda>n c. (((), ()), c)),
     mp_send = (\<lambda>_ m c. (Ok (), accept m c)),
     mp_try_send = (\<lambda>_ m c. if admits c m then (Ok (), accept m c) else (Err (Full m), c)),
     mp_waits = (\<lambda>_ c. mailbox_capacity \<le> length (ch_queue c)),
     oneshot_channel = (\<lambda>c. ((0, 0), c))\<rparr>"

section \<open>Steps\<close>

fun main_step :: "main_event \<Rightarrow> proxy_state \<Rightarrow> proxy_state" where
  "main_step (Configured cfg) p = p\<lparr>px_config := Some cfg\<rparr>"
| "main_step Callback_installed p = p\<lparr>px_callback := True\<rparr>"
| "main_step e p = p"

fun is_accept :: "'s event \<Rightarrow> bool" where
  "is_accept (Accepted i addr) = True"
| "is_accept e = False"

fun starts_listener :: "server_event \<Rightarrow> bool" where
  "starts_listener (Task_on tracker address death) = True"
| "starts_listener e = False"

text \<open>
  The causes: \<open>main\<close> starts the listener at the address it has read, after the server; an update reaches
  the callback once that is installed, and is what \<open>on_update\<close> makes of it; the server runs once there is a
  configuration; the listener once the server has spawned it; a connection once it is accepted.
\<close>

fun proxy_step :: "proxy_state \<Rightarrow> 's proxy_event \<Rightarrow> proxy_state option" where
  "proxy_step p (Main_event e) = Some (main_step e p)"
| "proxy_step p (Start_posted address death) =
     (case px_config p of
        None \<Rightarrow> None
      | Some cfg \<Rightarrow>
          if address = server_address cfg \<and> admits (px_chan p) (StartListener address death)
          then Some (p\<lparr>px_chan := accept (StartListener address death) (px_chan p)\<rparr>) else None)"
| "proxy_step p (Row_updated old new) =
     Some (if px_callback p then p\<lparr>px_chan := on_update chan_mpsc \<lparr>srv_sender = ()\<rparr> old new (px_chan p)\<rparr> else p)"
| "proxy_step p (Listener_event e) =
     (if \<not> px_listening p then None
      else Some (if is_accept e then p\<lparr>px_clients := Suc (px_clients p)\<rparr> else p))"
| "proxy_step p (Client_event i e) =
     (if px_clients p \<le> i then None else map_option (\<lambda>c. p\<lparr>px_chan := c\<rparr>) (conn_step (px_chan p) e))"
| "proxy_step p (Server_event e) =
     (case px_config p of
        None \<Rightarrow> None
      | Some cfg \<Rightarrow> map_option (\<lambda>c. p\<lparr>px_chan := c, px_listening := px_listening p \<or> starts_listener e\<rparr>)
          (srv_step (px_chan p) e))"

fun proxy_steps :: "proxy_state \<Rightarrow> 's proxy_event list \<Rightarrow> proxy_state option" where
  "proxy_steps p [] = Some p"
| "proxy_steps p (e # es) = (case proxy_step p e of None \<Rightarrow> None | Some p1 \<Rightarrow> proxy_steps p1 es)"

lemma proxy_steps_append:
  "proxy_steps p (xs @ ys) = (case proxy_steps p xs of None \<Rightarrow> None | Some p1 \<Rightarrow> proxy_steps p1 ys)"
  by (induction p xs rule: proxy_steps.induct) (simp_all split: option.split)

section \<open>The parts of a run\<close>

fun client_event :: "nat \<Rightarrow> 's proxy_event \<Rightarrow> 's event option" where
  "client_event i (Client_event j e) = (if j = i then Some e else None)"
| "client_event i e = None"

fun server_event_of :: "'s proxy_event \<Rightarrow> server_event option" where
  "server_event_of (Server_event e) = Some e"
| "server_event_of e = None"

definition client_part :: "nat \<Rightarrow> 's proxy_event list \<Rightarrow> 's event list" where
  "client_part i evs = List.map_filter (client_event i) evs"

definition server_part :: "'s proxy_event list \<Rightarrow> server_event list" where
  "server_part evs = List.map_filter server_event_of evs"

lemma part_simps [simp]:
  "client_part i [] = []" "server_part [] = []"
  "client_part i (e # es) = (case client_event i e of None \<Rightarrow> [] | Some x \<Rightarrow> [x]) @ client_part i es"
  "server_part (e # es) = (case server_event_of e of None \<Rightarrow> [] | Some x \<Rightarrow> [x]) @ server_part es"
  by (simp_all add: client_part_def server_part_def List.map_filter_simps split: option.split)

lemma part_append [simp]:
  "client_part i (xs @ ys) = client_part i xs @ client_part i ys"
  "server_part (xs @ ys) = server_part xs @ server_part ys"
  by (simp_all add: client_part_def server_part_def)

lemma client_event_Some [simp]: "client_event i x = Some e \<longleftrightarrow> x = Client_event i e"
  by (cases x) auto

lemma in_client_part: "e \<in> set (client_part i evs) \<longleftrightarrow> Client_event i e \<in> set evs"
  by (auto simp: client_part_def set_map_filter)

section \<open>What the channels see\<close>

definition forwarded :: "proxy_state \<Rightarrow> BasicConfiguration \<Rightarrow> bool" where
  "forwarded p new \<longleftrightarrow> px_callback p \<and> cfg_id new = 0 \<and> length (ch_queue (px_chan p)) < mailbox_capacity"

fun sys_of :: "proxy_state \<Rightarrow> 's proxy_event \<Rightarrow> 's sys_event list" where
  "sys_of p (Start_posted address death) = [Posted (StartListener address death)]"
| "sys_of p (Row_updated old new) = (if forwarded p new then [Posted (UpdateConfig new)] else [])"
| "sys_of p (Client_event i e) = [Conn i e]"
| "sys_of p (Server_event e) = [Srv e]"
| "sys_of p e = []"

fun sys_events :: "proxy_state \<Rightarrow> 's proxy_event list \<Rightarrow> 's sys_event list" where
  "sys_events p [] = []"
| "sys_events p (e # es) = sys_of p e @ (case proxy_step p e of None \<Rightarrow> [] | Some p1 \<Rightarrow> sys_events p1 es)"

lemma on_update_chan:
  "on_update chan_mpsc s old new c =
     (if cfg_id new = 0 \<and> length (ch_queue c) < mailbox_capacity then accept (UpdateConfig new) c else c)"
  by (auto simp: on_update_def chan_mpsc_def server_try_send_def admits_def)

lemma row_step:
  "proxy_step p (Row_updated old new) =
     Some (if forwarded p new then p\<lparr>px_chan := accept (UpdateConfig new) (px_chan p)\<rparr> else p)"
  by (simp add: on_update_chan forwarded_def)

lemma main_step_chan [simp]: "px_chan (main_step e p) = px_chan p"
  by (cases e) simp_all

lemma proxy_step_refines:
  assumes "proxy_step p e = Some p1"
  shows "chan_steps (px_chan p) (sys_of p e) = Some (px_chan p1)"
proof (cases e)
  case (Row_updated old new)
  with assms show ?thesis
    unfolding Row_updated row_step by (auto simp: forwarded_def admits_def)
next
  case (Start_posted address death)
  with assms show ?thesis by (auto split: option.splits if_splits)
next
  case (Server_event ev)
  with assms show ?thesis by (auto split: option.splits)
next
  case (Client_event i ev)
  with assms show ?thesis by (auto split: if_splits)
qed (use assms in \<open>auto split: if_splits\<close>)

lemma chan_steps_append:
  "chan_steps c (xs @ ys) = (case chan_steps c xs of None \<Rightarrow> None | Some c1 \<Rightarrow> chan_steps c1 ys)"
  by (induction c xs rule: chan_steps.induct) (simp_all split: option.split)

lemma proxy_steps_refine: "proxy_steps p evs = Some q \<Longrightarrow> chan_steps (px_chan p) (sys_events p evs) = Some (px_chan q)"
proof (induction p evs rule: proxy_steps.induct)
  case (2 p e es)
  then obtain p1 where e: "proxy_step p e = Some p1" and "proxy_steps p1 es = Some q"
    by (auto split: option.splits)
  with 2 show ?case by (simp add: chan_steps_append proxy_step_refines [OF e])
qed simp

lemma proxy_system_run: "proxy_steps proxy_start evs = Some p \<Longrightarrow> system_run (sys_events proxy_start evs) (px_chan p)"
  using system_steps [OF system_start, of "sys_events proxy_start evs" "px_chan p"] proxy_steps_refine [of proxy_start evs p]
  by (simp add: proxy_start_def)

lemma sys_of_parts:
  "conn_part i (sys_of p e) = (case client_event i e of None \<Rightarrow> [] | Some x \<Rightarrow> [x])"
  "srv_part (sys_of p e) = (case server_event_of e of None \<Rightarrow> [] | Some x \<Rightarrow> [x])"
  by (cases e; simp add: conn_part_def srv_part_def List.map_filter_simps)+

lemma conn_srv_append:
  "conn_part i (xs @ ys) = conn_part i xs @ conn_part i ys" "srv_part (xs @ ys) = srv_part xs @ srv_part ys"
  by (simp_all add: conn_part_def srv_part_def)

lemma sys_events_parts:
  "proxy_steps p evs = Some q \<Longrightarrow>
     conn_part i (sys_events p evs) = client_part i evs \<and> srv_part (sys_events p evs) = server_part evs"
proof (induction p evs rule: proxy_steps.induct)
  case (1 p)
  then show ?case by (simp add: conn_part_def srv_part_def List.map_filter_simps)
next
  case (2 p e es)
  then show ?case by (auto simp: conn_srv_append sys_of_parts split: option.splits)
qed

lemma sys_events_append:
  "proxy_steps p xs = Some q \<Longrightarrow> sys_events p (xs @ ys) = sys_events p xs @ sys_events q ys"
  by (induction p xs rule: proxy_steps.induct) (auto split: option.splits)

lemma posted_update:
  "Posted (UpdateConfig cfg) \<in> set (sys_events p evs) \<Longrightarrow> \<exists>old. Row_updated old cfg \<in> set evs \<and> cfg_id cfg = 0"
proof (induction p evs rule: sys_events.induct)
  case (2 p e es)
  then consider "Posted (UpdateConfig cfg) \<in> set (sys_of p e)"
    | p1 where "proxy_step p e = Some p1" "Posted (UpdateConfig cfg) \<in> set (sys_events p1 es)"
    by (cases "proxy_step p e") auto
  then show ?case
  proof cases
    case 1
    then show ?thesis by (cases e) (auto simp: forwarded_def split: if_splits)
  qed (use 2 in auto)
qed simp

end
