(* ===== verification/Proxy_Theorems.thy ===== *)
theory Proxy_Theorems
  imports Proxy
begin

text \<open>The properties of the whole proxy, from the database to the clients.\<close>

section \<open>Where a status text comes from\<close>

abbreviation config_json :: "('s, 'x) status_lib \<Rightarrow> BasicConfiguration \<Rightarrow> (string, 'x) result" where
  "config_json J cfg \<equiv> to_json J (build_response J (max_players cfg) (motd cfg))"

lemma texts_source:
  "texts J cur ms = cur \<or> (\<exists>cfg. UpdateConfig cfg \<in> set ms \<and> config_json J cfg = Ok (texts J cur ms))"
proof (induction ms rule: rev_induct)
  case (snoc m ms)
  then show ?case by (cases m) (auto split: result.splits)
qed simp

lemma started_text:
  fixes c :: "('v, 'w) ctx"
  assumes "Server_spawn L cfg c = Done (h, sv) c1"
  shows "config_json (sl_status L) cfg = Ok (get_status_string (sv_listing sv))"
proof -
  have "safe (Server_spawn L cfg) (cx_trace c)
      (\<lambda>(h, sv) (_ :: 'v list). config_json (sl_status L) cfg = Ok (get_status_string (sv_listing sv)))
      (\<lambda>_ _. True) (\<lambda>_. True)"
    unfolding Server_spawn_def ServerActor_new_def mojang_pubkeys_def
    by (intro safe_rules)
      (auto simp: run_simps from_config_def CachedStatus_new_def with_json_Ret_iff json_in_sync_def get_status_string_def)
  from safe_cases(1) [OF this refl assms] show ?thesis by simp
qed

text \<open>The configurations that come from the database: what \<open>main\<close> read, and updates of its row.\<close>

definition from_database :: "'s proxy_event list \<Rightarrow> BasicConfiguration \<Rightarrow> bool" where
  "from_database evs cfg \<longleftrightarrow> Main_event (Configured cfg) \<in> set evs \<or>
     (\<exists>old. Row_updated old cfg \<in> set evs \<and> cfg_id cfg = 0)"

lemma proxy_step_config:
  "proxy_step p e = Some p1 \<Longrightarrow> px_config p1 = px_config p \<or> (\<exists>cfg. e = Main_event (Configured cfg) \<and> px_config p1 = Some cfg)"
proof (cases e)
  case (Main_event m)
  then show "proxy_step p e = Some p1 \<Longrightarrow> ?thesis" by (cases m) auto
qed (auto simp: on_update_chan split: option.splits if_splits)

lemma config_read:
  "proxy_steps p evs = Some q \<Longrightarrow> px_config q = Some cfg \<Longrightarrow>
     px_config p = Some cfg \<or> Main_event (Configured cfg) \<in> set evs"
proof (induction p evs rule: proxy_steps.induct)
  case (2 p e es)
  then obtain p1 where e: "proxy_step p e = Some p1" and "px_config p1 = Some cfg \<or> Main_event (Configured cfg) \<in> set es"
    by (auto split: option.splits)
  with proxy_step_config [OF e] show ?case by auto
qed simp

lemma update_from_row:
  assumes "proxy_steps proxy_start evs = Some p" and "UpdateConfig cfg \<in> set (messages (server_part evs))"
  shows "\<exists>old. Row_updated old cfg \<in> set evs \<and> cfg_id cfg = 0"
proof -
  let ?sys = "sys_events proxy_start evs"
  from proxy_system_run [OF assms(1)] have run: "system_run ?sys (px_chan p)" .
  from system_inv [OF run] have facts: "\<And>i e. Conn i e \<in> set ?sys \<Longrightarrow> conn_fact (px_chan p) e"
    and "ch_accepted (px_chan p) = messages (srv_part ?sys) @ ch_queue (px_chan p)"
    by (auto simp: queue_inv_def)
  with assms sys_events_parts [OF assms(1)] have "UpdateConfig cfg \<in> set (List.map_filter accepted_of ?sys)"
    using system_accepted [OF run] by simp
  then obtain e where "e \<in> set ?sys" "accepted_of e = Some (UpdateConfig cfg)" by (auto simp: set_map_filter)
  with facts have "Posted (UpdateConfig cfg) \<in> set ?sys"
    by (cases e rule: accepted_of.cases) fastforce+
  then show ?thesis by (rule posted_update)
qed

lemma client_served:
  assumes "cx_trace c = []" and "cx_trace cs = []" and "proxy_steps proxy_start evs = Some p"
    and "client_part i evs = trace_of (connection_run E H S K self c)"
    and "server_part evs = trace_of (server_run n L sv cs)"
    and "asked_for H Status_state (client_part i evs)"
  shows "served_status S (sl_status L) (get_status_string (sv_listing sv)) (server_part evs) (client_part i evs)
    (sents (client_part i evs))"
proof -
  have "channels_ok (px_chan p) (client_part i evs) (server_part evs)"
    using system_channels [OF proxy_system_run [OF assms(3)], of i] sys_events_parts [OF assms(3), of i] by simp
  with status_served [OF assms(1,2)] assms(4-6) show ?thesis by metis
qed

lemma client_shown:
  assumes "served_status S J cur st tr fs"
    and "\<And>s rx ms1 ms2. Asked (GetStatus s) rx \<in> set tr \<Longrightarrow> messages st = ms1 @ GetStatus s # ms2 \<Longrightarrow> P (texts J cur ms1)"
  shows "at_most_both (\<lambda>x. \<exists>text. P text \<and> shown_text S text x) (pong_frame S tr) fs"
  by (rule at_most_both_mono [OF assms(1) [unfolded served_status_def]])
    (use assms(2) in \<open>fastforce simp: served_text_def shown_text_def\<close>)+

text \<open>What a connection is sent that starts after an update was forwarded.\<close>

lemma later_clients_shown:
  assumes "cx_trace c = []" and "cx_trace cs = []"
    and "evs = e1 @ Row_updated old new # e2" and "proxy_steps proxy_start evs = Some p"
    and "proxy_steps proxy_start e1 = Some p1" and "forwarded p1 new"
    and "\<forall>e. Client_event i e \<notin> set e1"
    and "\<forall>old1 new1. Row_updated old1 new1 \<in> set e2 \<longrightarrow> cfg_id new1 \<noteq> 0"
    and "client_part i evs = trace_of (connection_run E H S K self c)"
    and "server_part evs = trace_of (server_run n L sv cs)"
    and "asked_for H Status_state (client_part i evs)"
    and "config_json (sl_status L) new = Ok text"
  shows "at_most_both (shown_text S text) (pong_frame S (client_part i evs)) (sents (client_part i evs))"
proof -
  let ?J = "sl_status L" and ?cur = "get_status_string (sv_listing sv)"
  let ?p2 = "p1\<lparr>px_chan := accept (UpdateConfig new) (px_chan p1)\<rparr>"
  have p2: "proxy_step p1 (Row_updated old new) = Some ?p2" using assms(6) by (simp only: row_step if_True)
  have split: "sys_events proxy_start evs =
      sys_events proxy_start e1 @ Posted (UpdateConfig new) # sys_events ?p2 e2"
    unfolding assms(3) sys_events_append [OF assms(5)] by (simp add: p2 assms(6) del: proxy_step.simps)
  note run = proxy_system_run [OF assms(4), unfolded split]
  have parts: "conn_part i (sys_events proxy_start evs) = client_part i evs"
      "srv_part (sys_events proxy_start evs) = server_part evs"
    using sys_events_parts [OF assms(4)] by simp_all
  have fresh: "Conn i e \<notin> set (sys_events proxy_start e1)" for e
  proof -
    have "conn_part i (sys_events proxy_start e1) = client_part i e1" using sys_events_parts [OF assms(5)] by simp
    with assms(7) show ?thesis by (simp flip: in_conn_part in_client_part)
  qed
  have last: "Posted (UpdateConfig cfg1) \<notin> set (sys_events ?p2 e2)" for cfg1
    using posted_update assms(8) by blast
  have "at_most_both (\<lambda>x. \<exists>t. t = text \<and> shown_text S t x) (pong_frame S (client_part i evs)) (sents (client_part i evs))"
  proof (rule client_shown [OF client_served [OF assms(1,2,4,9-11)]])
    fix s rx ms1 ms2
    assume "Asked (GetStatus s) rx \<in> set (client_part i evs)"
      and "messages (server_part evs) = ms1 @ GetStatus s # ms2"
    with question_after_update [OF run fresh last, of s rx ms1 ms2 ?J ?cur] show "texts ?J ?cur ms1 = text"
      using parts assms(12) by (simp add: split)
  qed
  then show ?thesis by simp
qed

section \<open>Scripted runs\<close>

text \<open>
  A proxy that comes up with one configuration, a row that changes, and a client that asks for the
  status; the server is the one that is spawned with the configuration.
\<close>

definition row_old :: BasicConfiguration where
  "row_old = BasicConfiguration_default\<lparr>motd := ''old''\<rparr>"

definition row_new :: BasicConfiguration where
  "row_new = BasicConfiguration_default\<lparr>motd := ''new''\<rparr>"

definition spawned_actor :: "(unit, unit, unit, unit, unit, unit) ServerActor" where
  "spawned_actor = toy_actor\<lparr>sv_listing := \<lparr>status_response = build_response toy_status 100000 ''old'',
     status_response_json = ''old''\<rparr>, sv_auth_client := Some (), sv_tasks := 1\<rparr>"

lemma spawned: "\<exists>h c1. Server_spawn toy_server row_old (toy_start []) = Done (h, spawned_actor) c1"
  by (simp add: Server_spawn_def server_eval ServerActor_new_def mojang_pubkeys_def auth_client_def KeyStore_new_def
      generate_private_key_def BasicConfiguration_default_def row_old_def spawned_actor_def)

definition spawned_trace :: "ServerMessage list \<Rightarrow> server_event list" where
  "spawned_trace ms = trace_of (server_run 20 toy_server spawned_actor (toy_start ms))"

abbreviation start_message :: ServerMessage where
  "start_message \<equiv> StartListener ''0.0.0.0:25565'' 99"

text \<open>One run in which the update arrives, one in which sixteen questions of another client fill the mailbox.\<close>

definition seen_messages :: "ServerMessage list" where
  "seen_messages = [start_message, UpdateConfig row_new, GetStatus 0]"

definition full_messages :: "ServerMessage list" where
  "full_messages = start_message # map GetStatus [100..<116] @ [GetStatus 0]"

lemma spawned_trace_seen:
  "spawned_trace seen_messages =
     [Got start_message, Task_on 1 ''0.0.0.0:25565'' 99, Got (UpdateConfig row_new), Got (GetStatus 0),
      Answered 0 (Status_text ''new'')]"
  by (simp add: spawned_trace_def seen_messages_def spawned_actor_def server_eval server_run_numeral
      row_new_def get_status_string_def cong: task_congs)

lemma spawned_trace_full:
  "spawned_trace full_messages = [Got start_message, Task_on 1 ''0.0.0.0:25565'' 99] @
     concat (map (\<lambda>k. [Got (GetStatus k), Answered k (Status_text ''old'')]) ([100..<116] @ [0]))"
  by (simp add: spawned_trace_def full_messages_def spawned_actor_def server_eval server_run_numeral
      get_status_string_def upt_rec cong: task_congs)

definition old_client :: script_world where
  "old_client = status_client\<lparr>sw_strings := [Some ''old'']\<rparr>"

lemma client_trace_old:
  "client_trace old_client =
     [Received (Some \<lparr>rp_id = 0, rp_payload = [1]\<rparr>), Asked (GetStatus 0) 0, Spawned 1 Status_task,
      Received (Some \<lparr>rp_id = 0, rp_payload = []\<rparr>), Reply_string 0 (Some ''old''),
      Sent (Cleartext ()) (map of_char ''old''), Received (Some \<lparr>rp_id = 1, rp_payload = [1, 2]\<rparr>),
      Sent (Cleartext ()) [2], Stream_shut (Cleartext ())]"
  by (simp add: client_trace_def old_client_def status_client_def connection_run_def next_run_def status_eval
      handshake_eval Let_def)

type_synonym script_event = "(unit, bytes \<times> bytes, bytes \<times> bytes) MCSocket proxy_event"

definition up_events :: "script_event list" where
  "up_events = [Main_event Connected, Main_event (Configured row_old), Start_posted ''0.0.0.0:25565'' 99,
     Main_event (Started ''0.0.0.0:25565''), Main_event Callback_installed,
     Server_event (Got start_message), Server_event (Task_on 1 ''0.0.0.0:25565'' 99),
     Listener_event (Bound ''0.0.0.0:25565'')]"

definition seen_rest :: "script_event list" where
  "seen_rest =
     (let t = client_trace status_client; s = spawned_trace seen_messages in
      [Listener_event (Accepted 0 ''peer'')] @ map (Client_event 0) (take 2 t) @
      map Server_event (drop 2 s) @ map (Client_event 0) (drop 2 t))"

definition full_first :: "script_event list" where
  "full_first = up_events @ [Listener_event (Accepted 0 ''peer''), Listener_event (Accepted 1 ''other'')] @
     map (\<lambda>k. Client_event 1 (Asked (GetStatus k) k)) [100..<116]"

definition full_rest :: "script_event list" where
  "full_rest =
     (let t = client_trace old_client; s = spawned_trace full_messages in
      map Server_event (take 32 (drop 2 s)) @ map (Client_event 0) (take 2 t) @
      map Server_event (drop 34 s) @ map (Client_event 0) (drop 2 t))"

lemmas proxy_eval = proxy_start_def chan_start_def admits_def mailbox_capacity_def accept_def replied_def row_old_def
  BasicConfiguration_default_def

lemma up_steps: "\<exists>p. proxy_steps proxy_start up_events = Some p \<and> forwarded p row_new"
  by (simp add: up_events_def proxy_eval forwarded_def row_new_def)

lemma seen_steps:
  "\<exists>p. proxy_steps proxy_start (up_events @ Row_updated row_old row_new # seen_rest) = Some p \<and> px_config p = Some row_old"
  by (simp add: up_events_def seen_rest_def client_trace_status spawned_trace_seen proxy_eval row_new_def on_update_chan)

lemma full_steps: "\<exists>p. proxy_steps proxy_start full_first = Some p \<and> \<not> forwarded p row_new"
  by (simp add: full_first_def up_events_def proxy_eval forwarded_def row_new_def upt_rec)

lemma full_run: "\<exists>p. proxy_steps proxy_start (full_first @ Row_updated row_old row_new # full_rest) = Some p"
  by (simp add: full_first_def full_rest_def up_events_def client_trace_old spawned_trace_full proxy_eval row_new_def
      on_update_chan upt_rec)

lemma run_parts:
  "client_part 0 (up_events @ Row_updated row_old row_new # seen_rest) = client_trace status_client"
  "server_part (up_events @ Row_updated row_old row_new # seen_rest) = spawned_trace seen_messages"
  "client_part 0 (full_first @ Row_updated row_old row_new # full_rest) = client_trace old_client"
  "server_part (full_first @ Row_updated row_old row_new # full_rest) = spawned_trace full_messages"
  by (simp_all add: up_events_def seen_rest_def full_first_def full_rest_def client_trace_status client_trace_old
      spawned_trace_seen spawned_trace_full upt_rec)

lemma asked_for_old: "asked_for script_handshake Status_state (client_trace old_client)"
  by (auto simp: asked_for_def client_trace_old script_handshake_def parsed_def)

section \<open>Properties\<close>

text \<open>
  C10: Clients are shown what the database says. In every run of the whole proxy in which the
  server was spawned with the configuration that \<open>main\<close> read, and a connection and the server do what
  their code does, a client that asks for the status is sent at most a status and a pong, and the
  status is that of the configuration read at the start or of an update of the row with id 0 that the
  database reported.
\<close>

theorem clients_shown_database_configuration:
  assumes "cx_trace c = []" and "cx_trace cs = []" and "proxy_steps proxy_start evs = Some p"
    and "client_part i evs = trace_of (connection_run E H S K self c)"
    and "server_part evs = trace_of (server_run n L sv cs)"
    and "asked_for H Status_state (client_part i evs)"
    and "px_config p = Some cfg" and "Server_spawn L cfg cm = Done (h, sv) cm1"
  shows "at_most_both
    (\<lambda>x. \<exists>text. (\<exists>cfg1. from_database evs cfg1 \<and> config_json (sl_status L) cfg1 = Ok text) \<and> shown_text S text x)
    (pong_frame S (client_part i evs)) (sents (client_part i evs))"
proof (rule client_shown [OF client_served [OF assms(1-6)]])
  fix s rx ms1 ms2
  assume ms: "messages (server_part evs) = ms1 @ GetStatus s # ms2"
  let ?J = "sl_status L" and ?cur = "get_status_string (sv_listing sv)"
  from texts_source [of ?J ?cur ms1]
  show "\<exists>cfg1. from_database evs cfg1 \<and> config_json ?J cfg1 = Ok (texts ?J ?cur ms1)"
  proof (elim disjE exE conjE)
    fix cfg1
    assume "UpdateConfig cfg1 \<in> set ms1" and "config_json ?J cfg1 = Ok (texts ?J ?cur ms1)"
    with update_from_row [OF assms(3), of cfg1] ms show ?thesis by (auto simp: from_database_def)
  next
    assume "texts ?J ?cur ms1 = ?cur"
    moreover have "from_database evs cfg"
      using config_read [OF assms(3,7)] by (simp add: proxy_start_def from_database_def)
    ultimately show ?thesis using started_text [OF assms(8)] by auto
  qed
qed

theorem clients_shown_database_configuration_witness:
  "at_most_both
      (\<lambda>x. \<exists>text. (\<exists>cfg1. from_database (up_events @ Row_updated row_old row_new # seen_rest) cfg1 \<and>
         config_json (sl_status toy_server) cfg1 = Ok text) \<and> shown_text script_status text x)
      (pong_frame script_status (client_trace status_client)) (sents (client_trace status_client)) \<and>
    sents (client_trace status_client) = [(Cleartext (), map of_char ''new''), (Cleartext (), [2])]"
proof -
  obtain p where run: "proxy_steps proxy_start (up_events @ Row_updated row_old row_new # seen_rest) = Some p"
    and cfg: "px_config p = Some row_old"
    using seen_steps by blast
  obtain h c1 where "Server_spawn toy_server row_old (toy_start []) = Done (h, spawned_actor) c1" using spawned by blast
  from clients_shown_database_configuration [OF cx_trace_start toy_start_trace run
      run_parts(1) [unfolded client_trace_def] run_parts(2) [unfolded spawned_trace_def] _ cfg this]
  have "at_most_both
      (\<lambda>x. \<exists>text. (\<exists>cfg1. from_database (up_events @ Row_updated row_old row_new # seen_rest) cfg1 \<and>
         config_json (sl_status toy_server) cfg1 = Ok text) \<and> shown_text script_status text x)
      (pong_frame script_status (client_trace status_client)) (sents (client_trace status_client))"
    by (simp only: run_parts asked_for_client)
  moreover have "sents (client_trace status_client) = [(Cleartext (), map of_char ''new''), (Cleartext (), [2])]"
    by (simp add: client_trace_status)
  ultimately show ?thesis by blast
qed

text \<open>
  C9: An update of the configuration is seen by every client that connects afterwards. When the database
  reports a new row with id 0 after \<open>main\<close> has installed its callback, and the mailbox of the server has
  room, then a connection that starts later is sent the status of that row or none, until
  the database reports another, whatever other connections do and however far the server is behind.
\<close>

theorem update_seen_by_later_clients:
  assumes "cx_trace c = []" and "cx_trace cs = []"
    and "evs = e1 @ Row_updated old new # e2" and "proxy_steps proxy_start evs = Some p"
    and "proxy_steps proxy_start e1 = Some p1" and "forwarded p1 new"
    and "\<forall>e. Client_event i e \<notin> set e1"
    and "\<forall>old1 new1. Row_updated old1 new1 \<in> set e2 \<longrightarrow> cfg_id new1 \<noteq> 0"
    and "client_part i evs = trace_of (connection_run E H S K self c)"
    and "server_part evs = trace_of (server_run n L sv cs)"
    and "asked_for H Status_state (client_part i evs)"
    and "config_json (sl_status L) new = Ok text"
  shows "at_most_both (shown_text S text) (pong_frame S (client_part i evs)) (sents (client_part i evs))"
  using assms by (rule later_clients_shown)

theorem update_seen_by_later_clients_witness:
  "at_most_both (shown_text script_status ''new'') (pong_frame script_status (client_trace status_client))
     (sents (client_trace status_client)) \<and>
   \<not> shown_text script_status ''old'' (hd (sents (client_trace status_client)))"
proof -
  obtain p where run: "proxy_steps proxy_start (up_events @ Row_updated row_old row_new # seen_rest) = Some p"
    using seen_steps by blast
  obtain p1 where up: "proxy_steps proxy_start up_events = Some p1" "forwarded p1 row_new" using up_steps by blast
  have rest: "\<forall>e. Client_event 0 e \<notin> set up_events"
    "\<forall>old1 new1. Row_updated old1 new1 \<in> set seen_rest \<longrightarrow> cfg_id new1 \<noteq> 0"
    "config_json (sl_status toy_server) row_new = Ok ''new''"
    by (auto simp: up_events_def seen_rest_def toy_server_def toy_status_def build_response_def row_new_def Let_def)
  from update_seen_by_later_clients [OF cx_trace_start toy_start_trace refl run up rest(1,2)
      run_parts(1) [unfolded client_trace_def] run_parts(2) [unfolded spawned_trace_def] _ rest(3)]
  have "at_most_both (shown_text script_status ''new'') (pong_frame script_status (client_trace status_client))
      (sents (client_trace status_client))"
    by (simp only: run_parts asked_for_client)
  then show ?thesis
    by (simp add: client_trace_status shown_text_def script_status_def serialize_bytes_def of_char_def)
qed

text \<open>
  C12: Updates are lost. An update that the database reports before \<open>main\<close> has installed the callback, or
  while the mailbox of the server is full, leaves no trace (nor does one of a row with another id): the run is one without it. If the database
  reports no other, every client that asks for the status, at whatever time, is shown the
  configuration that the server was spawned with: nothing reads the row again.
\<close>

theorem update_lost:
  assumes "cx_trace c = []" and "cx_trace cs = []"
    and "evs = e1 @ Row_updated old new # e2" and "proxy_steps proxy_start evs = Some p"
    and "proxy_steps proxy_start e1 = Some p1" and "\<not> forwarded p1 new"
    and "\<forall>old1 new1. Row_updated old1 new1 \<in> set (e1 @ e2) \<longrightarrow> cfg_id new1 \<noteq> 0"
    and "client_part i evs = trace_of (connection_run E H S K self c)"
    and "server_part evs = trace_of (server_run n L sv cs)"
    and "asked_for H Status_state (client_part i evs)"
    and "Server_spawn L cfg cm = Done (h, sv) cm1" and "config_json (sl_status L) cfg = Ok text"
  shows "proxy_steps proxy_start (e1 @ e2) = Some p \<and>
    at_most_both (shown_text S text) (pong_frame S (client_part i evs)) (sents (client_part i evs))"
proof -
  let ?J = "sl_status L" and ?cur = "get_status_string (sv_listing sv)"
  have step: "proxy_step p1 (Row_updated old new) = Some p1" using assms(6) by (simp only: row_step if_False)
  have same: "proxy_steps proxy_start (e1 @ e2) = Some p"
    using assms(4) by (simp add: assms(3) proxy_steps_append assms(5) step del: proxy_step.simps)
  have parts: "client_part i evs = client_part i (e1 @ e2)" "server_part evs = server_part (e1 @ e2)"
    by (simp_all add: assms(3))
  have "at_most_both (\<lambda>x. \<exists>t. t = text \<and> shown_text S t x) (pong_frame S (client_part i evs)) (sents (client_part i evs))"
  proof (rule client_shown [OF client_served [OF assms(1,2,4,8-10)]])
    fix s rx ms1 ms2
    assume "messages (server_part evs) = ms1 @ GetStatus s # ms2"
    then have "UpdateConfig cfg1 \<notin> set ms1" for cfg1
      using update_from_row [OF same, of cfg1] assms(7) by (auto simp: parts)
    then have "texts ?J ?cur ms1 = ?cur" by (rule texts_no_update)
    with started_text [OF assms(11)] assms(12) show "texts ?J ?cur ms1 = text" by simp
  qed
  with same show ?thesis by simp
qed

theorem update_lost_witness:
  "\<exists>p. proxy_steps proxy_start (full_first @ full_rest) = Some p \<and>
    at_most_both (shown_text script_status ''old'') (pong_frame script_status (client_trace old_client))
      (sents (client_trace old_client))"
proof -
  obtain p where run: "proxy_steps proxy_start (full_first @ Row_updated row_old row_new # full_rest) = Some p"
    using full_run by blast
  obtain p1 where full: "proxy_steps proxy_start full_first = Some p1" "\<not> forwarded p1 row_new" using full_steps by blast
  obtain h c1 where sp: "Server_spawn toy_server row_old (toy_start []) = Done (h, spawned_actor) c1" using spawned by blast
  have rest: "\<forall>old1 new1. Row_updated old1 new1 \<in> set (full_first @ full_rest) \<longrightarrow> cfg_id new1 \<noteq> 0"
    "config_json (sl_status toy_server) row_old = Ok ''old''"
    by (auto simp: full_first_def full_rest_def up_events_def toy_server_def toy_status_def build_response_def
        row_old_def Let_def)
  from update_lost [OF cx_trace_start toy_start_trace refl run full rest(1)
      run_parts(3) [unfolded client_trace_def] run_parts(4) [unfolded spawned_trace_def] _ sp rest(2)]
  show ?thesis
    by (simp only: run_parts asked_for_old) blast
qed

end
