(* ===== verification/Listener.thy ===== *)
theory Listener
  imports Handshake Scripted
begin

text \<open>
  The listener of \<open>proxy/src/server_actor/actor.rs\<close>, lines 211 to 265: it accepts connections until a
  signal comes or accepting fails, numbers them, and spawns a handshake for each; at its end it
  reports its death.
\<close>

section \<open>Libraries\<close>

text \<open>
  \<open>li_signal\<close> installs the handler of a signal, \<open>li_bind\<close> is \<open>TcpListener::bind\<close>. \<open>li_ready\<close> waits
  until one of the four futures of the \<open>select!\<close> is ready and says which are: the three signals, and
  \<open>accept()\<close> with its result; \<open>li_take\<close> takes the accepted connection, which otherwise stays with
  the listener. \<open>li_death\<close> sends on the channel of the listener's death.
\<close>

record ('t, 'x, 'w) listener_lib =
  li_signal :: "string \<Rightarrow> 'w \<Rightarrow> (unit, 'x) result \<times> 'w"
  li_bind :: "string \<Rightarrow> 'w \<Rightarrow> ((unit, 'x) result, 'w) outcome"
  li_ready :: "'w \<Rightarrow> (bool \<times> bool \<times> bool \<times> ('t \<times> SocketAddr, 'x) result option, 'w) outcome"
  li_take :: "'w \<Rightarrow> unit \<times> 'w"
  li_death :: "reply_to \<Rightarrow> 'w \<Rightarrow> (unit, unit) result \<times> 'w"

section \<open>The listener\<close>

definition signals :: "('t, 'x, 'w) listener_lib \<Rightarrow> (unit, 'c, 'w) task" where
  "signals LI =
     bind_task (perform_now (li_signal LI ''interrupt'')) (\<lambda>sigint.
     bind_task (lift_run ''Unable to set interrupt handler'' (unwrap_result sigint)) (\<lambda>_.
     bind_task (perform_now (li_signal LI ''hangup'')) (\<lambda>sighup.
     bind_task (lift_run ''Unable to set hangup handler'' (unwrap_result sighup)) (\<lambda>_.
     bind_task (perform_now (li_signal LI ''terminate'')) (\<lambda>sigterm.
     lift_run ''Unable to set terminate handler'' (unwrap_result sigterm))))))"

text \<open>The biased \<open>select!\<close>: the first ready branch, in the order of the source.\<close>

definition select_open :: "('t, 'x, 'w) listener_lib \<Rightarrow>
    (('t \<times> SocketAddr, 'x) result option, 'c, 'w) task" where
  "select_open LI =
     bind_task (perform (li_ready LI)) (\<lambda>(sigint, sighup, sigterm, accept).
       if sigint then ret None
       else if sighup then ret None
       else if sigterm then ret None
       else case accept of
           Some open \<Rightarrow> bind_task (perform_now (li_take LI)) (\<lambda>_. ret (Some open))
         | None \<Rightarrow> perform Waiting)"

text \<open>
  The loop, with a bound on its rounds; \<open>Wrapping\<close> addition is addition of words. It returns whether
  it came to a \<open>break\<close>.
\<close>

fun listener_loop :: "nat \<Rightarrow> ('t, 'd, 'e, 'tx, 'rx, 'x, 'w) conn_lib \<Rightarrow> ('t, 'x, 'w) listener_lib \<Rightarrow>
    TaskTracker \<Rightarrow> 'tx \<Rightarrow> usize \<Rightarrow> (bool, ('t, 'd, 'e) MCSocket event, 'w) task" where
  "listener_loop 0 E LI tasks self_addr master_client_id = ret False"
| "listener_loop (Suc n) E LI tasks self_addr master_client_id =
     bind_task (select_open LI) (\<lambda>open. case open of
         Some res \<Rightarrow>
           (case res of
              Ok conn \<Rightarrow>
                bind_task (emit (Accepted master_client_id (snd conn))) (\<lambda>_.
                bind_task (handshake_spawn E (fst conn) (snd conn) master_client_id tasks
                  (from_address self_addr)) (\<lambda>_.
                listener_loop n E LI tasks self_addr (master_client_id + 1)))
            | Err e \<Rightarrow> ret True)
       | None \<Rightarrow> ret True)"

definition run_listener :: "nat \<Rightarrow> ('t, 'd, 'e, 'tx, 'rx, 'x, 'w) conn_lib \<Rightarrow> ('t, 'x, 'w) listener_lib \<Rightarrow>
    string \<Rightarrow> TaskTracker \<Rightarrow> 'tx \<Rightarrow> reply_to \<Rightarrow> (unit, ('t, 'd, 'e) MCSocket event, 'w) task" where
  "run_listener n E LI address tasks self_addr death =
     bind_task (signals LI) (\<lambda>_.
     bind_task (perform (li_bind LI address)) (\<lambda>b.
     bind_task (lift_run ''Failed to start `TcpListener`'' (unwrap_result b)) (\<lambda>_.
     bind_task (emit (Bound address)) (\<lambda>_.
     bind_task (listener_loop n E LI tasks self_addr 0) (\<lambda>ended.
     if ended then
       bind_task (perform_now (li_death LI death)) (\<lambda>r.
       bind_task (lift_run ''death.send(()).unwrap()'' (unwrap_result r)) (\<lambda>_. emit (Death_sent death)))
     else ret ())))))"

section \<open>The trace of the listener\<close>

text \<open>
  The connections accepted, as the loop numbered them, and the handshakes spawned, with the id and the
  address that their actors have.
\<close>

fun accepted_conns :: "'s event list \<Rightarrow> (usize \<times> SocketAddr) list" where
  "accepted_conns [] = []"
| "accepted_conns (Accepted i a # es) = (i, a) # accepted_conns es"
| "accepted_conns (e # es) = accepted_conns es"

fun handshakes :: "'s event list \<Rightarrow> (TaskTracker \<times> usize \<times> SocketAddr) list" where
  "handshakes [] = []"
| "handshakes (Spawned t (Handshake_task i a) # es) = (t, i, a) # handshakes es"
| "handshakes (e # es) = handshakes es"

lemma accepted_conns_append [simp]: "accepted_conns (xs @ ys) = accepted_conns xs @ accepted_conns ys"
  by (induction xs rule: accepted_conns.induct) auto

lemma handshakes_append [simp]: "handshakes (xs @ ys) = handshakes xs @ handshakes ys"
  by (induction xs rule: handshakes.induct) auto

text \<open>
  The connections are numbered from 0 on, modulo \<open>2 ^ 64\<close>, and for each one, in the same order, a
  handshake was spawned on the listener's tracker whose actor has the number and the address of this
  connection; while the loop runs no frame is sent, and no death is reported.
\<close>

definition listener_inv :: "TaskTracker \<Rightarrow> 's event list \<Rightarrow> bool" where
  "listener_inv tasks tr \<longleftrightarrow>
     map fst (accepted_conns tr) = map of_nat [0..<length (accepted_conns tr)] \<and>
     handshakes tr = map (\<lambda>conn. (tasks, conn)) (accepted_conns tr) \<and> sents tr = [] \<and>
     (\<forall>death. Death_sent death \<notin> set tr)"

text \<open>One connection more was accepted, and its handshake not spawned.\<close>

definition listener_stuck :: "TaskTracker \<Rightarrow> 's event list \<Rightarrow> bool" where
  "listener_stuck tasks tr \<longleftrightarrow>
     (\<exists>u a. tr = u @ [Accepted (of_nat (length (accepted_conns u))) a] \<and> listener_inv tasks u)"

text \<open>The panics of the code: its \<open>expect\<close> calls, and the \<open>unwrap\<close> of the report of its death.\<close>

definition setup_panics :: "string set" where
  "setup_panics = {''Unable to set interrupt handler'', ''Unable to set hangup handler'',
     ''Unable to set terminate handler'', ''Failed to start `TcpListener`''}"

definition listener_panic :: "TaskTracker \<Rightarrow> panic \<Rightarrow> 's event list \<Rightarrow> bool" where
  "listener_panic tasks p tr \<longleftrightarrow>
     (case p of
        Panic_in_library \<Rightarrow> listener_inv tasks tr
      | Panic_at place \<Rightarrow>
          if place = ''Failed to set TCP_NODELAY'' then listener_stuck tasks tr
          else place \<in> insert ''death.send(()).unwrap()'' setup_panics \<and> listener_inv tasks tr)"

lemma listener_loop_safe:
  assumes "listener_inv tasks tr" and "i = of_nat (length (accepted_conns tr))"
  shows "safe (listener_loop n E LI tasks self_addr i) tr (\<lambda>_. listener_inv tasks)
    (listener_panic tasks) (listener_inv tasks)"
  using assms
proof (induction n arbitrary: tr i)
  case 0
  then show ?case by simp
next
  case (Suc n)
  have accept: "listener_inv tasks (tr @ [Accepted i a, Spawned tasks (Handshake_task i a)])"
    "listener_stuck tasks (tr @ [Accepted i a])" for a
    using Suc.prems by (auto simp: listener_inv_def listener_stuck_def)
  show ?case
    unfolding listener_loop.simps select_open_def handshake_spawn_def Let_def
    by (intro safe_rules Suc.IH) (use Suc.prems accept in \<open>auto simp: listener_panic_def\<close>)
qed

lemma run_listener_safe:
  "safe (run_listener n E LI address tasks self_addr death) []
    (\<lambda>_ t. listener_inv tasks t \<or> (\<exists>u. t = u @ [Death_sent death] \<and> listener_inv tasks u))
    (listener_panic tasks) (listener_inv tasks)"
proof -
  have start: "listener_inv tasks []" "listener_inv tasks [Bound address]" by (simp_all add: listener_inv_def)
  have loop: "safe (listener_loop n E LI tasks self_addr 0) ([] @ [Bound address]) (\<lambda>_. listener_inv tasks)
    (listener_panic tasks) (listener_inv tasks)"
    by (rule listener_loop_safe) (simp_all add: start listener_inv_def)
  show ?thesis
    unfolding run_listener_def signals_def
    by (intro safe_bind safe_perform safe_perform_now safe_lift_run safe_emit safe_if safe_weaken [OF loop])
      (auto simp: setup_panics_def listener_panic_def start)
qed

section \<open>A scripted listener\<close>

definition script_listener :: "(unit \<times> SocketAddr, unit) result list \<Rightarrow> (unit, unit, script_world) listener_lib" where
  "script_listener conns = \<lparr>
     li_signal = (\<lambda>_ w. (Ok (), w)),
     li_bind = (\<lambda>_ w. Done (Ok ()) w),
     li_ready = (\<lambda>w. if length conns \<le> sw_next w then Done (False, True, False, None) w
        else Done (False, False, False, Some (conns ! sw_next w)) w),
     li_take = (\<lambda>w. ((), w\<lparr>sw_next := Suc (sw_next w)\<rparr>)),
     li_death = (\<lambda>_ w. (Ok (), w))\<rparr>"

lemmas listener_eval = script_eval script_listener_def run_listener_def signals_def select_open_def
  handshake_spawn_def from_address_def

section \<open>Properties\<close>



text \<open>
  C32: One connection can stop the server from accepting. When \<open>TCP_NODELAY\<close> cannot be set on a
  connection that was just accepted, the \<open>expect\<close> in \<open>HandshakeHandler::spawn\<close> panics the accept loop
  itself: no further connection is accepted, and the death of the listener is not reported.
\<close>

theorem nodelay_failure_stops_listener:
  assumes "li_ready LI (cx_env c) = Done (False, False, False, Some (Ok (conn, addr))) w1"
    and "lib_set_nodelay E conn True (snd (li_take LI w1)) = (Err x, w2)"
  shows "listener_loop (Suc n) E LI tasks self_addr i c =
    Panicked (Panic_at ''Failed to set TCP_NODELAY'') \<lparr>cx_env = w2, cx_trace = cx_trace c @ [Accepted i addr]\<rparr>"
  using assms by (simp add: select_open_def handshake_spawn_def task_eval perform_def lift_run_def)

theorem nodelay_failure_stops_listener_witness:
  "listener_loop 3 script_env (script_listener [Ok ((), ''a''), Ok ((), ''b'')]) 3 () 0
     (start_in (script_world0\<lparr>sw_open := False\<rparr>)) =
   Panicked (Panic_at ''Failed to set TCP_NODELAY'')
     \<lparr>cx_env = script_world0\<lparr>sw_open := False, sw_next := 1\<rparr>, cx_trace = [Accepted 0 ''a'']\<rparr>"
  using nodelay_failure_stops_listener [of "script_listener [Ok ((), ''a''), Ok ((), ''b'')]"
      "start_in (script_world0\<lparr>sw_open := False\<rparr>) :: ((unit, bytes \<times> bytes, bytes \<times> bytes) MCSocket event, script_world) ctx"
      "()" "''a''" "script_world0\<lparr>sw_open := False\<rparr>" script_env "()"
      "script_world0\<lparr>sw_open := False, sw_next := 1\<rparr>" 2 3 "()" 0]
  by (simp add: script_listener_def script_world0_def start_in_def script_env_def numeral_3_eq_3)

text \<open>
  A signal beats a connection. When any of the three signals is ready, the listener stops, even
  with a connection waiting: that connection is neither numbered nor taken from the socket.
\<close>

theorem signal_beats_connection:
  assumes "li_ready LI (cx_env c) = Done (sigint, sighup, sigterm, accept) w1"
    and "sigint \<or> sighup \<or> sigterm"
  shows "listener_loop (Suc n) E LI tasks self_addr i c = Done True (c\<lparr>cx_env := w1\<rparr>)"
  using assms by (cases sigint; cases sighup; cases sigterm) (simp_all add: select_open_def task_eval perform_def)

theorem signal_beats_connection_witness:
  "listener_loop 3 script_env (script_listener [] \<lparr>li_ready := \<lambda>w. Done (False, False, True, Some (Ok ((), ''a''))) w\<rparr>)
     3 () 0 (start_in script_world0) = Done True (start_in script_world0)"
  using signal_beats_connection [of "script_listener [] \<lparr>li_ready := \<lambda>w. Done (False, False, True, Some (Ok ((), ''a''))) w\<rparr>"
      "start_in script_world0" False False True "Some (Ok ((), ''a''))" script_world0 2 script_env 3 "()" 0]
  by (simp add: start_in_def numeral_3_eq_3)

end
