(* ===== verification/Digest.thy ===== *)
theory Digest
  imports Key_Store
begin

text \<open>
  The digest that identifies a session to the authentication server, \<open>auth_digest\<close> and
  \<open>KeyStore::get_digest\<close> of \<open>proxy/src/server_actor/key_store.rs\<close>: what the hash and the big integer
  libraries document, and that the text loses nothing of the hash.
\<close>

section \<open>Bytes as numbers\<close>

definition be_value :: "bytes \<Rightarrow> nat" where
  "be_value bs = foldl (\<lambda>v b. v * 256 + unat b) 0 bs"

text \<open>Two's complement, the sign in the first byte.\<close>

definition signed_be :: "bytes \<Rightarrow> int" where
  "signed_be bs = (if bs \<noteq> [] \<and> 128 \<le> unat (hd bs)
     then int (be_value bs) - 256 ^ length bs else int (be_value bs))"

lemma be_value_snoc [simp]: "be_value (bs @ [b]) = be_value bs * 256 + unat b"
  by (simp add: be_value_def)

lemma be_value_Nil [simp]: "be_value [] = 0"
  by (simp add: be_value_def)

lemma byte_lt [simp]: "unat (b :: 8 word) < 256"
  using unsigned_less [of b] by simp

lemma base_256_inject:
  fixes a b c d :: nat
  assumes "b < 256" and "d < 256"
  shows "a * 256 + b = c * 256 + d \<longleftrightarrow> a = c \<and> b = d"
proof
  assume eq: "a * 256 + b = c * 256 + d"
  have "(x * 256 + y) div 256 = x" if "y < 256" for x y :: nat using that by simp
  with assms have "a = (a * 256 + b) div 256" and "c = (c * 256 + d) div 256" by simp_all
  with eq have "a = c" by simp
  with eq show "a = c \<and> b = d" by simp
qed simp

lemma be_value_lt: "be_value bs < 256 ^ length bs"
proof (induction bs rule: rev_induct)
  case (snoc b bs)
  then have "be_value bs * 256 + unat b < (be_value bs + 1) * 256" by simp
  also from snoc have "\<dots> \<le> 256 ^ length bs * 256" by (intro mult_le_mono1) simp
  finally show ?case by (simp add: mult.commute)
qed simp

lemma be_value_inject:
  "length xs = length ys \<Longrightarrow> be_value xs = be_value ys \<longleftrightarrow> xs = ys"
proof (induction xs arbitrary: ys rule: rev_induct)
  case (snoc x xs)
  from snoc.prems obtain zs z where ys: "ys = zs @ [z]" by (cases ys rule: rev_cases) auto
  with snoc have IH: "be_value xs = be_value zs \<longleftrightarrow> xs = zs" by simp
  have "be_value xs * 256 + unat x = be_value zs * 256 + unat z \<longleftrightarrow>
      be_value xs = be_value zs \<and> unat x = unat z"
    by (rule base_256_inject) simp_all
  with IH ys show ?case by (auto simp: unsigned_word_eqI)
qed simp

lemma signed_be_inject:
  assumes "length xs = length ys"
  shows "signed_be xs = signed_be ys \<longleftrightarrow> xs = ys"
proof
  assume eq: "signed_be xs = signed_be ys"
  have "int (be_value zs) = signed_be zs mod 256 ^ length zs" for zs
  proof -
    have "int (be_value zs) < 256 ^ length zs" using be_value_lt [of zs] by (metis of_nat_less_iff of_nat_numeral of_nat_power)
    then show ?thesis by (simp add: signed_be_def mod_pos_pos_trivial)
  qed
  with eq assms have "int (be_value xs) = int (be_value ys)" by simp
  with assms show "xs = ys" by (simp add: be_value_inject)
qed simp

section \<open>Hexadecimal text\<close>

definition hex_digit :: "nat \<Rightarrow> char" where
  "hex_digit d = ''0123456789abcdef'' ! d"

fun hex_nat :: "nat \<Rightarrow> string" where
  "hex_nat n = (if n < 16 then [hex_digit n] else hex_nat (n div 16) @ [hex_digit (n mod 16)])"

declare hex_nat.simps [simp del]

definition hex_int :: "int \<Rightarrow> string" where
  "hex_int i = (if i < 0 then ''-'' @ hex_nat (nat (- i)) else hex_nat (nat i))"

lemma hex_digits_distinct: "distinct ''0123456789abcdef''"
  by simp

lemma hex_digit_inject: "a < 16 \<Longrightarrow> b < 16 \<Longrightarrow> hex_digit a = hex_digit b \<longleftrightarrow> a = b"
  unfolding hex_digit_def by (rule nth_eq_iff_index_eq [OF hex_digits_distinct]) simp_all

lemma hex_digit_sign: "d < 16 \<Longrightarrow> hex_digit d \<noteq> CHR ''-''"
  unfolding hex_digit_def using nth_mem [of d "''0123456789abcdef''"] by auto

lemma hex_nat_inject: "hex_nat m = hex_nat n \<longleftrightarrow> m = n"
proof (induction m arbitrary: n rule: hex_nat.induct)
  case (1 m)
  have nonempty: "hex_nat k \<noteq> []" for k by (subst hex_nat.simps) simp
  show ?case
  proof (cases "m < 16 \<or> n < 16")
    case True
    then show ?thesis
      using nonempty hex_digit_inject
      by (subst (1 2) hex_nat.simps) (auto simp: append_eq_Cons_conv Cons_eq_append_conv)
  next
    case False
    with 1 have IH: "hex_nat (m div 16) = hex_nat (n div 16) \<longleftrightarrow> m div 16 = n div 16" by simp
    have "m = n \<longleftrightarrow> m div 16 = n div 16 \<and> m mod 16 = n mod 16" by (metis div_mult_mod_eq)
    with False IH show ?thesis
      by (subst (1 2) hex_nat.simps) (simp add: hex_digit_inject)
  qed
qed

lemma hex_nat_sign: "hex_nat n \<noteq> CHR ''-'' # s"
proof (induction n arbitrary: s rule: hex_nat.induct)
  case (1 n)
  then show ?case
    by (subst hex_nat.simps) (auto simp: hex_digit_sign Cons_eq_append_conv append_eq_Cons_conv)
qed

lemma hex_int_inject: "hex_int i = hex_int j \<longleftrightarrow> i = j"
  using hex_nat_sign [of "nat i"] hex_nat_sign [of "nat j"]
  by (auto simp: hex_int_def hex_nat_inject nat_eq_iff dest: sym)

section \<open>The libraries\<close>

text \<open>
  What their documentation says. The hash of chained updates is that of the concatenation, \<open>h\<close> of it,
  and has 20 bytes. The big integer is read as big-endian two's complement, and printed in base 16
  with lower-case digits, a minus sign for a negative one and no leading zeros; \<open>val\<close> is its value.
\<close>

definition sha_ok :: "'h sha_lib \<Rightarrow> (bytes \<Rightarrow> bytes) \<Rightarrow> bool" where
  "sha_ok S h \<longleftrightarrow>
     (\<forall>a b. sha_finalize S (sha_update S b (sha_update S a (sha_new S))) = h (a @ b)) \<and>
     (\<forall>m. length (h m) = 20)"

definition bigint_ok :: "'i bigint_lib \<Rightarrow> ('i \<Rightarrow> int) \<Rightarrow> bool" where
  "bigint_ok B val \<longleftrightarrow> (\<forall>bs. val (from_signed_bytes_be B bs) = signed_be bs) \<and>
     (\<forall>i. to_str_radix B i 16 = hex_int (val i))"

lemma auth_digest_hex: "bigint_ok B val \<Longrightarrow> auth_digest B bs = hex_int (signed_be bs)"
  by (simp add: bigint_ok_def auth_digest_def)

text \<open>A concrete pair: the integers of HOL, and a hash that keeps the first 20 bytes.\<close>

definition int_lib :: "int bigint_lib" where
  "int_lib = \<lparr>from_signed_bytes_be = signed_be, to_str_radix = (\<lambda>i r. hex_int i)\<rparr>"

definition pad_sha :: "bytes sha_lib" where
  "pad_sha = \<lparr>sha_new = [], sha_update = (\<lambda>b h. h @ b), sha_finalize = (\<lambda>h. take 20 (h @ replicate 20 0))\<rparr>"

lemma bigint_ok_int: "bigint_ok int_lib (\<lambda>i. i)"
  by (simp add: bigint_ok_def int_lib_def)

lemma sha_ok_pad: "sha_ok pad_sha (\<lambda>m. take 20 (m @ replicate 20 0))"
  by (auto simp: sha_ok_def pad_sha_def min_def)

section \<open>Properties\<close>

text \<open>
  C35: The session text is the hash. It is the signed hexadecimal number of the hash of the shared secret
  followed by the public key, and two secrets get the same text exactly when their hashes are the same:
  nothing is lost by dropping leading zeros or by the sign. A hash whose first bit is set is printed as
  a negative number.
\<close>

theorem digest_identifies_session:
  assumes "sha_ok S h" and "bigint_ok B val"
  shows "get_digest S B ks secret = hex_int (signed_be (h (secret @ public_key_der ks))) \<and>
    (get_digest S B ks secret = get_digest S B ks other \<longleftrightarrow>
       h (secret @ public_key_der ks) = h (other @ public_key_der ks)) \<and>
    ((\<exists>s. get_digest S B ks secret = CHR ''-'' # s) \<longleftrightarrow> 128 \<le> unat (hd (h (secret @ public_key_der ks))))"
proof -
  have digest: "get_digest S B ks m = auth_digest B (h (m @ public_key_der ks))" for m
    using assms(1) by (simp add: get_digest_def sha_ok_def)
  have len: "length (h m) = 20" for m using assms(1) by (simp add: sha_ok_def)
  have sign: "(\<exists>s. hex_int (signed_be bs) = CHR ''-'' # s) \<longleftrightarrow> 128 \<le> unat (hd bs)" if "bs \<noteq> []" for bs
    using that be_value_lt [of bs] hex_nat_sign
    by (auto simp: hex_int_def signed_be_def of_nat_less_iff [symmetric])
  have "h m \<noteq> []" for m using len [of m] by auto
  with sign show ?thesis
    by (simp add: digest auth_digest_hex [OF assms(2)] hex_int_inject signed_be_inject len)
qed

text \<open>The second text is the published one of the name \<open>jeb_\<close>, whose hash starts with \<open>0x83\<close>.\<close>

definition jeb_hash :: bytes where
  "jeb_hash = [0x83, 0x62, 0xa4, 0xff, 0xbb, 0x3e, 0xcf, 0xef, 0x65, 0xa2, 0x84, 0xa0, 0x4a, 0x3c, 0xe8,
     0x3f, 0xd4, 0xb1, 0xd7, 0x3f]"

theorem digest_identifies_session_witness:
  "get_digest pad_sha int_lib \<lparr>private_key = (), public_key_der = [5]\<rparr> [0xff] =
     hex_int (signed_be ([0xff, 5] @ replicate 18 0)) \<and>
   hex_int (signed_be jeb_hash) = ''-7c9d5b0044c130109a5d7b5fb5c317c02b4e28c1''"
  using digest_identifies_session [OF sha_ok_pad bigint_ok_int, of "\<lparr>private_key = (), public_key_der = [5]\<rparr>" "[0xff]"]
  by (simp add: signed_be_def jeb_hash_def be_value_def hex_int_def hex_nat.simps hex_digit_def)

end
