(* ===== verification/Build.thy ===== *)
theory Build
  imports Prelude
begin

text \<open>
  What happens at compile time: the build script \<open>proxy/build.rs\<close>, which passes the git version on to
  the compiler, and the attribute macro of \<open>macros/src/lib.rs\<close>, which gives a packet type its id. The
  icon resource of Windows release builds is left out.
\<close>

section \<open>The build script\<close>

text \<open>
  The arguments are the version that \<open>git_version\<close> found, its fallback included, and the environment
  variable \<open>GIT_VERSION\<close>; the results are the version chosen and the line printed.
\<close>

definition git_version :: "string \<Rightarrow> (string, 'x) result \<Rightarrow> string" where
  "git_version version env =
     (if version = ''unknown''
      then (case env of Ok v \<Rightarrow> v | Err _ \<Rightarrow> ''unknown'')
      else version)"

definition build_main :: "string \<Rightarrow> (string, 'x) result \<Rightarrow> string" where
  "build_main version env = ''cargo:rustc-env=GIT_VERSION='' @ git_version version env"

section \<open>The packet attribute\<close>

text \<open>
  Token streams are lists of tokens. \<open>syn_parse\<close> parses a \<open>struct\<close>, \<open>enum\<close> or \<open>union\<close> item;
  \<open>syn_split\<close> is \<open>split_for_impl\<close>: the generics as they follow \<open>impl\<close>, as they follow the name, and the
  where clause.
\<close>

type_synonym tokens = "string list"

record 'g DeriveInput =
  di_ident :: string
  di_generics :: 'g

record ('g, 'x) syn_lib =
  syn_parse :: "tokens \<Rightarrow> ('g DeriveInput, 'x) result"
  syn_split :: "'g \<Rightarrow> tokens \<times> tokens \<times> tokens"

definition packet_impl :: "tokens \<Rightarrow> string \<Rightarrow> tokens \<Rightarrow> tokens \<Rightarrow> tokens" where
  "packet_impl impl_generics name ty_generics input =
     [''impl''] @ impl_generics @
     [''pumpkin_protocol'', ''::'', ''ser'', ''::'', ''packet'', ''::'', ''Packet'', ''for'', name] @ ty_generics @
     [''{'', ''const'', ''PACKET_ID'', '':'', ''i32'', ''=''] @ input @ ['';'', ''}'']"

definition packet :: "('g, 'x) syn_lib \<Rightarrow> tokens \<Rightarrow> tokens \<Rightarrow> tokens run" where
  "packet Y input item =
     bind_run (unwrap_result (syn_parse Y item)) (\<lambda>ast.
       let (impl_generics, ty_generics, _) = syn_split Y (di_generics ast) in
       Ret (item @ packet_impl impl_generics (di_ident ast) ty_generics input))"

text \<open>
  The item itself stays in front, unchanged; an item that is no type panics the compiler; and the where
  clause of a generic type never reaches the implementation.
\<close>

lemma packet_cases:
  "packet Y input item = (case syn_parse Y item of
     Ok ast \<Rightarrow> Ret (item @ packet_impl (fst (syn_split Y (di_generics ast))) (di_ident ast)
       (fst (snd (syn_split Y (di_generics ast)))) input)
   | Err e \<Rightarrow> Panic)"
  by (auto simp: packet_def run_simps split_def Let_def split: result.split)

lemma packet_ignores_where:
  assumes "\<And>g. fst (syn_split Y g) = fst (syn_split Y' g)" and "\<And>g. fst (snd (syn_split Y g)) = fst (snd (syn_split Y' g))"
    and "syn_parse Y = syn_parse Y'"
  shows "packet Y = packet Y'"
  using assms by (intro ext) (simp add: packet_cases split: result.split)

end
