(* ===== verification/Debug_Output.thy ===== *)
theory Debug_Output
  imports Handshake
begin

text \<open>
  How the connection actors print themselves in log lines: the \<open>Debug\<close> implementations of
  \<open>client_actor/handshake.rs\<close>, \<open>status.rs\<close>, \<open>login.rs\<close> and \<open>configuration.rs\<close>, over \<open>debug_struct\<close> of the
  standard library in its one-line form.
\<close>

section \<open>The standard library's output\<close>

definition decimal_digit :: "nat \<Rightarrow> char" where
  "decimal_digit d = char_of (48 + d)"

fun decimal :: "nat \<Rightarrow> string" where
  "decimal n = (if n < 10 then [decimal_digit n] else decimal (n div 10) @ [decimal_digit (n mod 10)])"

declare decimal.simps [simp del]

fun debug_fields :: "(string \<times> string) list \<Rightarrow> string" where
  "debug_fields [] = ''''"
| "debug_fields [(field, text)] = field @ '': '' @ text"
| "debug_fields ((field, text) # f # fs) = field @ '': '' @ text @ '', '' @ debug_fields (f # fs)"

definition debug_struct :: "string \<Rightarrow> (string \<times> string) list \<Rightarrow> string" where
  "debug_struct name fs = (if fs = [] then name else name @ '' { '' @ debug_fields fs @ '' }'')"

section \<open>The actors\<close>

definition HandshakeActor_fmt :: "('t, 'tx) HandshakeActor \<Rightarrow> string" where
  "HandshakeActor_fmt self = debug_struct ''HandshakeActor'' [(''id'', decimal (unat (ha_id self)))]"

definition StatusActor_fmt :: "'t StatusActor \<Rightarrow> string" where
  "StatusActor_fmt self = debug_struct ''StatusActor'' [(''id'', decimal (unat (ta_id self)))]"

definition LoginActor_fmt :: "('t, 'd, 'e, 'tx) LoginActor \<Rightarrow> string" where
  "LoginActor_fmt self = debug_struct ''LoginActor'' [(''id'', decimal (unat (la_id self)))]"

definition ConfigurationActor_fmt :: "('t, 'd, 'e, 'tx) ConfigurationActor \<Rightarrow> string" where
  "ConfigurationActor_fmt self = debug_struct ''ConfigurationActor'' [(''id'', decimal (unat (ca_id self)))]"

section \<open>What a log line says\<close>

definition decimal_value :: "string \<Rightarrow> nat" where
  "decimal_value s = foldl (\<lambda>v c. 10 * v + (of_char c - 48)) 0 s"

lemma decimal_value [simp]: "decimal_value (decimal n) = n"
proof (induction n rule: decimal.induct)
  case (1 n)
  have digit: "(of_char (decimal_digit d) :: nat) - 48 = d" if "d < 10" for d
    using that by (simp add: decimal_digit_def)
  show ?case
    using 1 digit [of n] digit [of "n mod 10"]
    by (subst decimal.simps) (simp add: decimal_value_def)
qed

text \<open>
  An actor prints the number of its connection and nothing else of itself: two actors of a kind print
  the same exactly if they have the same id, whatever their streams, tokens and profiles hold.
\<close>

lemma debug_identifies_connection:
  "HandshakeActor_fmt h1 = HandshakeActor_fmt h2 \<longleftrightarrow> ha_id h1 = ha_id h2"
  "StatusActor_fmt s1 = StatusActor_fmt s2 \<longleftrightarrow> ta_id s1 = ta_id s2"
  "LoginActor_fmt l1 = LoginActor_fmt l2 \<longleftrightarrow> la_id l1 = la_id l2"
  "ConfigurationActor_fmt c1 = ConfigurationActor_fmt c2 \<longleftrightarrow> ca_id c1 = ca_id c2"
proof -
  have "decimal (unat m) = decimal (unat n) \<longleftrightarrow> m = n" for m n :: usize
    by (metis decimal_value word_unat_eq_iff)
  then show "HandshakeActor_fmt h1 = HandshakeActor_fmt h2 \<longleftrightarrow> ha_id h1 = ha_id h2"
    "StatusActor_fmt s1 = StatusActor_fmt s2 \<longleftrightarrow> ta_id s1 = ta_id s2"
    "LoginActor_fmt l1 = LoginActor_fmt l2 \<longleftrightarrow> la_id l1 = la_id l2"
    "ConfigurationActor_fmt c1 = ConfigurationActor_fmt c2 \<longleftrightarrow> ca_id c1 = ca_id c2"
    by (simp_all add: HandshakeActor_fmt_def StatusActor_fmt_def LoginActor_fmt_def ConfigurationActor_fmt_def
        debug_struct_def)
qed

end
