(* ===== verification/Spec2Isabelle.thy ===== *)
theory Spec2Isabelle
  imports Login_Wire Server_Config_Correct Player_Correct Connection_Cache_Correct
    Proxy_Theorems Listener Digest Build Debug_Output
begin

  text \<open> SpaceTimeMC: a Minecraft server split in two. The \<^bold>\<open>module\<close>
  (\<open>server/src\<close>) runs inside SpacetimeDB and owns the tables: the one row of the server's
  configuration, the players. The \<^bold>\<open>proxy\<close> (\<open>proxy/src\<close>) subscribes to
  the configuration and speaks the Minecraft protocol: a listener accepts connections; each connection is
  an actor that goes through the states handshake, then status or login, then configuration; all of them
  send their questions to one server actor, which caches the status, owns the key pair and is told of
  configuration updates by a callback in \<open>main\<close>.

  \<^bold>\<open>Theories and code.\<close>
  \<^item> \<open>Prelude\<close>: machine integers as words, \<open>Result\<close>, panics (\<open>run\<close>), polls, checked subtraction and
    slicing, lists of rows as maps. \<open>Task\<close>: async functions as tasks over an environment and a trace,
    \<open>select!\<close> against a sleep, the rules of \<open>safe\<close> (what holds in every environment), and those of
    \<open>oblivious\<close> (no task reads its trace), by which what holds of a task alone holds of it after others.
  \<^item> \<open>Net\<close>, over \<open>Framing\<close>: the codec of \<open>client_actor/net.rs\<close>. The state \<open>MCCodec\<close>, \<open>decode\<close> (head, body,
    data), \<open>encode\<close>, \<open>serialize_bytes\<close>. \<open>Framing\<close> is the generic theory of incremental decoders, the locale
    \<open>framing\<close>; \<open>Net\<close> interprets it on the codec. \<open>Leb128\<close> is a concrete \<open>VarInt\<close>. \<open>Net_Correct\<close> has the
    properties.
  \<^item> \<open>Mc_Socket\<close>: the encrypting socket of \<open>client_actor/mc_socket.rs\<close>, its four polls and the switch to
    encryption; \<open>Mc_Socket_Correct\<close> its properties, with runs of a sink and of a source as inductive
    relations. \<open>Wire\<close> puts codec and socket together: packets through the encrypted connection;
    \<open>Login_Wire\<close> says what a login puts on the TCP stream through both.
  \<^item> \<open>Stream_Actor\<close>: the trait of \<open>client_actor/stream_actor.rs\<close> as a record of its required method, its
    provided methods as definitions over that record, the trace events, and the locale \<open>stream_actor\<close>
    with one rule per provided method; \<open>Configuration\<close>, \<open>Login\<close>, \<open>Status\<close>, \<open>Handshake\<close> model the files
    of the same names in \<open>client_actor\<close> and interpret the locale on their actors.
    \<open>Login_Correct\<close>, \<open>Login_Theorems\<close> and \<open>Connection_Theorems\<close> have the properties; \<open>Scripted\<close> is a
    concrete environment for the witnesses. \<open>Connection\<close> is a whole connection: \<open>connection_run\<close> runs
    the tasks of its states one after the other, as each spawns the next in its last action.
    \<open>Debug_Output\<close> is how the actors print themselves in log lines.
  \<^item> \<open>Actor_Ref\<close> and \<open>Server_Handle\<close>: \<open>err.rs\<close>, \<open>actor_ref.rs\<close> and the handle \<open>Server\<close> of
    \<open>server_actor/actor.rs\<close>; the locale \<open>actor_ref\<close> is what a reference to an actor promises, interpreted
    on the handle.
  \<^item> \<open>Connection_Cache\<close>, \<open>Key_Store\<close>: \<open>server_actor/connection_cache.rs\<close> and \<open>server_actor/key_store.rs\<close>, the
    cached status with its player count, the icon, the brand; the key pair, and in \<open>Digest\<close> what its
    session text says. \<open>Server_Actor\<close>: the actor of
    \<open>server_actor/actor.rs\<close>, its construction, each message, the loop; \<open>Server_Actor_Correct\<close> has the
    abstract server \<open>answers\<close> and the refinement, \<open>Server_Trackers\<close> the trackers that shutdowns await
    and listeners run on, \<open>Server_Theorems\<close> the properties.
    \<open>Listener\<close>: the accept loop of the same file.
  \<^item> \<open>End_To_End\<close>: a run of a connection and a run of the server, each in an environment of its own, tied by
    \<open>channels_ok\<close>, which states over the two traces what the mailbox and the reply channels deliver.
    \<open>System\<close>: the channels as a state machine (\<open>chan_step\<close>, \<open>system_run\<close>) over the interleaved events of any
    number of connections, of the server and of those who post to its mailbox; \<open>channels_ok\<close> and the
    order of the mailbox are invariants of it. \<open>System_Theorems\<close> has the end-to-end properties.
    \<open>Proxy\<close> is the whole process: \<open>main\<close> and its callback, the listener, the connections and the server as
    events that each need their cause (\<open>proxy_step\<close>), and the refinement of \<open>system_run\<close>; \<open>Proxy_Theorems\<close>
    follows a configuration from the database to the clients.
  \<^item> \<open>Main_Proxy\<close>: \<open>main.rs\<close> and the conversions of \<open>module_bindings/mod.rs\<close>; \<open>Build\<close>: \<open>build.rs\<close> and the
    attribute macro of \<open>macros/src/lib.rs\<close>.
  \<^item> \<open>Server_Config\<close>, \<open>Player_Module\<close>: the module's \<open>server/config.rs\<close>, \<open>server/mod.rs\<close>, \<open>lib.rs\<close>, \<open>player.rs\<close>
    and \<open>types_support.rs\<close>.

  \<^bold>\<open>Libraries.\<close> Everything outside the repository is an argument: a record of
  functions (\<open>net_lib\<close>, \<open>cipher_lib\<close>, \<open>io_lib\<close>,
  \<open>framed_lib\<close>, \<open>mpsc_lib\<close>, \<open>reply_lib\<close>, \<open>status_lib\<close>,
  \<open>rsa_lib\<close>, \<open>config_table\<close>, \<open>player_table\<close>,
  \<open>server_lib\<close>, \<open>listener_lib\<close>, \<open>main_lib\<close>, \<open>sha_lib\<close>,
  \<open>bigint_lib\<close>, \<open>syn_lib\<close>). Where a property relies on what such a library
  documents, it says so by a named predicate (\<open>net_ok\<close>, \<open>writes_ok\<close>,
  \<open>reads_ok\<close>, \<open>ciphers_ok\<close>, \<open>framed_ok\<close>, \<open>mpsc_ok\<close>,
  \<open>config_table_ok\<close>, \<open>player_table_ok\<close>, \<open>trackers_ok\<close>,
  \<open>system_run\<close>, \<open>proxy_steps\<close>, \<open>sha_ok\<close>, \<open>bigint_ok\<close>),
  and its witness gives a concrete library that satisfies it. The properties of the connection actors, of
  the server's answers and of the listener assume nothing of their libraries: they hold for every
  environment.

  \<^bold>\<open>What the lemmas show.\<close> Codec: chunking does not matter, encoding and decoding are
  inverse, waiting loses nothing, and exactly which inputs panic. Socket: the wrapped stream takes the
  ciphertext of what was written, however writes are split, and a reader at the other end gets a first
  part of the plaintext. Connections: a trace is a list of what the actor received, asked, was told and
  sent, with the socket each frame went to; the \<open>safe\<close> rules bound that trace on every path,
  those that panic or never finish included; \<open>connection_ok\<close> bounds it for the whole
  connection. A panic inside a call that the environment answers is told apart from one in the code of the
  actors only; the framed stream, which runs the codec, is such a call, and what its decoder panics on is
  said by the lemmas of the codec. Server: its answers are those of an abstract server that folds over the messages. End to
  end: since a reply channel belongs to one question, the replies in the trace of a connection are the
  abstract server's answers to that connection's questions, so its frames can be stated in terms of the
  server's key pair and of the configurations it was sent. Wire: a first part of the ciphertext gives a
  first part of the packets; what the TCP stream takes during a login is the frame of the request in clear
  text, then only ciphertext under the agreed key. Proxy: a client is only shown what the database
  reported, an update that reaches the mailbox is shown from then on, one that does not is gone. Module:
  the reducers keep one configuration row and a store of players with one row per profile.

  \<^bold>\<open>Bounds.\<close> Loops that need not end (\<open>server_run\<close>,
  \<open>listener_loop\<close>, \<open>wait_for_config\<close>) take a number of rounds: every finite part
  of a run is a run with some bound, and the properties hold for every bound; that the wait for the
  configuration ends is proved. Buffers are bounded by \<open>decode_limit\<close>, the largest size at
  which no announced frame can outgrow \<open>isize::MAX\<close>. \<open>usize\<close> is 64 bits wide.

  \<^bold>\<open>Not modelled.\<close> Log lines, except those that are all a callback does; the
  \<open>Debug\<close> output of a player row; the scheduler itself (each task is a sequence of steps in
  an environment that may change between any two of them, and \<open>system_run\<close> admits every order
  that the channels do); the icon resource in the build script; the generated bindings
  \<open>module_bindings/autogen\<close>, which are not in the repository; the start of the logger in
  \<open>main.rs\<close>; the files that only declare modules.

  \<^bold>\<open>Next.\<close> The login's bytes as \<open>Login_Wire\<close> has them, for the status and
  for a whole connection; the events of \<open>main\<close> and of the listener in \<open>Proxy\<close>
  tied to the traces of \<open>main_run\<close> and \<open>run_listener\<close>.\<close>

section \<open>From a reducer call to the status of the next client\<close>

text \<open>
  C16: A changed message of the day reaches the players. When the module's reducer has set it, the
  database has reported the changed row to the proxy with the callback installed, and the mailbox of the
  server had room, then a client that connects afterwards and asks for the status is sent at most a status
  and a pong, and the status is the JSON text of a response with the new message of the day as its
  description, the maximum of players that the row had before, nobody online and no icon; this until
  the database reports another update of the row, in every run of the whole proxy in which this connection
  and the server do what their code does.
\<close>

theorem motd_change_reaches_clients:
  assumes "config_table_ok T rows" and "rows db 0 = Some old"
    and "update_motd T m db = Ret (res, db1)" and "rows db1 0 = Some new"
    and "cx_trace c = []" and "cx_trace cs = []"
    and "evs = e1 @ Row_updated old new # e2" and "proxy_steps proxy_start evs = Some p"
    and "proxy_steps proxy_start e1 = Some p1" and "px_callback p1"
    and "length (ch_queue (px_chan p1)) < mailbox_capacity"
    and "\<forall>e. Client_event i e \<notin> set e1"
    and "\<forall>old1 new1. Row_updated old1 new1 \<in> set e2 \<longrightarrow> cfg_id new1 \<noteq> 0"
    and "client_part i evs = trace_of (connection_run E H S K self c)"
    and "server_part evs = trace_of (server_run n L sv cs)"
    and "asked_for H Status_state (client_part i evs)"
    and "to_json (sl_status L)
      \<lparr>sr_version = Some \<lparr>ver_name = CURRENT_MC_VERSION, ver_protocol = current_protocol (sl_status L)\<rparr>,
       sr_players = Some \<lparr>pl_max = max_players old, pl_online = 0, pl_sample = []\<rparr>,
       sr_description = m, sr_favicon = None, sr_enforce_secure_chat = True\<rparr> = Ok text"
  shows "at_most_both (shown_text S text) (pong_frame S (client_part i evs)) (sents (client_part i evs))"
proof -
  have "rows db1 = (rows db)(0 \<mapsto> old\<lparr>motd := m\<rparr>)"
    using update_motd_rows [OF assms(1), of m db] assms(2,3) by auto
  with assms(4) have new: "new = old\<lparr>motd := m\<rparr>" by simp
  have "cfg_id old = 0" by (rule config_table_okD(3) [OF assms(1,2)])
  with new assms(10,11) have "forwarded p1 new" by (simp add: forwarded_def)
  moreover have "config_json (sl_status L) new = Ok text"
    using assms(17) by (simp add: new build_response_def)
  ultimately show ?thesis
    using later_clients_shown [OF assms(5-9) _ assms(12-16)] by blast
qed

theorem motd_change_reaches_clients_witness:
  "update_motd list_table ''new'' [row_old] = Ret (Ok (), [row_new]) \<and>
   at_most_both (shown_text script_status ''new'') (pong_frame script_status (client_trace status_client))
     (sents (client_trace status_client)) \<and>
   sents (client_trace status_client) = [(Cleartext (), map of_char ''new''), (Cleartext (), [2])]"
proof -
  obtain p where run: "proxy_steps proxy_start (up_events @ Row_updated row_old row_new # seen_rest) = Some p"
    using seen_steps by blast
  obtain p1 where up: "proxy_steps proxy_start up_events = Some p1" "forwarded p1 row_new" using up_steps by blast
  then have room: "px_callback p1" "length (ch_queue (px_chan p1)) < mailbox_capacity" by (simp_all add: forwarded_def)
  have rest: "\<forall>e. Client_event 0 e \<notin> set up_events"
    "\<forall>old1 new1. Row_updated old1 new1 \<in> set seen_rest \<longrightarrow> cfg_id new1 \<noteq> 0"
    by (auto simp: up_events_def seen_rest_def Let_def)
  have called: "update_motd list_table ''new'' [row_old] = Ret (Ok (), [row_new])"
    by (simp add: update_motd_def list_table_def replace_row_def row_old_def row_new_def BasicConfiguration_default_def)
  have rows: "list_rows [row_old] 0 = Some row_old" "list_rows [row_new] 0 = Some row_new"
    by (simp_all add: row_old_def row_new_def BasicConfiguration_default_def)
  have "at_most_both (shown_text script_status ''new'') (pong_frame script_status (client_trace status_client))
     (sents (client_trace status_client))"
    using motd_change_reaches_clients [OF list_table_ok rows(1) called rows(2) cx_trace_start toy_start_trace refl run
        up(1) room rest run_parts(1) [unfolded client_trace_def] run_parts(2) [unfolded spawned_trace_def], of "''new''"]
    by (simp only: run_parts asked_for_client) (simp add: toy_server_def toy_status_def)
  with called show ?thesis by (simp add: client_trace_status)
qed

end
